(* ===== verification/Prelude.thy ===== *)
theory Prelude
  imports Main "HOL-Library.State_Monad"
begin

text \<open>
  Shared vocabulary of the development: the 64-bit arithmetic of Go's int, int64 and
  time.Duration, error results, and a small calculus for programs written in the state monad:
  the equations that run them (collection run_simps) and the rules that carry an invariant
  through them (collection keep_intros).
\<close>

named_theorems run_simps "equations that run state-monad programs"
named_theorems keep_intros "rules that carry an invariant through a state-monad program"

section \<open>Machine integers\<close>

text \<open>The two's complement value that 64-bit arithmetic keeps of an exact result.\<close>

definition wrap64 :: "int \<Rightarrow> int" where
  "wrap64 n = (n + 2 ^ 63) mod 2 ^ 64 - 2 ^ 63"

definition in_int64 :: "int \<Rightarrow> bool" where
  "in_int64 n \<longleftrightarrow> - (2 ^ 63) \<le> n \<and> n < 2 ^ 63"

lemma wrap64_id [simp]: "in_int64 n \<Longrightarrow> wrap64 n = n"
  by (simp add: wrap64_def in_int64_def)

lemma wrap64_bounds [simp]: "in_int64 (wrap64 n)"
  using pos_mod_bound [of "2 ^ 64" "n + 2 ^ 63"] pos_mod_sign [of "2 ^ 64" "n + 2 ^ 63"]
  by (simp add: wrap64_def in_int64_def)

lemma wrap64_idem [simp]: "wrap64 (wrap64 n) = wrap64 n"
  by simp

lemma wrap64_small: "\<bar>n\<bar> < 2 ^ 63 \<Longrightarrow> wrap64 n = n"
  by (rule wrap64_id) (auto simp: in_int64_def)

section \<open>Running state-monad programs\<close>

lemma run_state_bind [run_simps]:
  "run_state (State_Monad.bind m f) s = (case run_state m s of (a, s') \<Rightarrow> run_state (f a) s')"
  by (simp add: State_Monad.bind_def)

lemma run_state_get [run_simps]: "run_state State_Monad.get s = (s, s)"
  by (simp add: State_Monad.get_def)

lemma run_state_set [run_simps]: "run_state (State_Monad.set t) s = ((), t)"
  by (simp add: State_Monad.set_def)

declare run_state_return [run_simps]

definition gets :: "('s \<Rightarrow> 'a) \<Rightarrow> ('s, 'a) state" where
  "gets f = State (\<lambda>s. (f s, s))"

definition modify :: "('s \<Rightarrow> 's) \<Rightarrow> ('s, unit) state" where
  "modify f = State (\<lambda>s. ((), f s))"

lemma run_state_gets [simp, run_simps]: "run_state (gets f) s = (f s, s)"
  by (simp add: gets_def)

lemma run_state_modify [simp, run_simps]: "run_state (modify f) s = ((), f s)"
  by (simp add: modify_def)

section \<open>Invariants of state-monad programs\<close>

text \<open>A program keeps a predicate when every run from a state that satisfies it ends in one.\<close>

definition keeps :: "('s \<Rightarrow> bool) \<Rightarrow> ('s, 'a) state \<Rightarrow> bool" where
  "keeps I m \<longleftrightarrow> (\<forall>s. I s \<longrightarrow> I (snd (run_state m s)))"

lemma keepsI: "(\<And>s. I s \<Longrightarrow> I (snd (run_state m s))) \<Longrightarrow> keeps I m"
  by (simp add: keeps_def)

lemma keepsD: "keeps I m \<Longrightarrow> I s \<Longrightarrow> I (snd (run_state m s))"
  by (simp add: keeps_def)

lemma keeps_return [simp, keep_intros]: "keeps I (State_Monad.return a)"
  by (rule keepsI) simp

lemma keeps_get [simp, keep_intros]: "keeps I State_Monad.get"
  by (rule keepsI) (simp add: run_simps)

lemma keeps_gets [simp, keep_intros]: "keeps I (gets f)"
  by (rule keepsI) simp

lemma keeps_modify [keep_intros]: "(\<And>s. I s \<Longrightarrow> I (f s)) \<Longrightarrow> keeps I (modify f)"
  by (rule keepsI) simp

lemma keeps_bind [keep_intros]:
  assumes "keeps I m" and "\<And>a. keeps I (f a)"
  shows "keeps I (State_Monad.bind m f)"
proof (rule keepsI)
  fix s assume "I s"
  with assms(1) have "I (snd (run_state m s))" by (rule keepsD)
  then show "I (snd (run_state (State_Monad.bind m f) s))"
    using assms(2) by (auto simp: run_simps split_beta intro: keepsD)
qed

lemma keeps_if [keep_intros]: "keeps I m \<Longrightarrow> keeps I n \<Longrightarrow> keeps I (if b then m else n)"
  by simp

lemma keeps_case_sum [keep_intros]:
  "(\<And>e. keeps I (f e)) \<Longrightarrow> (\<And>a. keeps I (g a)) \<Longrightarrow> keeps I (case x of Inl e \<Rightarrow> f e | Inr a \<Rightarrow> g a)"
  by (simp split: sum.split)

lemma keeps_case_option [keep_intros]:
  "keeps I m \<Longrightarrow> (\<And>a. keeps I (g a)) \<Longrightarrow> keeps I (case x of None \<Rightarrow> m | Some a \<Rightarrow> g a)"
  by (simp split: option.split)

lemma keeps_case_prod [keep_intros]:
  "(\<And>a b. keeps I (g a b)) \<Longrightarrow> keeps I (case x of (a, b) \<Rightarrow> g a b)"
  by (simp split: prod.split)

lemma keeps_let [keep_intros]: "(\<And>a. keeps I (g a)) \<Longrightarrow> keeps I (let a = x in g a)"
  by simp

lemma keeps_conj: "keeps I m \<Longrightarrow> keeps J m \<Longrightarrow> keeps (\<lambda>s. I s \<and> J s) m"
  by (simp add: keeps_def)

text \<open>A program for every element of a list, in order.\<close>

fun for_each :: "('a \<Rightarrow> ('s, unit) state) \<Rightarrow> 'a list \<Rightarrow> ('s, unit) state" where
  "for_each f [] = State_Monad.return ()"
| "for_each f (x # xs) = State_Monad.bind (f x) (\<lambda>_. for_each f xs)"

lemma keeps_for_each [keep_intros]: "(\<And>x. keeps I (f x)) \<Longrightarrow> keeps I (for_each f xs)"
  by (induction xs) (auto intro: keep_intros)

section \<open>Results of state-monad programs\<close>

text \<open>
  \<open>always P m\<close>: every result satisfies P. \<open>hoare I m Q\<close>: from a state with I, result and final state
  satisfy Q. Their rules are in the collection run_intros; a first step that keeps I is passed by
  \<open>hoare_keeps_bind\<close>.
\<close>

named_theorems run_intros "rules for the results of a state-monad program"

definition always :: "('a \<Rightarrow> bool) \<Rightarrow> ('s, 'a) state \<Rightarrow> bool" where
  "always P m \<longleftrightarrow> (\<forall>s. P (fst (run_state m s)))"

definition hoare :: "('s \<Rightarrow> bool) \<Rightarrow> ('s, 'a) state \<Rightarrow> ('a \<Rightarrow> 's \<Rightarrow> bool) \<Rightarrow> bool" where
  "hoare I m Q \<longleftrightarrow> (\<forall>s. I s \<longrightarrow> Q (fst (run_state m s)) (snd (run_state m s)))"

lemma alwaysD: "always P m \<Longrightarrow> run_state m s = (r, t) \<Longrightarrow> P r"
  unfolding always_def by (drule spec [of _ s]) simp

lemma always_return [run_intros]: "P a \<Longrightarrow> always P (State_Monad.return a)"
  by (simp add: always_def)

lemma always_bind [run_intros]: "(\<And>a. always P (f a)) \<Longrightarrow> always P (State_Monad.bind m f)"
  by (simp add: always_def run_simps split_beta)

lemma always_if [run_intros]: "always P m \<Longrightarrow> always P n \<Longrightarrow> always P (if b then m else n)"
  by simp

lemma always_case_option [run_intros]:
  "always P m \<Longrightarrow> (\<And>a. always P (g a)) \<Longrightarrow> always P (case x of None \<Rightarrow> m | Some a \<Rightarrow> g a)"
  by (simp split: option.split)

lemma always_case_prod [run_intros]:
  "(\<And>a b. always P (g a b)) \<Longrightarrow> always P (case x of (a, b) \<Rightarrow> g a b)"
  by (simp split: prod.split)

lemma hoareD: "hoare I m Q \<Longrightarrow> I s \<Longrightarrow> run_state m s = (r, t) \<Longrightarrow> Q r t"
  by (auto simp: hoare_def)

lemma hoare_return: "(\<And>s. I s \<Longrightarrow> Q a s) \<Longrightarrow> hoare I (State_Monad.return a) Q"
  by (simp add: hoare_def)

lemma hoare_bind:
  assumes "hoare I m R" "\<And>a. hoare (R a) (f a) Q"
  shows "hoare I (State_Monad.bind m f) Q"
  using assms by (auto simp: hoare_def run_simps split_beta)

lemma hoare_keeps_bind: "keeps I m \<Longrightarrow> (\<And>a. hoare I (f a) Q) \<Longrightarrow> hoare I (State_Monad.bind m f) Q"
  by (rule hoare_bind [where R = "\<lambda>_. I"]) (auto simp: hoare_def keeps_def)

lemma hoare_if: "(b \<Longrightarrow> hoare I m Q) \<Longrightarrow> (\<not> b \<Longrightarrow> hoare I n Q) \<Longrightarrow> hoare I (if b then m else n) Q"
  by simp

lemma hoare_always: "always P m \<Longrightarrow> (\<And>r s. P r \<Longrightarrow> Q r s) \<Longrightarrow> hoare I m Q"
  by (simp add: always_def hoare_def)

lemma hoare_conseq: "hoare I m R \<Longrightarrow> (\<And>r s. R r s \<Longrightarrow> Q r s) \<Longrightarrow> hoare I m Q"
  by (auto simp: hoare_def)

lemma hoare_weaken: "hoare J m Q \<Longrightarrow> (\<And>s. I s \<Longrightarrow> J s) \<Longrightarrow> hoare I m Q"
  by (simp add: hoare_def)

lemma keeps_hoare: "keeps I m \<longleftrightarrow> hoare I m (\<lambda>_. I)"
  by (simp add: hoare_def keeps_def)

section \<open>Lists\<close>

lemma concat_map_filter: "concat (map f (filter P xs)) = concat (map (\<lambda>x. if P x then f x else []) xs)"
  by (induction xs) auto

lemma distinct_map_filter: "distinct (map f xs) \<Longrightarrow> distinct (map f (filter P xs))"
  by (induction xs) auto

lemma map_if_id: "(\<And>x. x \<in> set xs \<Longrightarrow> P x \<Longrightarrow> g (f x) = g x) \<Longrightarrow>
    map g (map (\<lambda>x. if P x then f x else x) xs) = map g xs"
  by (induction xs) auto

end
