(* ===== verification/GoStrings.thy ===== *)
theory GoStrings
  imports Prelude "HOL-Library.Sublist" "HOL-Library.Char_ord" "HOL-Library.List_Lexorder"
begin

text \<open>
  The part of Go's strings, strconv and unicode packages that the program calls, on byte
  strings: a Go string is a sequence of bytes, and so is a HOL string, whose characters are
  the 256 byte values. Where Go works on code points, the code points that matter are written
  as their UTF-8 bytes: the Unicode spaces that TrimSpace removes, and the two letters outside
  ASCII (the Kelvin sign and the long s) that fold to an ASCII letter.
\<close>

section \<open>Bytes\<close>

definition is_digit :: "char \<Rightarrow> bool" where
  "is_digit c \<longleftrightarrow> CHR ''0'' \<le> c \<and> c \<le> CHR ''9''"

definition is_upper :: "char \<Rightarrow> bool" where
  "is_upper c \<longleftrightarrow> CHR ''A'' \<le> c \<and> c \<le> CHR ''Z''"

definition is_lower :: "char \<Rightarrow> bool" where
  "is_lower c \<longleftrightarrow> CHR ''a'' \<le> c \<and> c \<le> CHR ''z''"

definition digit_val :: "char \<Rightarrow> int" where
  "digit_val c = of_char c - 48"

definition lower_char :: "char \<Rightarrow> char" where
  "lower_char c = (if is_upper c then char_of (of_char c + 32 :: nat) else c)"

definition upper_char :: "char \<Rightarrow> char" where
  "upper_char c = (if is_lower c then char_of (of_char c - 32 :: nat) else c)"

lemma digit_val_range: "is_digit c \<Longrightarrow> 0 \<le> digit_val c \<and> digit_val c \<le> 9"
proof -
  assume "is_digit c"
  then have "of_char (CHR ''0'') \<le> (of_char c :: nat)" "(of_char c :: nat) \<le> of_char (CHR ''9'')"
    by (simp_all only: is_digit_def less_eq_char_def)
  then have "48 \<le> (of_char c :: nat)" "(of_char c :: nat) \<le> 57" by simp_all
  then have "48 \<le> int (of_char c)" "int (of_char c) \<le> 57" by linarith+
  then show ?thesis by (simp add: digit_val_def of_nat_of_char)
qed

section \<open>strings.ToLower, strings.EqualFold\<close>

text \<open>
  ToLower maps the ASCII capitals, the Kelvin sign (bytes E2 84 AA, to k) and the dotted
  capital I (bytes C4 B0, to i); every other code point it changes stays outside ASCII, where
  the program never looks, and its bytes are left as they are.
\<close>

fun to_lower :: "string \<Rightarrow> string" where
  "to_lower [] = []"
| "to_lower (c # s) =
     (if c = CHR 0xE2 \<and> prefix [CHR 0x84, CHR 0xAA] s then CHR ''k'' # to_lower (drop 2 s)
      else if c = CHR 0xC4 \<and> prefix [CHR 0xB0] s then CHR ''i'' # to_lower (drop 1 s)
      else lower_char c # to_lower s)"

text \<open>The simple case folding of EqualFold and of encoding/json's field names.\<close>

fun fold_case :: "string \<Rightarrow> string" where
  "fold_case [] = []"
| "fold_case (c # s) =
     (if c = CHR 0xE2 \<and> prefix [CHR 0x84, CHR 0xAA] s then CHR ''k'' # fold_case (drop 2 s)
      else if c = CHR 0xC5 \<and> prefix [CHR 0xBF] s then CHR ''s'' # fold_case (drop 1 s)
      else lower_char c # fold_case s)"

definition equal_fold :: "string \<Rightarrow> string \<Rightarrow> bool" where
  "equal_fold s t \<longleftrightarrow> fold_case s = fold_case t"

section \<open>strings.TrimSpace\<close>

definition space1 :: "char \<Rightarrow> bool" where
  "space1 c \<longleftrightarrow> (CHR 0x09 \<le> c \<and> c \<le> CHR 0x0D) \<or> c = CHR 0x20"

text \<open>U+0085 and U+00A0.\<close>

definition space2 :: "char \<Rightarrow> char \<Rightarrow> bool" where
  "space2 c d \<longleftrightarrow> c = CHR 0xC2 \<and> (d = CHR 0x85 \<or> d = CHR 0xA0)"

text \<open>U+1680, U+2000 to U+200A, U+2028, U+2029, U+202F, U+205F and U+3000.\<close>

definition space3 :: "char \<Rightarrow> char \<Rightarrow> char \<Rightarrow> bool" where
  "space3 c d e \<longleftrightarrow>
     (c = CHR 0xE1 \<and> d = CHR 0x9A \<and> e = CHR 0x80) \<or>
     (c = CHR 0xE2 \<and> d = CHR 0x80 \<and>
       ((CHR 0x80 \<le> e \<and> e \<le> CHR 0x8A) \<or> e = CHR 0xA8 \<or> e = CHR 0xA9 \<or> e = CHR 0xAF)) \<or>
     (c = CHR 0xE2 \<and> d = CHR 0x81 \<and> e = CHR 0x9F) \<or>
     (c = CHR 0xE3 \<and> d = CHR 0x80 \<and> e = CHR 0x80)"

fun trim_run :: "(char \<Rightarrow> char \<Rightarrow> bool) \<Rightarrow> (char \<Rightarrow> char \<Rightarrow> char \<Rightarrow> bool) \<Rightarrow> string \<Rightarrow> string" where
  "trim_run p2 p3 [] = []"
| "trim_run p2 p3 [c] = (if space1 c then [] else [c])"
| "trim_run p2 p3 [c, d] =
     (if space1 c then trim_run p2 p3 [d] else if p2 c d then [] else [c, d])"
| "trim_run p2 p3 (c # d # e # s) =
     (if space1 c then trim_run p2 p3 (d # e # s)
      else if p2 c d then trim_run p2 p3 (e # s)
      else if p3 c d e then trim_run p2 p3 s
      else c # d # e # s)"

definition trim_left :: "string \<Rightarrow> string" where
  "trim_left s = trim_run space2 space3 s"

definition trim_end :: "string \<Rightarrow> string" where
  "trim_end s = rev (trim_run (\<lambda>d c. space2 c d) (\<lambda>e d c. space3 c d e) (rev s))"

definition trim_space :: "string \<Rightarrow> string" where
  "trim_space s = trim_end (trim_left s)"

lemma suffix_trim_run: "suffix (trim_run p2 p3 s) s"
  by (induction p2 p3 s rule: trim_run.induct) (auto simp: suffix_ConsI)

lemma trim_space_sublist: "sublist (trim_space s) s"
proof -
  have "suffix (trim_left s) s"
    by (simp add: trim_left_def suffix_trim_run)
  moreover have "prefix (trim_end t) t" for t
    using suffix_trim_run [of "\<lambda>d c. space2 c d" "\<lambda>e d c. space3 c d e" "rev t"]
    by (simp add: trim_end_def suffix_to_prefix)
  ultimately show ?thesis
    unfolding trim_space_def
    by (meson prefix_imp_sublist sublist_order.order.trans suffix_imp_sublist)
qed

lemma length_trim_space: "length (trim_space s) \<le> length s"
  by (rule sublist_length_le) (rule trim_space_sublist)

section \<open>Searching, cutting and joining\<close>

definition has_prefix :: "string \<Rightarrow> string \<Rightarrow> bool" where
  "has_prefix s p \<longleftrightarrow> prefix p s"

definition trim_prefix :: "string \<Rightarrow> string \<Rightarrow> string" where
  "trim_prefix s p = (if prefix p s then drop (length p) s else s)"

definition trim_suffix :: "string \<Rightarrow> string \<Rightarrow> string" where
  "trim_suffix s p = (if suffix p s then take (length s - length p) s else s)"

fun contains :: "string \<Rightarrow> string \<Rightarrow> bool" where
  "contains [] p \<longleftrightarrow> p = []"
| "contains (c # s) p \<longleftrightarrow> prefix p (c # s) \<or> contains s p"

definition trim_right :: "string \<Rightarrow> char \<Rightarrow> string" where
  "trim_right s c = rev (dropWhile (\<lambda>d. d = c) (rev s))"

fun split_on :: "char \<Rightarrow> string \<Rightarrow> string list" where
  "split_on c [] = [[]]"
| "split_on c (d # s) =
     (if d = c then [] # split_on c s
      else (case split_on c s of [] \<Rightarrow> [[d]] | p # ps \<Rightarrow> (d # p) # ps))"

fun join :: "string \<Rightarrow> string list \<Rightarrow> string" where
  "join sep [] = []"
| "join sep [s] = s"
| "join sep (s # t # ts) = s @ sep @ join sep (t # ts)"

lemma contains_sublist: "contains s p \<longleftrightarrow> sublist p s"
  by (induction s p rule: contains.induct) (auto simp: sublist_Cons_right)

lemma split_on_nonempty [simp]: "split_on c s \<noteq> []"
  by (induction s) (auto split: list.splits)

lemma join_cons: "join sep (s # ts) = (if ts = [] then s else s @ sep @ join sep ts)"
  by (cases ts) auto

lemma join_split_on: "join [c] (split_on c s) = s"
proof (induction s)
  case Nil
  show ?case by simp
next
  case (Cons d s)
  obtain p ps where "split_on c s = p # ps" by (cases "split_on c s") auto
  with Cons show ?case by (auto simp: join_cons)
qed

lemma sublist_join: "s \<in> set ss \<Longrightarrow> sublist s (join sep ss)"
proof (induction ss)
  case Nil
  then show ?case by simp
next
  case (Cons t ts)
  from Cons.prems consider "s = t" | "s \<in> set ts" "ts \<noteq> []" by fastforce
  then show ?case
  proof cases
    case 1
    then show ?thesis by (simp add: join_cons sublist_appendI)
  next
    case 2
    then have "sublist s (join sep ts)" using Cons.IH by simp
    then show ?thesis
      using 2 by (auto simp: join_cons sublist_append)
  qed
qed

section \<open>strconv.Atoi, fmt verbs for integers\<close>

fun digits_val :: "int \<Rightarrow> string \<Rightarrow> int" where
  "digits_val n [] = n"
| "digits_val n (c # s) = digits_val (10 * n + digit_val c) s"

definition all_digits :: "string \<Rightarrow> bool" where
  "all_digits s \<longleftrightarrow> s \<noteq> [] \<and> list_all is_digit s"

text \<open>Atoi and ParseInt(s, 10, 64): an optional sign, then digits, within the int64 range.\<close>

definition atoi :: "string \<Rightarrow> int option" where
  "atoi s =
     (let (neg, ds) =
        (case s of
           [] \<Rightarrow> (False, [])
         | c # t \<Rightarrow> if c = CHR ''-'' then (True, t) else if c = CHR ''+'' then (False, t) else (False, s))
      in if all_digits ds
         then (let n = (if neg then - digits_val 0 ds else digits_val 0 ds)
               in if in_int64 n then Some n else None)
         else None)"

text \<open>The decimal digits of a number, padded with zeros to a width (the verb 0wd).\<close>

definition digit :: "int \<Rightarrow> char" where
  "digit n = char_of (48 + nat n)"

function dec :: "int \<Rightarrow> string" where
  "dec n = (if n < 10 then [digit n] else dec (n div 10) @ [digit (n mod 10)])"
  by pat_completeness auto
termination
  by (relation "measure nat") auto

declare dec.simps [simp del]

fun pad_dec :: "nat \<Rightarrow> int \<Rightarrow> string" where
  "pad_dec 0 n = []"
| "pad_dec (Suc w) n = pad_dec w (n div 10) @ [digit (n mod 10)]"

lemma of_char_digit: "0 \<le> n \<Longrightarrow> n \<le> 9 \<Longrightarrow> (of_char (digit n) :: nat) = 48 + nat n"
  by (simp add: digit_def)

lemma digit_val_digit: "0 \<le> n \<Longrightarrow> n \<le> 9 \<Longrightarrow> digit_val (digit n) = n \<and> is_digit (digit n)"
proof -
  assume n: "0 \<le> n" "n \<le> 9"
  then have "(of_char (digit n) :: nat) = 48 + nat n" by (rule of_char_digit)
  moreover from this n have "(of_char (digit n) :: int) = 48 + n"
    by (metis nat_0_le of_nat_add of_nat_numeral of_nat_of_char)
  ultimately show ?thesis using n by (simp add: digit_val_def is_digit_def less_eq_char_def)
qed

lemma digit_less: "0 \<le> m \<Longrightarrow> m < n \<Longrightarrow> n \<le> 9 \<Longrightarrow> digit m < digit n"
  by (simp add: less_char_def of_char_digit)

lemma digits_val_append: "digits_val k (s @ t) = digits_val (digits_val k s) t"
  by (induction s arbitrary: k) auto

lemma pad_dec_digits: "list_all is_digit (pad_dec w n)"
proof (induction w arbitrary: n)
  case 0
  show ?case by simp
next
  case (Suc w)
  have "is_digit (digit (n mod 10))" using digit_val_digit [of "n mod 10"] by simp
  with Suc show ?case by simp
qed

lemma digits_val_pad_dec: "0 \<le> n \<Longrightarrow> n < 10 ^ w \<Longrightarrow> digits_val 0 (pad_dec w n) = n"
proof (induction w arbitrary: n)
  case 0
  then show ?case by simp
next
  case (Suc w)
  then have "digits_val 0 (pad_dec w (n div 10)) = n div 10"
    by (intro Suc.IH) (auto simp: pos_imp_zdiv_nonneg_iff)
  moreover have "digit_val (digit (n mod 10)) = n mod 10" using digit_val_digit [of "n mod 10"] by simp
  ultimately show ?case by (simp add: digits_val_append)
qed

lemma length_pad_dec [simp]: "length (pad_dec w n) = w"
  by (induction w arbitrary: n) auto

section \<open>The order of byte strings\<close>

text \<open>The order of strings is that of their bytes, which is also SQLite's order of texts.\<close>

lemma append_less_append: "(xs :: string) < ys \<Longrightarrow> length xs = length ys \<Longrightarrow> xs @ us < ys @ vs"
proof (induction xs arbitrary: ys)
  case Nil
  then show ?case by simp
next
  case (Cons x xs)
  then obtain y ys' where "ys = y # ys'" by (cases ys) auto
  with Cons show ?case by auto
qed

lemma append_less_same [simp]: "(xs @ us < xs @ vs) = ((us :: string) < vs)"
  by (induction xs) auto

lemma pad_dec_less: "0 \<le> a \<Longrightarrow> a < b \<Longrightarrow> b < 10 ^ w \<Longrightarrow> pad_dec w a < pad_dec w b"
proof (induction w arbitrary: a b)
  case 0
  then show ?case by simp
next
  case (Suc w)
  consider "a div 10 < b div 10" | "a div 10 = b div 10" "a mod 10 < b mod 10"
    using Suc.prems(2) div_mult_mod_eq [of a 10] div_mult_mod_eq [of b 10] zdiv_mono1 [of a b 10]
    by linarith
  then show ?case
  proof cases
    case 1
    with Suc have "pad_dec w (a div 10) < pad_dec w (b div 10)" by simp
    then show ?thesis by (simp add: append_less_append)
  next
    case 2
    then have "digit (a mod 10) < digit (b mod 10)" by (intro digit_less) auto
    with 2 show ?thesis by simp
  qed
qed

lemma atoi_in_int64: "atoi s = Some n \<Longrightarrow> in_int64 n"
  by (auto simp: atoi_def Let_def split: prod.splits if_splits)

section \<open>Letters up to case\<close>

lemma is_upper_iff: "is_upper c \<longleftrightarrow> 65 \<le> (of_char c :: nat) \<and> of_char c \<le> (90 :: nat)"
  unfolding is_upper_def less_eq_char_def by simp

lemma is_lower_iff: "is_lower c \<longleftrightarrow> 97 \<le> (of_char c :: nat) \<and> of_char c \<le> (122 :: nat)"
  unfolding is_lower_def less_eq_char_def by simp

lemma of_char_lower: "(of_char (lower_char c) :: nat) = (if is_upper c then of_char c + 32 else of_char c)"
  by (simp add: lower_char_def is_upper_iff)

lemma of_char_upper: "(of_char (upper_char c) :: nat) = (if is_lower c then of_char c - 32 else of_char c)"
  by (auto simp: upper_char_def is_lower_iff intro!: mod_less)

lemma char_eqI: "(of_char c :: nat) = of_char d \<Longrightarrow> c = d"
  using of_char_eq_iff by blast

lemma lower_upper [simp]: "lower_char (upper_char c) = lower_char c"
  by (rule char_eqI) (auto simp: of_char_lower of_char_upper is_upper_iff is_lower_iff)

lemma lower_lower [simp]: "lower_char (lower_char c) = lower_char c"
  by (rule char_eqI) (auto simp: of_char_lower of_char_upper is_upper_iff is_lower_iff)

definition ascii :: "char \<Rightarrow> bool" where
  "ascii c \<longleftrightarrow> (of_char c :: nat) < 128"

lemma ascii_upper [simp]: "ascii (upper_char c) = ascii c"
  and ascii_lower [simp]: "ascii (lower_char c) = ascii c"
  by (auto simp: ascii_def of_char_lower of_char_upper is_upper_iff is_lower_iff)

lemma fold_case_ascii: "list_all ascii s \<Longrightarrow> fold_case s = map lower_char s"
  by (induction s) (auto simp: ascii_def)

end
