(* ===== verification/GoFloat.thy ===== *)
theory GoFloat
  imports GoStrings
begin

text \<open>
  Go's float64, as far as the program uses it: the value of a decimal literal, products, the
  conversion to an integer, and the shortest decimal form that encoding/json prints. A finite
  float64 is a sign, a mantissa and a binary exponent; every rounding is to the nearest
  representable value, ties to even, with 53 bits of mantissa and exponents from -1074 up.
\<close>

section \<open>Values and rounding\<close>

datatype f64 = F64 (f_neg: bool) (f_mant: int) (f_exp: int)

text \<open>The number of binary digits.\<close>

function bit_length :: "int \<Rightarrow> int" where
  "bit_length n = (if n \<le> 0 then 0 else 1 + bit_length (n div 2))"
  by pat_completeness auto
termination
  by (relation "measure nat") auto

declare bit_length.simps [simp del]

definition div_half_even :: "int \<Rightarrow> int \<Rightarrow> int" where
  "div_half_even a b =
     (let q = a div b; r = a mod b
      in if 2 * r < b then q else if b < 2 * r then q + 1 else if even q then q else q + 1)"

text \<open>A fraction divided by a power of two, as a fraction again.\<close>

definition scale2 :: "int \<Rightarrow> int \<Rightarrow> int \<Rightarrow> int \<times> int" where
  "scale2 a b e = (if 0 \<le> e then (a, b * 2 ^ nat e) else (a * 2 ^ nat (- e), b))"

definition round_exp :: "int \<Rightarrow> int \<Rightarrow> int" where
  "round_exp a b =
     (let e = bit_length a - bit_length b - 53;
          (n, d) = scale2 a b e
      in max (- 1074) (if n div d < 2 ^ 53 then e else e + 1))"

text \<open>The float64 nearest to \<open>a / b\<close>; None when it would not be finite.\<close>

definition round_f64 :: "bool \<Rightarrow> int \<Rightarrow> int \<Rightarrow> f64 option" where
  "round_f64 neg a b =
     (if a = 0 then Some (F64 neg 0 0)
      else (let e = round_exp a b; (n, d) = scale2 a b e; m = div_half_even n d
            in if 0 \<le> e \<and> 2 ^ 1024 \<le> m * 2 ^ nat e then None else Some (F64 neg m e)))"

text \<open>The magnitude as a fraction.\<close>

definition frac_of :: "f64 \<Rightarrow> int \<times> int" where
  "frac_of f = (if 0 \<le> f_exp f then (f_mant f * 2 ^ nat (f_exp f), 1)
                else (f_mant f, 2 ^ nat (- f_exp f)))"

definition same_value :: "f64 \<Rightarrow> f64 \<Rightarrow> bool" where
  "same_value f g \<longleftrightarrow>
     (let (a, b) = frac_of f; (c, d) = frac_of g in f_neg f = f_neg g \<and> a * d = c * b)"

definition mult_f64 :: "f64 \<Rightarrow> f64 \<Rightarrow> f64 option" where
  "mult_f64 f g =
     (let (a, b) = frac_of f; (c, d) = frac_of g
      in round_f64 (f_neg f \<noteq> f_neg g) (a * c) (b * d))"

text \<open>
  The conversion int64(f): the fraction is discarded; a value outside the int64 range, or an
  infinite product, gives the smallest int64, as the amd64 instruction does.
\<close>

definition trunc_f64 :: "f64 \<Rightarrow> int" where
  "trunc_f64 f = (let (a, b) = frac_of f in if f_neg f then - (a div b) else a div b)"

definition to_int64 :: "f64 option \<Rightarrow> int" where
  "to_int64 x =
     (case x of
        None \<Rightarrow> - (2 ^ 63)
      | Some f \<Rightarrow> if in_int64 (trunc_f64 f) then trunc_f64 f else - (2 ^ 63))"

lemma to_int64_range [simp]: "in_int64 (to_int64 x)"
  by (auto simp: to_int64_def in_int64_def split: option.split)

section \<open>Integers are exact\<close>

lemma bit_length_0 [simp]: "bit_length 0 = 0"
  by (simp add: bit_length.simps)

lemma bit_length_1 [simp]: "bit_length 1 = 1"
  by (subst bit_length.simps) simp

lemma bit_length_le: "n < 2 ^ k \<Longrightarrow> bit_length n \<le> int k"
proof (induction k arbitrary: n)
  case 0
  then show ?case by (subst bit_length.simps) auto
next
  case (Suc k)
  then have "bit_length (n div 2) \<le> int k" by simp
  then show ?case by (subst bit_length.simps) simp
qed

lemma div_half_even_exact: "0 < b \<Longrightarrow> div_half_even (a * b) b = a"
  by (simp add: div_half_even_def)

text \<open>Every natural number below two to the 53 is its own float64.\<close>

lemma round_exp_int: "n < 2 ^ 53 \<Longrightarrow> round_exp n 1 \<le> 0"
  using bit_length_le [of n 53] by (simp add: round_exp_def Let_def split: prod.split)

lemma round_f64_int:
  assumes "0 < n" and "n < 2 ^ 53"
  shows "\<exists>k. round_f64 neg n 1 = Some (F64 neg (n * 2 ^ k) (- int k))"
proof -
  define k where "k = nat (- round_exp n 1)"
  have e: "round_exp n 1 = - int k" using round_exp_int [OF assms(2)] by (simp add: k_def)
  have sc: "scale2 n 1 (- int k) = (n * 2 ^ k, 1)" by (simp add: scale2_def)
  have m: "div_half_even (n * 2 ^ k) 1 = n * 2 ^ k" by (simp add: div_half_even_def)
  have "n < 2 ^ 1024" using assms(2) by (rule less_le_trans) (rule power_increasing; simp)
  then have small: "\<not> (0 \<le> - int k \<and> 2 ^ 1024 \<le> n * 2 ^ k * 2 ^ nat (- int k))" by auto
  have "round_f64 neg n 1 = Some (F64 neg (n * 2 ^ k) (- int k))"
    unfolding round_f64_def e Let_def sc prod.case m using small assms(1) by (simp only: if_not_P if_False)
  then show ?thesis ..
qed

corollary to_int64_int:
  assumes "0 \<le> n" and "n < 2 ^ 53"
  shows "to_int64 (round_f64 neg n 1) = (if neg then - n else n)"
proof (cases "n = 0")
  case True
  then show ?thesis by (simp add: round_f64_def to_int64_def trunc_f64_def frac_of_def in_int64_def)
next
  case False
  with assms obtain k where k: "round_f64 neg n 1 = Some (F64 neg (n * 2 ^ k) (- int k))"
    using round_f64_int [of n neg] by force
  have "trunc_f64 (F64 neg (n * 2 ^ k) (- int k)) = (if neg then - n else n)"
    by (cases "k = 0") (simp_all add: trunc_f64_def frac_of_def)
  moreover have "in_int64 (if neg then - n else n)" using assms by (auto simp: in_int64_def)
  ultimately show ?thesis by (simp add: k to_int64_def)
qed

section \<open>Decimal literals\<close>

text \<open>
  \<open>decimal neg ds fs e\<close> is the literal with integer digits \<open>ds\<close>, fraction digits
  \<open>fs\<close> and decimal exponent \<open>e\<close>.
\<close>

definition decimal :: "bool \<Rightarrow> string \<Rightarrow> string \<Rightarrow> int \<Rightarrow> f64 option" where
  "decimal neg ds fs e =
     (let m = digits_val 0 (ds @ fs); x = e - int (length fs)
      in if 0 \<le> x then round_f64 neg (m * 10 ^ nat x) 1 else round_f64 neg m (10 ^ nat (- x)))"

text \<open>strconv.ParseFloat on digits with an optional fraction.\<close>

definition parse_float :: "string \<Rightarrow> f64 option" where
  "parse_float s =
     (let ds = takeWhile is_digit s; rest = drop (length ds) s
      in if ds = [] then None
         else (case rest of
                 [] \<Rightarrow> decimal False ds [] 0
               | c # fs \<Rightarrow> if c = CHR ''.'' \<and> list_all is_digit fs then decimal False ds fs 0 else None))"

section \<open>The shortest decimal form\<close>

text \<open>
  The decimal exponent \<open>p\<close> of a positive fraction: its value lies in
  \<open>[10 ^ (p - 1), 10 ^ p)\<close>. The search for the leading zeros of a fraction below one stops
  within 400 places, since float64 has no positive value below \<open>10 ^ (-324)\<close>.
\<close>

fun lead_zeros :: "nat \<Rightarrow> int \<Rightarrow> int \<Rightarrow> int" where
  "lead_zeros 0 a b = 0"
| "lead_zeros (Suc k) a b = (if b \<le> a then 1 else lead_zeros k (10 * a) b - 1)"

definition dec_exp :: "int \<Rightarrow> int \<Rightarrow> int" where
  "dec_exp a b = (if b \<le> a then int (length (dec (a div b))) else lead_zeros 400 a b)"

definition scale10 :: "int \<Rightarrow> int \<Rightarrow> int \<Rightarrow> int \<times> int" where
  "scale10 a b e = (if 0 \<le> e then (a * 10 ^ nat e, b) else (a, b * 10 ^ nat (- e)))"

text \<open>The candidates with \<open>k\<close> digits, the nearer first; the first that reads back is taken.\<close>

definition short_try :: "f64 \<Rightarrow> int \<Rightarrow> nat \<Rightarrow> int option" where
  "short_try f p k =
     (let (a, b) = frac_of f; (n, d) = scale10 a b (int k - p);
          near = div_half_even n d; far = (if near = n div d then near + 1 else n div d);
          ok = (\<lambda>m. let (c, g) = scale10 m 1 (p - int k)
                    in case round_f64 (f_neg f) c g of None \<Rightarrow> False | Some h \<Rightarrow> same_value h f)
      in if ok near then Some near else if ok far then Some far else None)"

fun short_digits :: "f64 \<Rightarrow> int \<Rightarrow> nat list \<Rightarrow> int \<times> nat" where
  "short_digits f p [] = (0, 0)"
| "short_digits f p (k # ks) =
     (case short_try f p k of Some m \<Rightarrow> (m, k) | None \<Rightarrow> short_digits f p ks)"

fun drop_zeros :: "string \<Rightarrow> string" where
  "drop_zeros s = rev (dropWhile (\<lambda>c. c = CHR ''0'') (rev s))"

text \<open>
  The text of encoding/json's floatEncoder: plain notation between 1e-6 and 1e21, otherwise
  scientific with an exponent of no leading zero.
\<close>

definition format_f64 :: "f64 \<Rightarrow> string" where
  "format_f64 f =
     (let sign = (if f_neg f then ''-'' else [])
      in if f_mant f = 0 then sign @ ''0''
         else
           (let (a, b) = frac_of f; p0 = dec_exp a b;
                (m, k) = short_digits f p0 [1..<18];
                digs = dec m;
                p = (if length digs = Suc k then p0 + 1 else p0);
                ds = drop_zeros digs
            in if a * 10 ^ 6 < b \<or> b * 10 ^ 21 \<le> a
               then sign @ take 1 ds @ (if length ds = 1 then [] else CHR ''.'' # drop 1 ds)
                      @ ''e'' @ (if p - 1 < 0 then ''-'' else ''+'') @ dec \<bar>p - 1\<bar>
               else if p \<le> 0 then sign @ ''0.'' @ replicate (nat (- p)) (CHR ''0'') @ ds
               else if int (length ds) \<le> p then sign @ ds @ replicate (nat p - length ds) (CHR ''0'')
               else sign @ take (nat p) ds @ ''.'' @ drop (nat p) ds))"

end
