(* ===== verification/GoJson.thy ===== *)
theory GoJson
  imports GoFloat "HOL-Library.List_Lexorder"
begin

text \<open>
  Go's encoding/json for the ways the program uses it: decoding into an interface value, into
  a map and into a small struct, and encoding a decoded value. A decoded document keeps its
  numbers as literals and its object members in source order, so that every way of decoding it
  can be derived from the one syntax tree.
\<close>

section \<open>Syntax trees\<close>

datatype json =
    JNull
  | JBool bool
  | JNum string
  | JStr string
  | JArr "json list"
  | JObj "(string \<times> json) list"

text \<open>The bytes of quotation mark, backslash and the other structural characters.\<close>

definition json_ws :: "char \<Rightarrow> bool" where
  "json_ws c \<longleftrightarrow> c = CHR 0x20 \<or> c = CHR 0x09 \<or> c = CHR 0x0A \<or> c = CHR 0x0D"

definition skip_ws :: "string \<Rightarrow> string" where
  "skip_ws s = dropWhile json_ws s"

definition dquote :: char where
  "dquote = CHR 0x22"

definition backslash :: char where
  "backslash = CHR 0x5C"

section \<open>UTF-8\<close>

definition cont :: "char \<Rightarrow> bool" where
  "cont c \<longleftrightarrow> CHR 0x80 \<le> c \<and> c \<le> CHR 0xBF"

text \<open>The length of the well-formed UTF-8 sequence at the start of \<open>c # s\<close>, 0 if there is none.\<close>

definition utf8_len :: "char \<Rightarrow> string \<Rightarrow> nat" where
  "utf8_len c s =
     (if c < CHR 0x80 then 1
      else case s of
        [] \<Rightarrow> 0
      | d # s2 \<Rightarrow>
          if CHR 0xC2 \<le> c \<and> c \<le> CHR 0xDF then (if cont d then 2 else 0)
          else case s2 of
            [] \<Rightarrow> 0
          | e # s3 \<Rightarrow>
              if CHR 0xE0 \<le> c \<and> c \<le> CHR 0xEF then
                (if cont d \<and> cont e \<and> (c = CHR 0xE0 \<longrightarrow> CHR 0xA0 \<le> d) \<and> (c = CHR 0xED \<longrightarrow> d \<le> CHR 0x9F)
                 then 3 else 0)
              else case s3 of
                [] \<Rightarrow> 0
              | f # s4 \<Rightarrow>
                  if CHR 0xF0 \<le> c \<and> c \<le> CHR 0xF4 \<and> cont d \<and> cont e \<and> cont f \<and>
                     (c = CHR 0xF0 \<longrightarrow> CHR 0x90 \<le> d) \<and> (c = CHR 0xF4 \<longrightarrow> d \<le> CHR 0x8F)
                  then 4 else 0)"

definition utf8_bad :: string where
  "utf8_bad = [CHR 0xEF, CHR 0xBF, CHR 0xBD]"

definition byte :: "int \<Rightarrow> char" where
  "byte n = char_of (nat n)"

text \<open>The UTF-8 bytes of a code point.\<close>

definition utf8_enc :: "int \<Rightarrow> string" where
  "utf8_enc n =
     (if n < 128 then [byte n]
      else if n < 2048 then [byte (192 + n div 64), byte (128 + n mod 64)]
      else if n < 65536 then
        [byte (224 + n div 4096), byte (128 + n div 64 mod 64), byte (128 + n mod 64)]
      else [byte (240 + n div 262144), byte (128 + n div 4096 mod 64),
            byte (128 + n div 64 mod 64), byte (128 + n mod 64)])"

text \<open>The number of code points of a byte string, each invalid byte counting as one.\<close>

fun rune_count :: "string \<Rightarrow> nat" where
  "rune_count [] = 0"
| "rune_count (c # s) = Suc (rune_count (drop (utf8_len c s - 1) s))"

section \<open>Strings and numbers\<close>

definition hex_val :: "char \<Rightarrow> int option" where
  "hex_val c =
     (if is_digit c then Some (digit_val c)
      else if CHR ''a'' \<le> c \<and> c \<le> CHR ''f'' then Some (of_char c - 87)
      else if CHR ''A'' \<le> c \<and> c \<le> CHR ''F'' then Some (of_char c - 55)
      else None)"

fun hex_digits :: "nat \<Rightarrow> int \<Rightarrow> string \<Rightarrow> int option" where
  "hex_digits 0 n s = Some n"
| "hex_digits (Suc k) n [] = None"
| "hex_digits (Suc k) n (c # s) =
     (case hex_val c of None \<Rightarrow> None | Some d \<Rightarrow> hex_digits k (16 * n + d) s)"

definition escape_val :: "char \<Rightarrow> char option" where
  "escape_val c =
     map_of [(dquote, dquote), (backslash, backslash), (CHR ''/'', CHR ''/''), (CHR ''b'', CHR 0x08),
             (CHR ''f'', CHR 0x0C), (CHR ''n'', CHR 0x0A), (CHR ''r'', CHR 0x0D), (CHR ''t'', CHR 0x09)] c"

text \<open>
  The code point of an escape u and what follows it: a high surrogate followed by the escape of
  a low one is one code point, any other surrogate becomes U+FFFD.
\<close>

definition unicode_escape :: "string \<Rightarrow> (int \<times> string) option" where
  "unicode_escape s =
     (case hex_digits 4 0 s of
        None \<Rightarrow> None
      | Some u \<Rightarrow>
          let t = drop 4 s in
          if u < 0xD800 \<or> 0xDFFF < u then Some (u, t)
          else if u < 0xDC00 \<and> prefix [backslash, CHR ''u''] t then
            (case hex_digits 4 0 (drop 2 t) of
               None \<Rightarrow> None
             | Some v \<Rightarrow>
                 if 0xDC00 \<le> v \<and> v \<le> 0xDFFF
                 then Some (0x10000 + (u - 0xD800) * 0x400 + (v - 0xDC00), drop 6 t)
                 else Some (0xFFFD, t))
          else Some (0xFFFD, t))"

lemma unicode_escape_shorter:
  "unicode_escape s = Some (u, t) \<Longrightarrow> length t \<le> length s"
  by (auto simp: unicode_escape_def Let_def split: option.splits if_splits)

text \<open>The content of a string literal, after its opening quote, and the text after it.\<close>

function parse_str :: "string \<Rightarrow> (string \<times> string) option" where
  "parse_str s =
     (case s of
        [] \<Rightarrow> None
      | c # s' \<Rightarrow>
          if c = dquote then Some ([], s')
          else if c < CHR 0x20 then None
          else if c = backslash then
            (case s' of
               [] \<Rightarrow> None
             | e # t \<Rightarrow>
                 if e = CHR ''u'' then
                   (case unicode_escape t of
                      None \<Rightarrow> None
                    | Some (u, t') \<Rightarrow> map_option (map_prod ((@) (utf8_enc u)) id) (parse_str t'))
                 else
                   (case escape_val e of
                      None \<Rightarrow> None
                    | Some x \<Rightarrow> map_option (map_prod ((#) x) id) (parse_str t)))
          else
            (let n = utf8_len c s' in
             map_option (map_prod ((@) (if n = 0 then utf8_bad else c # take (n - 1) s')) id)
               (parse_str (drop (n - 1) s'))))"
  by pat_completeness auto
termination
  by (relation "measure length") (auto dest: unicode_escape_shorter)

declare parse_str.simps [simp del]

text \<open>A number literal: the literal and the text after it.\<close>

definition parse_num :: "string \<Rightarrow> (string \<times> string) option" where
  "parse_num s =
     (let (sign, s1) = (case s of c # t \<Rightarrow> if c = CHR ''-'' then ([c], t) else ([], s) | [] \<Rightarrow> ([], s));
          ip = (case s1 of c # t \<Rightarrow> if c = CHR ''0'' then [c] else takeWhile is_digit s1 | [] \<Rightarrow> []);
          s2 = drop (length ip) s1;
          fp = (case s2 of
                  c # t \<Rightarrow> if c = CHR ''.'' then c # takeWhile is_digit t else []
                | [] \<Rightarrow> []);
          s3 = drop (length fp) s2;
          ep = (case s3 of
                  c # t \<Rightarrow>
                    if c = CHR ''e'' \<or> c = CHR ''E'' then
                      (case t of
                         d # u \<Rightarrow> if d = CHR ''+'' \<or> d = CHR ''-'' then c # d # takeWhile is_digit u
                                  else c # takeWhile is_digit t
                       | [] \<Rightarrow> [c])
                    else []
                | [] \<Rightarrow> []);
          s4 = drop (length ep) s3
      in if ip = [] \<or> length fp = 1 \<or> (ep \<noteq> [] \<and> \<not> is_digit (last ep)) then None
         else Some (sign @ ip @ fp @ ep, s4))"

text \<open>The float64 of a literal; None when it is out of range, which Unmarshal reports.\<close>

definition num_f64 :: "string \<Rightarrow> f64 option" where
  "num_f64 lit =
     (let neg = prefix ''-'' lit; s = (if neg then drop 1 lit else lit);
          ip = takeWhile is_digit s; s1 = drop (length ip) s;
          fp = (if prefix ''.'' s1 then takeWhile is_digit (drop 1 s1) else []);
          s2 = (if prefix ''.'' s1 then drop (Suc (length fp)) s1 else s1);
          e = (case s2 of
                 [] \<Rightarrow> 0
               | _ # t \<Rightarrow> if prefix ''-'' t then - digits_val 0 (drop 1 t)
                          else digits_val 0 (if prefix ''+'' t then drop 1 t else t))
      in decimal neg ip fp e)"

section \<open>The parser\<close>

text \<open>
  Recursive descent with two counters: fuel, one unit per value, element and member (more units
  than the text has bytes are always enough), and the nesting that is still allowed, of which
  encoding/json grants 10000 levels.
\<close>

fun parse_value :: "nat \<Rightarrow> nat \<Rightarrow> string \<Rightarrow> (json \<times> string) option"
  and parse_elems :: "nat \<Rightarrow> nat \<Rightarrow> string \<Rightarrow> (json list \<times> string) option"
  and parse_members :: "nat \<Rightarrow> nat \<Rightarrow> string \<Rightarrow> ((string \<times> json) list \<times> string) option" where
  "parse_value 0 d s = None"
| "parse_value (Suc n) d s =
     (case skip_ws s of
        [] \<Rightarrow> None
      | c # t \<Rightarrow>
          if c = dquote then map_option (map_prod JStr id) (parse_str t)
          else if c = CHR ''['' then
            (if d = 0 then None
             else if prefix [CHR '']''] (skip_ws t) then Some (JArr [], drop 1 (skip_ws t))
             else map_option (map_prod JArr id) (parse_elems n (d - 1) t))
          else if c = CHR 0x7B then
            (if d = 0 then None
             else if prefix [CHR 0x7D] (skip_ws t) then Some (JObj [], drop 1 (skip_ws t))
             else map_option (map_prod JObj id) (parse_members n (d - 1) t))
          else if prefix ''null'' (c # t) then Some (JNull, drop 3 t)
          else if prefix ''true'' (c # t) then Some (JBool True, drop 3 t)
          else if prefix ''false'' (c # t) then Some (JBool False, drop 4 t)
          else map_option (map_prod JNum id) (parse_num (c # t)))"
| "parse_elems 0 d s = None"
| "parse_elems (Suc n) d s =
     (case parse_value n d s of
        None \<Rightarrow> None
      | Some (v, t) \<Rightarrow>
          (case skip_ws t of
             [] \<Rightarrow> None
           | c # u \<Rightarrow>
               if c = CHR '']'' then Some ([v], u)
               else if c = CHR '','' then map_option (map_prod ((#) v) id) (parse_elems n d u)
               else None))"
| "parse_members 0 d s = None"
| "parse_members (Suc n) d s =
     (case skip_ws s of
        [] \<Rightarrow> None
      | q # t \<Rightarrow>
          if q \<noteq> dquote then None
          else case parse_str t of
            None \<Rightarrow> None
          | Some (k, t2) \<Rightarrow>
              if \<not> prefix '':'' (skip_ws t2) then None
              else case parse_value n d (drop 1 (skip_ws t2)) of
                None \<Rightarrow> None
              | Some (v, t3) \<Rightarrow>
                  (case skip_ws t3 of
                     [] \<Rightarrow> None
                   | c # u \<Rightarrow>
                       if c = CHR 0x7D then Some ([(k, v)], u)
                       else if c = CHR '','' then map_option (map_prod ((#) (k, v)) id) (parse_members n d u)
                       else None))"

definition max_depth :: nat where
  "max_depth = 10000"

definition parse_json :: "string \<Rightarrow> json option" where
  "parse_json s =
     (case parse_value (Suc (length s)) max_depth s of
        Some (v, t) \<Rightarrow> if skip_ws t = [] then Some v else None
      | None \<Rightarrow> None)"

section \<open>Decoded values\<close>

text \<open>The members of a decoded map: of members with one name the last one counts.\<close>

definition obj_get :: "(string \<times> 'v) list \<Rightarrow> string \<Rightarrow> 'v option" where
  "obj_get kvs k = map_of (rev kvs) k"

text \<open>The members of a decoded map, one per name.\<close>

fun obj_items :: "(string \<times> 'v) list \<Rightarrow> (string \<times> 'v) list" where
  "obj_items [] = []"
| "obj_items ((k, v) # kvs) =
     (if k \<in> fst ` set kvs then obj_items kvs else (k, v) # obj_items kvs)"

definition as_obj :: "json \<Rightarrow> (string \<times> json) list option" where
  "as_obj v = (case v of JObj kvs \<Rightarrow> Some kvs | _ \<Rightarrow> None)"

text \<open>Decoding numbers into float64 fails when one is out of range.\<close>

fun nums_ok :: "json \<Rightarrow> bool" where
  "nums_ok (JNum lit) \<longleftrightarrow> num_f64 lit \<noteq> None"
| "nums_ok (JArr vs) \<longleftrightarrow> list_all nums_ok vs"
| "nums_ok (JObj kvs) \<longleftrightarrow> list_all (\<lambda>kv. nums_ok (snd kv)) kvs"
| "nums_ok v \<longleftrightarrow> True"

definition unmarshal_any :: "string \<Rightarrow> json option" where
  "unmarshal_any s =
     (case parse_json s of Some v \<Rightarrow> if nums_ok v then Some v else None | None \<Rightarrow> None)"

text \<open>Into a map: null gives the nil map, which has no members.\<close>

definition unmarshal_map :: "string \<Rightarrow> (string \<times> json) list option" where
  "unmarshal_map s =
     (case unmarshal_any s of
        Some (JObj kvs) \<Rightarrow> Some kvs
      | Some JNull \<Rightarrow> Some []
      | _ \<Rightarrow> None)"

lemma obj_get_None: "obj_get kvs k = None \<longleftrightarrow> k \<notin> fst ` set kvs"
  by (simp add: obj_get_def map_of_eq_None_iff)

lemma obj_get_Cons:
  "obj_get (kv # kvs) k =
     (case obj_get kvs k of Some v \<Rightarrow> Some v | None \<Rightarrow> if fst kv = k then Some (snd kv) else None)"
  by (cases kv) (auto simp: obj_get_def map_add_def split: option.split)

lemma obj_get_Nil [simp]: "obj_get [] k = None"
  by (simp add: obj_get_def)

lemma obj_get_items: "map_of (obj_items kvs) k = obj_get kvs k"
proof (induction kvs)
  case Nil
  show ?case by simp
next
  case (Cons kv kvs)
  show ?case
  proof (cases "fst kv \<in> fst ` set kvs")
    case True
    then have "obj_get kvs (fst kv) \<noteq> None" using obj_get_None by blast
    with True Cons show ?thesis by (cases kv) (auto simp: obj_get_Cons split: option.split)
  next
    case False
    then have "obj_get kvs (fst kv) = None" using obj_get_None by blast
    with False Cons show ?thesis by (cases kv) (auto simp: obj_get_Cons split: option.split)
  qed
qed

lemma distinct_obj_items: "distinct (map fst (obj_items kvs))"
proof -
  have "fst ` set (obj_items kvs) \<subseteq> fst ` set kvs" for kvs :: "(string \<times> 'v) list"
    by (induction kvs rule: obj_items.induct) auto
  then show ?thesis
    by (induction kvs rule: obj_items.induct) auto
qed

section \<open>Encoding\<close>

definition hex_digit :: "int \<Rightarrow> char" where
  "hex_digit n = (if n < 10 then digit n else char_of (87 + nat n))"

text \<open>
  Marshal's escapes, with those for HTML and for the line separators U+2028 and U+2029; an
  invalid byte is written as the escape of U+FFFD.
\<close>

definition escape_char :: "char \<Rightarrow> string" where
  "escape_char c =
     (if c = dquote \<or> c = backslash then [backslash, c]
      else if c = CHR 0x08 then [backslash, CHR ''b'']
      else if c = CHR 0x0C then [backslash, CHR ''f'']
      else if c = CHR 0x0A then [backslash, CHR ''n'']
      else if c = CHR 0x0D then [backslash, CHR ''r'']
      else if c = CHR 0x09 then [backslash, CHR ''t'']
      else if c < CHR 0x20 \<or> c = CHR ''<'' \<or> c = CHR ''>'' \<or> c = CHR ''&''
      then backslash # ''u00'' @ [hex_digit (of_char c div 16), hex_digit (of_char c mod 16)]
      else [c])"

fun escape_str :: "string \<Rightarrow> string" where
  "escape_str [] = []"
| "escape_str (c # s) =
     (if utf8_len c s = 0 then backslash # ''ufffd'' @ escape_str s
      else if c = CHR 0xE2 \<and> prefix [CHR 0x80, CHR 0xA8] s then backslash # ''u2028'' @ escape_str (drop 2 s)
      else if c = CHR 0xE2 \<and> prefix [CHR 0x80, CHR 0xA9] s then backslash # ''u2029'' @ escape_str (drop 2 s)
      else if c < CHR 0x80 then escape_char c @ escape_str s
      else c # take (utf8_len c s - 1) s @ escape_str (drop (utf8_len c s - 1) s))"

definition quote :: "string \<Rightarrow> string" where
  "quote s = dquote # escape_str s @ [dquote]"

text \<open>Marshal of a decoded value: numbers are float64, the members of a map sorted by name.\<close>

fun marshal :: "json \<Rightarrow> string" where
  "marshal JNull = ''null''"
| "marshal (JBool b) = (if b then ''true'' else ''false'')"
| "marshal (JNum lit) = (case num_f64 lit of Some f \<Rightarrow> format_f64 f | None \<Rightarrow> ''null'')"
| "marshal (JStr s) = quote s"
| "marshal (JArr vs) = ''['' @ join '','' (map marshal vs) @ '']''"
| "marshal (JObj kvs) =
     [CHR 0x7B]
     @ join '','' (map (\<lambda>(k, t). quote k @ '':'' @ t)
         (sort_key fst (obj_items (map (\<lambda>kv. (fst kv, marshal (snd kv))) kvs))))
     @ [CHR 0x7D]"

end
