(* ===== verification/GoJsonFuel.thy ===== *)
theory GoJsonFuel
  imports GoJson
begin

text \<open>
  The fuel of the JSON parser is no limit: a value that any amount of fuel finds is found with one
  unit for each of its bytes.
\<close>

lemma skip_ws_length: "length (skip_ws s) \<le> length s"
  by (simp add: skip_ws_def length_dropWhile_le)

lemma parse_str_shorter: "parse_str s = Some (x, t) \<Longrightarrow> length t < length s"
proof (induction s arbitrary: x t rule: measure_induct_rule [where f = length])
  case (less s)
  have shorter: "length t' < length r" if "parse_str r = Some (y, t')" "length r < length s" for r y t'
    using less.IH [OF that(2,1)] .
  from less.prems show ?case
    by (subst (asm) parse_str.simps)
      (auto simp: Let_def split: list.splits if_splits option.splits dest: shorter [rotated] dest!: shorter unicode_escape_shorter)
qed

lemma parse_num_shorter:
  assumes "parse_num s = Some (x, t)" shows "length t < length s"
proof -
  let ?split = "case s of c # t \<Rightarrow> if c = CHR ''-'' then ([c], t) else ([], s) | [] \<Rightarrow> ([], s)"
  obtain sign s1 where p: "?split = (sign, s1)" by (cases ?split)
  have "length (snd ?split) \<le> length s" by (simp split: list.split)
  with p have "length s1 \<le> length s" by simp
  define ip where "ip = (case s1 of c # t \<Rightarrow> if c = CHR ''0'' then [c] else takeWhile is_digit s1 | [] \<Rightarrow> [])"
  from assms have "ip \<noteq> [] \<and> (\<exists>l m. t = drop l (drop m (drop (length ip) s1)))"
    unfolding parse_num_def p Let_def prod.case ip_def [symmetric] by (auto simp del: drop_drop split: if_splits)
  moreover have "ip \<noteq> [] \<Longrightarrow> s1 \<noteq> []" by (auto simp: ip_def)
  ultimately show ?thesis using \<open>length s1 \<le> length s\<close> by (cases ip; cases s1) auto
qed

text \<open>A result that consumed the text up to \<open>t\<close>, found with any fuel of at least the bytes consumed.\<close>

definition settled :: "(nat \<Rightarrow> ('a \<times> string) option) \<Rightarrow> string \<Rightarrow> 'a \<Rightarrow> string \<Rightarrow> bool" where
  "settled p s v t \<longleftrightarrow> length t < length s \<and> (\<forall>m. length s - length t \<le> m \<longrightarrow> p m = Some (v, t))"

lemma settledD:
  "settled p s v t \<Longrightarrow> length t < length s" "settled p s v t \<Longrightarrow> length s - length t \<le> m \<Longrightarrow> p m = Some (v, t)"
  by (simp_all add: settled_def)

lemma settledI:
  assumes "length t < length s" "\<And>k. length s - length t \<le> Suc k \<Longrightarrow> p (Suc k) = Some (v, t)"
  shows "settled p s v t"
  unfolding settled_def
proof (intro conjI allI impI)
  fix m assume "length s - length t \<le> m"
  with assms show "p m = Some (v, t)" by (cases m) auto
qed (rule assms(1))

lemma parse_settled:
  "parse_value n d s = Some (v, t) \<Longrightarrow> settled (\<lambda>m. parse_value m d s) s v t"
  "parse_elems n d s = Some (vs, t) \<Longrightarrow> settled (\<lambda>m. parse_elems m d s) s vs t"
  "parse_members n d s = Some (ms, t) \<Longrightarrow> settled (\<lambda>m. parse_members m d s) s ms t"
proof (induction n d s and n d s and n d s arbitrary: v t and vs t and ms t rule: parse_value_parse_elems_parse_members.induct)
  case (2 n d s)
  obtain c u where cu: "skip_ws s = c # u" using 2(3) by (auto split: list.splits)
  then have len: "Suc (length u) \<le> length s" using skip_ws_length [of s] by simp
  note run = 2(3) [unfolded parse_value.simps cu list.case]
  consider "c = dquote" | "c = CHR ''['' \<and> \<not> prefix [CHR '']''] (skip_ws u)" | "c = CHR 0x7B \<and> \<not> prefix [CHR 0x7D] (skip_ws u)"
    | "c \<noteq> dquote \<and> (c = CHR ''['' \<longrightarrow> prefix [CHR '']''] (skip_ws u)) \<and> (c = CHR 0x7B \<longrightarrow> prefix [CHR 0x7D] (skip_ws u))"
    by blast
  then show ?case
  proof cases
    case 1
    with run obtain x where x: "parse_str u = Some (x, t)" "v = JStr x" by auto
    from parse_str_shorter [OF x(1)] len have "length t < length s" by simp
    with x cu 1 show ?thesis by (auto intro: settledI)
  next
    case a: 2
    with run obtain vs where x: "parse_elems n (d - 1) u = Some (vs, t)" "v = JArr vs" "d \<noteq> 0" by (auto simp: dquote_def split: if_splits)
    have "settled (\<lambda>m. parse_elems m (d - 1) u) u vs t" using a x by (intro 2(1)) (auto simp: cu dquote_def)
    note i = settledD [OF this]
    show ?thesis
    proof (rule settledI)
      show "length t < length s" using i(1) len by simp
      fix k assume "length s - length t \<le> Suc k"
      with len have "length u - length t \<le> k" by simp
      with i(2) a x cu show "parse_value (Suc k) d s = Some (v, t)" by (simp add: dquote_def)
    qed
  next
    case o: 3
    with run obtain ms where x: "parse_members n (d - 1) u = Some (ms, t)" "v = JObj ms" "d \<noteq> 0" by (auto simp: dquote_def split: if_splits)
    have "settled (\<lambda>m. parse_members m (d - 1) u) u ms t" using o x by (intro 2(2)) (auto simp: cu dquote_def)
    note i = settledD [OF this]
    show ?thesis
    proof (rule settledI)
      show "length t < length s" using i(1) len by simp
      fix k assume "length s - length t \<le> Suc k"
      with len have "length u - length t \<le> k" by simp
      with i(2) o x cu show "parse_value (Suc k) d s = Some (v, t)" by (simp add: dquote_def)
    qed
  next
    case f: 4
    then have "parse_value (Suc k) d s = parse_value (Suc n) d s" for k by (auto simp: cu)
    with 2(3) have same: "parse_value (Suc k) d s = Some (v, t)" for k by (simp only:)
    have "length t \<le> length u"
      using run f skip_ws_length [of u] parse_num_shorter [of "c # u" _ t] by (auto split: if_splits)
    with len same show ?thesis by (intro settledI) auto
  qed
next
  case (4 n d s)
  obtain x r where x: "parse_value n d s = Some (x, r)" using 4(3) by (auto split: option.splits)
  note i = settledD [OF 4(1) [OF x]]
  obtain c u where cu: "skip_ws r = c # u" using 4(3) x by (auto split: list.splits)
  then have len: "Suc (length u) \<le> length r" using skip_ws_length [of r] by simp
  note run = 4(3) [unfolded parse_elems.simps x option.case prod.case cu list.case]
  show ?case
  proof (cases "c = CHR '']''")
    case True
    with run have r: "t = u" "vs = [x]" by auto
    show ?thesis
    proof (rule settledI)
      show "length t < length s" using i(1) len r by simp
      fix k assume "length s - length t \<le> Suc k"
      with len r have "length s - length r \<le> k" by simp
      with i(2) cu r True show "parse_elems (Suc k) d s = Some (vs, t)" by simp
    qed
  next
    case False
    with run obtain ws where w: "c = CHR '',''" "parse_elems n d u = Some (ws, t)" "vs = x # ws" by (auto split: if_splits)
    have "settled (\<lambda>m. parse_elems m d u) u ws t" using x w False by (intro 4(2)) (auto simp: cu)
    note j = settledD [OF this]
    show ?thesis
    proof (rule settledI)
      show "length t < length s" using i(1) j(1) len by simp
      fix k assume "length s - length t \<le> Suc k"
      with len i(1) j(1) have "length s - length r \<le> k" "length u - length t \<le> k" by simp_all
      with i(2) j(2) cu w False show "parse_elems (Suc k) d s = Some (vs, t)" by simp
    qed
  qed
next
  case (6 n d s)
  obtain q u where q: "skip_ws s = q # u" "q = dquote" using 6(3) by (auto split: list.splits if_splits)
  obtain k0 r where k0: "parse_str u = Some (k0, r)" using 6(3) q by (auto split: option.splits)
  have colon: "prefix '':'' (skip_ws r)" using 6(3) q k0 by (auto split: if_splits)
  define r1 where "r1 = drop 1 (skip_ws r)"
  obtain x r2 where x: "parse_value n d r1 = Some (x, r2)" using 6(3) q k0 colon by (auto simp: r1_def split: option.splits)
  have len: "Suc (length r1) < length s"
    using parse_str_shorter [OF k0] skip_ws_length [of s] skip_ws_length [of r] colon q(1) by (auto simp: r1_def prefix_def)
  have "settled (\<lambda>m. parse_value m d r1) r1 x r2" unfolding r1_def
    by (rule 6(1) [OF q(1) _ k0 refl]) (use x q colon in \<open>simp_all add: r1_def\<close>)
  note i = settledD [OF this]
  obtain c w where cw: "skip_ws r2 = c # w" using 6(3) x q k0 colon by (auto simp: r1_def split: list.splits)
  then have len2: "Suc (length w) \<le> length r2" using skip_ws_length [of r2] by simp
  have step: "parse_members (Suc k) d s = (case parse_value k d r1 of None \<Rightarrow> None | Some (v, t3) \<Rightarrow>
      (case skip_ws t3 of [] \<Rightarrow> None
       | c # u \<Rightarrow> if c = CHR 0x7D then Some ([(k0, v)], u)
           else if c = CHR '','' then map_option (map_prod ((#) (k0, v)) id) (parse_members k d u) else None))" for k
    using q k0 colon by (simp add: r1_def)
  show ?case
  proof (cases "c = CHR 0x7D")
    case True
    with 6(3) x cw have r: "t = w" "ms = [(k0, x)]" unfolding step by auto
    show ?thesis
    proof (rule settledI)
      show "length t < length s" using i(1) len len2 r by simp
      fix k assume "length s - length t \<le> Suc k"
      with len len2 r have "length r1 - length r2 \<le> k" by simp
      with i(2) cw r True show "parse_members (Suc k) d s = Some (ms, t)" unfolding step by simp
    qed
  next
    case False
    with 6(3) x cw obtain ns where w: "c = CHR '',''" "parse_members n d w = Some (ns, t)" "ms = (k0, x) # ns"
      unfolding step by (auto split: if_splits)
    have "settled (\<lambda>m. parse_members m d w) w ns t"
      by (rule 6(2) [OF q(1) _ k0 refl _ _ refl cw]) (use x w False q colon in \<open>simp_all add: r1_def\<close>)
    note j = settledD [OF this]
    show ?thesis
    proof (rule settledI)
      show "length t < length s" using i(1) j(1) len len2 by simp
      fix k assume "length s - length t \<le> Suc k"
      with len len2 i(1) j(1) have "length r1 - length r2 \<le> k" "length w - length t \<le> k" by simp_all
      with i(2) j(2) cw w False show "parse_members (Suc k) d s = Some (ms, t)" unfolding step by simp
    qed
  qed
qed simp_all

text \<open>More fuel than the text has bytes finds what one unit for each byte finds.\<close>

lemma parse_fuel:
  assumes "length s \<le> n" "length s \<le> m"
  shows "parse_value n d s = parse_value m d s"
proof (cases "parse_value n d s")
  case None
  have "parse_value m d s = None"
  proof (rule ccontr)
    assume "parse_value m d s \<noteq> None"
    then obtain v t where "parse_value m d s = Some (v, t)" by auto
    from settledD(2) [OF parse_settled(1) [OF this] le_trans [OF diff_le_self assms(1)]] None show False by simp
  qed
  with None show ?thesis by simp
next
  case (Some vt)
  then obtain v t where vt: "parse_value n d s = Some (v, t)" by (cases vt) simp
  from settledD(2) [OF parse_settled(1) [OF this] le_trans [OF diff_le_self assms(2)]] vt show ?thesis by simp
qed

end
