(* ===== verification/GoTime.thy ===== *)
theory GoTime
  imports GoStrings
begin

text \<open>
  Go's time package as the program uses it. A time is the number of nanoseconds since the Unix
  epoch, in UTC; a duration is a 64-bit number of nanoseconds. The store writes times as
  RFC 3339 texts and lets SQLite compare the texts, so the theory holds the calendar, the
  format, its parser, and the relation between the order of the texts and that of the times.
\<close>

type_synonym time = int

type_synonym duration = int

definition second :: duration where "second = 1000000000"
definition minute :: duration where "minute = 60 * second"
definition hour :: duration where "hour = 60 * minute"
definition millisecond :: duration where "millisecond = 1000000"

lemmas duration_defs = second_def minute_def hour_def millisecond_def

text \<open>The zero value of time.Time: the first instant of year 1.\<close>

definition zero_time :: time where
  "zero_time = - 62135596800 * second"

text \<open>Duration.Milliseconds of the time from s to t.\<close>

definition ms_between :: "time \<Rightarrow> time \<Rightarrow> int" where
  "ms_between s t = (if s \<le> t then (t - s) div millisecond else - ((s - t) div millisecond))"

section \<open>The calendar\<close>

definition leap :: "int \<Rightarrow> bool" where
  "leap y \<longleftrightarrow> y mod 4 = 0 \<and> (y mod 100 \<noteq> 0 \<or> y mod 400 = 0)"

text \<open>Days from 1 January of year 1 to 1 January of year y.\<close>

definition year_start :: "int \<Rightarrow> int" where
  "year_start y = 365 * (y - 1) + (y - 1) div 4 - (y - 1) div 100 + (y - 1) div 400"

definition month_lens :: "int \<Rightarrow> int list" where
  "month_lens y = [31, if leap y then 29 else 28, 31, 30, 31, 30, 31, 31, 30, 31, 30, 31]"

fun month_day :: "int list \<Rightarrow> int \<Rightarrow> int \<Rightarrow> int \<times> int" where
  "month_day [] m d = (m, d)"
| "month_day (l # ls) m d = (if d < l then (m, d) else month_day ls (m + 1) (d - l))"

text \<open>Year and day of the year, by cycles of 400, 100, 4 and 1 years.\<close>

definition year_day :: "int \<Rightarrow> int \<times> int" where
  "year_day d =
     (let a = d div 146097; d1 = d mod 146097;
          b = min 3 (d1 div 36524); d2 = d1 - 36524 * b;
          c = d2 div 1461; d3 = d2 mod 1461;
          e = min 3 (d3 div 365)
      in (400 * a + 100 * b + 4 * c + e + 1, d3 - 365 * e))"

definition civil :: "int \<Rightarrow> int \<times> int \<times> int" where
  "civil d = (let (y, yd) = year_day d; (m, md) = month_day (month_lens y) 1 yd in (y, m, md + 1))"

definition days_of :: "int \<Rightarrow> int \<Rightarrow> int \<Rightarrow> int" where
  "days_of y m d = year_start y + sum_list (take (nat (m - 1)) (month_lens y)) + (d - 1)"

text \<open>The day number of the Unix epoch.\<close>

definition epoch_day :: int where
  "epoch_day = 719162"

lemma year_start_cycles:
  assumes "0 \<le> b" "b \<le> 3" "0 \<le> c" "c \<le> 24" "0 \<le> e" "e \<le> 3"
  shows "year_start (400 * a + 100 * b + 4 * c + e + 1) = 146097 * a + 36524 * b + 1461 * c + 365 * e"
proof -
  let ?k = "400 * a + 100 * b + 4 * c + e"
  have "?k div 4 = 100 * a + 25 * b + c" using assms by linarith
  moreover have "?k div 100 = 4 * a + b" using assms by linarith
  moreover have "?k div 400 = a" using assms by linarith
  ultimately show ?thesis by (simp add: year_start_def)
qed

lemma div_pred:
  fixes n y :: int
  assumes "0 < n"
  shows "y div n = (y - 1) div n + (if y mod n = 0 then 1 else 0)"
proof (cases "y mod n = 0")
  case True
  have "(y - 1) div n = y div n - 1"
    by (rule int_div_pos_eq [where r = "n - 1"])
      (use assms True minus_mod_eq_mult_div [of y n] in \<open>auto simp: algebra_simps\<close>)
  with True show ?thesis by simp
next
  case False
  have "(y - 1) div n = y div n"
    by (rule int_div_pos_eq [where r = "y mod n - 1"])
      (use assms False pos_mod_sign [of n y] pos_mod_bound [of n y] minus_mod_eq_mult_div [of y n]
        in \<open>linarith+\<close>)
  with False show ?thesis by simp
qed

lemma year_sum:
  fixes p q r p' q' r' x y :: int
  assumes "p = p' + u" "q = q' + v" "r = r' + w"
  shows "365 * (y + 1 - 1) + p - q + r = 365 * (y - 1) + p' - q' + r' + (365 + u - v + w)"
  using assms by simp

lemma year_start_Suc: "year_start (y + 1) = year_start y + (if leap y then 366 else 365)"
proof -
  have d: "y div 4 = (y - 1) div 4 + (if y mod 4 = 0 then 1 else 0)"
    "y div 100 = (y - 1) div 100 + (if y mod 100 = 0 then 1 else 0)"
    "y div 400 = (y - 1) div 400 + (if y mod 400 = 0 then 1 else 0)"
    by (rule div_pred; simp)+
  have "y mod 100 mod 4 = y mod 4" "y mod 400 mod 100 = y mod 100"
    by (simp_all add: mod_mod_cancel)
  then have "y mod 100 = 0 \<longrightarrow> y mod 4 = 0" "y mod 400 = 0 \<longrightarrow> y mod 100 = 0"
    by (metis mod_0)+
  then consider "y mod 4 \<noteq> 0" "y mod 100 \<noteq> 0" "y mod 400 \<noteq> 0"
    | "y mod 4 = 0" "y mod 100 \<noteq> 0" "y mod 400 \<noteq> 0"
    | "y mod 4 = 0" "y mod 100 = 0" "y mod 400 \<noteq> 0"
    | "y mod 4 = 0" "y mod 100 = 0" "y mod 400 = 0" by satx
  then have "365 + (if y mod 4 = 0 then 1 else 0) - (if y mod 100 = 0 then 1 else 0)
      + (if y mod 400 = 0 then 1 else 0) = (if leap y then 366 else (365 :: int))"
    unfolding leap_def by cases simp_all
  moreover note year_sum [OF d, of y]
  ultimately show ?thesis unfolding year_start_def by (simp only: add_diff_cancel_right')
qed

lemma year_start_mono: "x \<le> y \<Longrightarrow> year_start x \<le> year_start y"
proof (induction "nat (y - x)" arbitrary: y)
  case 0
  then show ?case by simp
next
  case (Suc n)
  then have "year_start x \<le> year_start (y - 1)" by simp
  also have "\<dots> \<le> year_start y" using year_start_Suc [of "y - 1"] by (simp split: if_splits)
  finally show ?case .
qed

text \<open>The year and day of the year are the right ones.\<close>

lemma year_day_correct:
  assumes "year_day d = (y, n)"
  shows "year_start y + n = d \<and> 0 \<le> n \<and> n < (if leap y then 366 else 365)"
proof -
  define a where "a = d div 146097"
  define d1 where "d1 = d mod 146097"
  define b where "b = min 3 (d1 div 36524)"
  define d2 where "d2 = d1 - 36524 * b"
  define c where "c = d2 div 1461"
  define d3 where "d3 = d2 mod 1461"
  define e where "e = min 3 (d3 div 365)"
  note defs = a_def d1_def b_def d2_def c_def d3_def e_def
  have "year_day d = (400 * a + 100 * b + 4 * c + e + 1, d3 - 365 * e)"
    unfolding year_day_def Let_def defs by (rule refl)
  then have y: "y = 400 * a + 100 * b + 4 * c + e + 1" and n: "n = d3 - 365 * e"
    using assms by simp_all
  have d1: "0 \<le> d1" "d1 < 146097" "d = 146097 * a + d1" by (simp_all add: defs)
  have b: "0 \<le> b \<and> b \<le> 3 \<and> 0 \<le> d2 \<and> d2 \<le> 36524 \<and> (b < 3 \<longrightarrow> d2 < 36524)"
  proof (cases "d1 div 36524 \<le> 3")
    case True
    then have bd: "b = d1 div 36524" by (simp add: b_def)
    then have "d2 = d1 mod 36524" by (simp add: d2_def minus_mult_div_eq_mod)
    then have "0 \<le> d2" "d2 < 36524" by simp_all
    moreover have "0 \<le> b" using d1(1) bd by (simp add: pos_imp_zdiv_nonneg_iff)
    moreover have "b \<le> 3" by (simp add: b_def)
    ultimately show ?thesis by linarith
  next
    case False
    then have "b = 3" by (simp add: b_def)
    moreover from False have "d1 = 146096" using d1(1,2) by linarith
    ultimately show ?thesis by (simp add: d2_def)
  qed
  then have b: "0 \<le> b" "b \<le> 3" "0 \<le> d2" "d2 \<le> 36524" "b < 3 \<Longrightarrow> d2 < 36524" by auto
  have c: "0 \<le> c" "c \<le> 24" "0 \<le> d3" "d3 < 1461" "d2 = 1461 * c + d3"
    using b(3,4) by (auto simp: c_def d3_def)
  have e: "0 \<le> e \<and> e \<le> 3 \<and> 0 \<le> n \<and> n \<le> 365"
  proof (cases "d3 div 365 \<le> 3")
    case True
    then have ed: "e = d3 div 365" by (simp add: e_def)
    then have "n = d3 mod 365" by (simp add: n minus_mult_div_eq_mod)
    then have "0 \<le> n" "n < 365" by simp_all
    moreover have "0 \<le> e" using c(3) ed by (simp add: pos_imp_zdiv_nonneg_iff)
    moreover have "e \<le> 3" by (simp add: e_def)
    ultimately show ?thesis by linarith
  next
    case False
    then have "e = 3" by (simp add: e_def)
    moreover from False have "d3 = 1460" using c(3,4) by linarith
    ultimately show ?thesis by (simp add: n)
  qed
  then have e: "0 \<le> e" "e \<le> 3" "0 \<le> n" "n \<le> 365" by auto
  have e3: "e = 3" if "n = 365"
  proof (rule ccontr)
    assume "e \<noteq> 3"
    then have "e = d3 div 365" by (auto simp: e_def min_def)
    then have "n = d3 mod 365" by (simp add: n minus_mult_div_eq_mod)
    with that show False using pos_mod_bound [of 365 d3] by simp
  qed
  have start: "year_start y = 146097 * a + 36524 * b + 1461 * c + 365 * e"
    unfolding y using b c e by (intro year_start_cycles)
  have sum: "year_start y + n = d" using start n c(5) d1(3) d2_def by linarith
  have "leap y" if "n = 365"
  proof -
    note e3 = e3 [OF that]
    have d3: "d3 = 1460" using that n e3 by simp
    have "c = 24 \<Longrightarrow> d2 = 36524" using c(5) d3 by simp
    then have cb: "c = 24 \<Longrightarrow> b = 3" using b(2,5) by linarith
    have y100: "y = 100 * (4 * a + b) + 4 * (c + 1)" using y e3 by simp
    have c24: "c = 24" if "y mod 100 = 0"
    proof (rule ccontr)
      assume "c \<noteq> 24"
      then have "y mod 100 = 4 * (c + 1)"
        using c(1,2) y100 by (intro int_mod_pos_eq [where q = "4 * a + b"]) auto
      with that c(1) show False by simp
    qed
    have "y mod 400 = 0" if "y mod 100 = 0"
    proof -
      have "y = 400 * (a + 1)" using c24 [OF that] cb y100 by simp
      then show ?thesis by simp
    qed
    moreover have "y mod 4 = 0"
    proof -
      have "y = 4 * (100 * a + 25 * b + c + 1)" using y100 by simp
      then show ?thesis by simp
    qed
    ultimately show ?thesis by (auto simp: leap_def)
  qed
  with sum e(3,4) show ?thesis by (cases "n = 365") auto
qed

lemma year_day_mono:
  assumes "d < d'" "year_day d = (y, n)" "year_day d' = (y', n')"
  shows "y < y' \<or> y = y' \<and> n < n'"
proof -
  have 1: "year_start y + n = d" and 2: "year_start y' + n' = d'" and n': "n' < (if leap y' then 366 else 365)"
    and n: "0 \<le> n" using year_day_correct assms(2,3) by blast+
  have "y \<le> y'"
  proof (rule ccontr)
    assume "\<not> y \<le> y'"
    then have "year_start (y' + 1) \<le> year_start y" by (intro year_start_mono) simp
    then show False using 1 2 n n' assms(1) year_start_Suc [of y'] by (simp split: if_splits)
  qed
  then show ?thesis using 1 2 assms(1) by (cases "y = y'") auto
qed

lemma month_day_sum:
  "0 \<le> d \<Longrightarrow> d < sum_list ls \<Longrightarrow> month_day ls m d = (k, r) \<Longrightarrow>
     m \<le> k \<and> k < m + int (length ls) \<and> sum_list (take (nat (k - m)) ls) + r = d \<and>
     0 \<le> r \<and> r < ls ! nat (k - m)"
proof (induction ls m d rule: month_day.induct)
  case (1 m d)
  then show ?case by simp
next
  case (2 l ls m d)
  show ?case
  proof (cases "d < l")
    case True
    with 2 show ?thesis by auto
  next
    case False
    with "2.IH" [OF False] "2.prems" have IH: "m + 1 \<le> k" "k < m + 1 + int (length ls)"
      "sum_list (take (nat (k - (m + 1))) ls) + r = d - l" "0 \<le> r" "r < ls ! nat (k - (m + 1))"
      by auto
    moreover have "nat (k - m) = Suc (nat (k - (m + 1)))" using IH(1) by simp
    ultimately show ?thesis by simp
  qed
qed

lemma month_day_mono:
  "d < d' \<Longrightarrow> month_day ls m d = (k, r) \<Longrightarrow> month_day ls m d' = (k', r') \<Longrightarrow>
     k < k' \<or> k = k' \<and> r < r'"
proof (induction ls m d arbitrary: d' rule: month_day.induct)
  case (1 m d)
  then show ?case by simp
next
  case (2 l ls m d)
  have ge: "month_day xs j x = (i, y) \<Longrightarrow> j \<le> i" for xs j x i y
    by (induction xs j x rule: month_day.induct) (auto split: if_splits)
  show ?case
  proof (cases "d < l")
    case True
    with 2 show ?thesis using ge [of ls "m + 1" "d' - l" k' r'] by (auto split: if_splits)
  next
    case False
    with "2.IH" [OF False, of "d' - l"] "2.prems" show ?thesis by simp
  qed
qed

lemma sum_month_lens: "sum_list (month_lens y) = (if leap y then 366 else 365)"
  by (simp add: month_lens_def)

lemma length_month_lens [simp]: "length (month_lens y) = 12"
  by (simp add: month_lens_def)

lemma month_len_le: "i < 12 \<Longrightarrow> month_lens y ! i \<le> 31"
  by (simp add: month_lens_def nth_Cons' )

text \<open>The calendar date of a day, and the day of a date, are inverse.\<close>

lemma civil_correct:
  assumes "civil d = (y, m, k)"
  shows "days_of y m k = d \<and> 1 \<le> m \<and> m \<le> 12 \<and> 1 \<le> k \<and> k \<le> month_lens y ! nat (m - 1) \<and> k \<le> 31"
proof -
  obtain n where n: "year_day d = (y, n)" and md: "month_day (month_lens y) 1 n = (m, k - 1)"
    using assms by (auto simp: civil_def split: prod.splits)
  from year_day_correct [OF n] have yd: "year_start y + n = d" "0 \<le> n" "n < sum_list (month_lens y)"
    by (auto simp: sum_month_lens)
  from month_day_sum [OF yd(2,3) md]
  have *: "1 \<le> m" "m < 13" "sum_list (take (nat (m - 1)) (month_lens y)) + (k - 1) = n" "0 \<le> k - 1"
    "k - 1 < month_lens y ! nat (m - 1)" by auto
  moreover have "month_lens y ! nat (m - 1) \<le> 31" using *(1,2) by (intro month_len_le) simp
  ultimately show ?thesis using yd(1) by (auto simp: days_of_def)
qed

lemma civil_mono:
  assumes "d < d'" "civil d = (y, m, k)" "civil d' = (y', m', k')"
  shows "y < y' \<or> y = y' \<and> (m < m' \<or> m = m' \<and> k < k')"
proof -
  obtain n n' where n: "year_day d = (y, n)" "month_day (month_lens y) 1 n = (m, k - 1)"
    and n': "year_day d' = (y', n')" "month_day (month_lens y') 1 n' = (m', k' - 1)"
    using assms(2,3) by (auto simp: civil_def split: prod.splits)
  from year_day_mono [OF assms(1) n(1) n'(1)] consider "y < y'" | "y = y'" "n < n'" by blast
  then show ?thesis
  proof cases
    case 1
    then show ?thesis by simp
  next
    case 2
    with month_day_mono [OF 2(2) n(2)] n'(2) show ?thesis by auto
  qed
qed

section \<open>RFC 3339 texts\<close>

definition secs :: "time \<Rightarrow> int" where
  "secs t = t div second"

definition date_of :: "time \<Rightarrow> int \<times> int \<times> int" where
  "date_of t = civil (secs t div 86400 + epoch_day)"

definition text_year :: "time \<Rightarrow> bool" where
  "text_year t \<longleftrightarrow> 0 \<le> fst (date_of t) \<and> fst (date_of t) \<le> 9999"

text \<open>The year, in at least four digits.\<close>

definition year_text :: "int \<Rightarrow> string" where
  "year_text y =
     (if 0 \<le> y \<and> y \<le> 9999 then pad_dec 4 y
      else if y < 0 then ''-'' @ (if - y \<le> 9999 then pad_dec 4 (- y) else dec (- y)) else dec y)"

text \<open>The fraction of RFC3339Nano: nine digits without trailing zeros, nothing for none.\<close>

definition frac_text :: "int \<Rightarrow> string" where
  "frac_text n = (if n = 0 then [] else CHR ''.'' # rev (dropWhile (\<lambda>c. c = CHR ''0'') (rev (pad_dec 9 n))))"

definition clock_text :: "int \<Rightarrow> string" where
  "clock_text s = pad_dec 2 (s div 3600) @ '':'' @ pad_dec 2 (s div 60 mod 60) @ '':'' @ pad_dec 2 (s mod 60)"

text \<open>t.UTC().Format(time.RFC3339Nano).\<close>

definition format_time :: "time \<Rightarrow> string" where
  "format_time t =
     (let (y, m, d) = date_of t
      in year_text y @ ''-'' @ pad_dec 2 m @ ''-'' @ pad_dec 2 d @ ''T''
           @ clock_text (secs t mod 86400) @ frac_text (t mod second) @ ''Z'')"

subsection \<open>The order of the texts\<close>

lemma length_clock_text [simp]: "length (clock_text s) = 8"
  by (simp add: clock_text_def)

lemma clock_text_less:
  assumes "0 \<le> s" "s < s'" "s' < 86400"
  shows "clock_text s < clock_text s'"
proof -
  let ?h = "s div 3600" and ?h' = "s' div 3600"
  let ?m = "s div 60 mod 60" and ?m' = "s' div 60 mod 60"
  have h: "0 \<le> ?h" "?h' < 100" "?h \<le> ?h'" using assms by (auto simp: zdiv_mono1 pos_imp_zdiv_nonneg_iff)
  have hm: "s div 60 = 60 * ?h + ?m" "s' div 60 = 60 * ?h' + ?m'"
    using div_mult_mod_eq [of "s div 60" 60] div_mult_mod_eq [of "s' div 60" 60]
    by (simp_all add: zdiv_zmult2_eq [of 60, symmetric])
  have ms: "s = 60 * (s div 60) + s mod 60" "s' = 60 * (s' div 60) + s' mod 60" by simp_all
  consider "?h < ?h'" | "?h = ?h'" "?m < ?m'" | "?h = ?h'" "?m = ?m'" "s mod 60 < s' mod 60"
    using h(3) hm ms assms(2) zdiv_mono1 [of s s' 60] by (smt (verit))
  then show ?thesis
  proof cases
    case 1
    then have "pad_dec 2 ?h < pad_dec 2 ?h'" using h by (intro pad_dec_less) auto
    then show ?thesis unfolding clock_text_def by (rule append_less_append) simp
  next
    case 2
    have "?m' < 10 ^ 2" using pos_mod_bound [of 60 "s' div 60"] by simp
    then have "pad_dec 2 ?m < pad_dec 2 ?m'" using 2(2) by (intro pad_dec_less) simp_all
    then have "pad_dec 2 ?m @ u < pad_dec 2 ?m' @ v" for u v by (rule append_less_append) simp
    with 2 show ?thesis
      by (simp only: clock_text_def append_less_same append_Cons append_Nil Cons_less_Cons simp_thms)
  next
    case 3
    have "s' mod 60 < 10 ^ 2" using pos_mod_bound [of 60 s'] by simp
    then have "pad_dec 2 (s mod 60) < pad_dec 2 (s' mod 60)" using 3(3) by (intro pad_dec_less) simp_all
    with 3 show ?thesis
      by (simp only: clock_text_def append_less_same append_Cons append_Nil Cons_less_Cons simp_thms)
  qed
qed

lemma secs_mono: "s \<le> t \<Longrightarrow> secs s \<le> secs t"
  by (simp add: secs_def second_def zdiv_mono1)

text \<open>Texts of times in different seconds are ordered like the times.\<close>

theorem format_time_less:
  assumes "text_year s" "text_year t" "secs s < secs t"
  shows "format_time s < format_time t"
proof -
  obtain y m d where s: "date_of s = (y, m, d)" by (cases "date_of s")
  obtain y' m' d' where t: "date_of t = (y', m', d')" by (cases "date_of t")
  have y: "0 \<le> y" "y \<le> 9999" "0 \<le> y'" "y' \<le> 9999" using assms(1,2) s t by (auto simp: text_year_def)
  have md: "1 \<le> m" "m \<le> 12" "1 \<le> d" "d \<le> 31" using civil_correct s by (fastforce simp: date_of_def)+
  have md': "1 \<le> m'" "m' \<le> 12" "1 \<le> d'" "d' \<le> 31" using civil_correct t by (fastforce simp: date_of_def)+
  have len: "length (year_text y) = length (year_text y')" using y by (simp add: year_text_def)
  have le: "secs s div 86400 \<le> secs t div 86400" using assms(3) by (intro zdiv_mono1) auto
  consider "y < y'" | "y = y'" "m < m'" | "y = y'" "m = m'" "d < d'"
    | "date_of s = date_of t" "secs s mod 86400 < secs t mod 86400"
  proof (cases "secs s div 86400 = secs t div 86400")
    case True
    then have "secs s mod 86400 < secs t mod 86400"
      using assms(3) div_mult_mod_eq [of "secs s" 86400] div_mult_mod_eq [of "secs t" 86400] by linarith
    with True that(4) show thesis by (simp add: date_of_def)
  next
    case False
    with le have "secs s div 86400 + epoch_day < secs t div 86400 + epoch_day" by simp
    from civil_mono [OF this] s t that(1,2,3) show thesis by (auto simp: date_of_def)
  qed
  then show ?thesis
  proof cases
    case 1
    then have "year_text y < year_text y'" using y by (auto simp: year_text_def intro: pad_dec_less)
    then show ?thesis using len by (simp add: format_time_def s t append_less_append)
  next
    case 2
    then have "pad_dec 2 m @ u < pad_dec 2 m' @ v" for u v
      using md(1) md'(2) by (intro append_less_append pad_dec_less) auto
    with 2 show ?thesis by (simp add: format_time_def s t)
  next
    case 3
    then have "pad_dec 2 d @ u < pad_dec 2 d' @ v" for u v
      using md(3) md'(4) by (intro append_less_append pad_dec_less) auto
    with 3 show ?thesis by (simp add: format_time_def s t)
  next
    case 4
    then have "clock_text (secs s mod 86400) @ u < clock_text (secs t mod 86400) @ v" for u v
      by (intro append_less_append clock_text_less) auto
    with 4(1) s t show ?thesis by (simp add: format_time_def)
  qed
qed

text \<open>What a comparison of texts says about the times: it is right up to one second.\<close>

corollary format_time_le_imp:
  assumes "text_year s" "text_year t" "format_time s \<le> format_time t"
  shows "s < t + second"
proof -
  have "\<not> secs t < secs s" using format_time_less [OF assms(2,1)] assms(3) by auto
  then have "s div second \<le> t div second" by (simp add: secs_def)
  moreover have "s < second * (s div second) + second" "second * (t div second) \<le> t"
    using div_mult_mod_eq [of s second] pos_mod_bound [of second s]
      div_mult_mod_eq [of t second] pos_mod_sign [of second t]
    by (simp_all add: second_def)
  ultimately show ?thesis
    using mult_left_mono [of "s div second" "t div second" second] by (simp add: second_def)
qed

corollary format_time_leI:
  assumes "text_year s" "text_year t" "s + second \<le> t"
  shows "format_time s \<le> format_time t"
proof -
  have "s div second < t div second" using assms(3) by (simp add: second_def)
  then show ?thesis using format_time_less [OF assms(1,2)] by (simp add: secs_def)
qed

end
