(* ===== verification/GoTimeParse.thy ===== *)
theory GoTimeParse
  imports GoTime
begin

text \<open>
  time.Parse: RFC 3339 texts, as the store reads them back, with the proof that reading back
  what was written gives the same time, and the three layouts of http.ParseTime.
\<close>

section \<open>Readers\<close>

definition take_num :: "nat \<Rightarrow> string \<Rightarrow> (int \<times> string) option" where
  "take_num w s =
     (if length (take w s) = w \<and> list_all is_digit (take w s)
      then Some (digits_val 0 (take w s), drop w s) else None)"

definition take_lit :: "string \<Rightarrow> string \<Rightarrow> string option" where
  "take_lit p s = (if prefix p s then Some (drop (length p) s) else None)"

text \<open>An optional fraction of a second, in nanoseconds; digits past the ninth are dropped.\<close>

definition take_frac :: "string \<Rightarrow> (int \<times> string) option" where
  "take_frac s =
     (if prefix ''.'' s then
        (let ds = takeWhile is_digit (drop 1 s); k = min 9 (length ds)
         in if ds = [] then None
            else Some (digits_val 0 (take k ds) * 10 ^ (9 - k), drop (Suc (length ds)) s))
      else Some (0, s))"

text \<open>The zone of RFC 3339: Z, or an offset in hours and minutes, in seconds.\<close>

definition take_zone :: "string \<Rightarrow> (int \<times> string) option" where
  "take_zone s =
     (case s of
        [] \<Rightarrow> None
      | c # t \<Rightarrow>
          if c = CHR ''Z'' then Some (0, t)
          else if c = CHR ''+'' \<or> c = CHR ''-'' then
            do { (h, t) \<leftarrow> take_num 2 t; t \<leftarrow> take_lit '':'' t; (m, t) \<leftarrow> take_num 2 t;
                 if h \<le> 24 \<and> m < 60
                 then Some ((if c = CHR ''-'' then - 1 else 1) * (3600 * h + 60 * m), t) else None }
          else None)"

definition valid_date :: "int \<Rightarrow> int \<Rightarrow> int \<Rightarrow> bool" where
  "valid_date y m d \<longleftrightarrow> 1 \<le> m \<and> m \<le> 12 \<and> 1 \<le> d \<and> d \<le> month_lens y ! nat (m - 1)"

definition valid_clock :: "int \<Rightarrow> int \<Rightarrow> int \<Rightarrow> bool" where
  "valid_clock h mi s \<longleftrightarrow> h < 24 \<and> mi < 60 \<and> s < 60"

definition time_of :: "int \<Rightarrow> int \<Rightarrow> int \<Rightarrow> int \<Rightarrow> int \<Rightarrow> time" where
  "time_of y m d sod n = (86400 * (days_of y m d - epoch_day) + sod) * second + n"

definition parse_rfc3339 :: "string \<Rightarrow> time option" where
  "parse_rfc3339 s =
     do { (y, s) \<leftarrow> take_num 4 s; s \<leftarrow> take_lit ''-'' s;
          (m, s) \<leftarrow> take_num 2 s; s \<leftarrow> take_lit ''-'' s;
          (d, s) \<leftarrow> take_num 2 s; s \<leftarrow> take_lit ''T'' s;
          (h, s) \<leftarrow> take_num 2 s; s \<leftarrow> take_lit '':'' s;
          (mi, s) \<leftarrow> take_num 2 s; s \<leftarrow> take_lit '':'' s;
          (se, s) \<leftarrow> take_num 2 s;
          (n, s) \<leftarrow> take_frac s;
          (off, s) \<leftarrow> take_zone s;
          if s = [] \<and> valid_date y m d \<and> valid_clock h mi se
          then Some (time_of y m d (3600 * h + 60 * mi + se - off) n) else None }"

section \<open>Reading back what was written\<close>

lemma take_num_pad_dec [simp]:
  "0 \<le> n \<Longrightarrow> n < 10 ^ w \<Longrightarrow> take_num w (pad_dec w n @ s) = Some (n, s)"
  by (simp add: take_num_def pad_dec_digits digits_val_pad_dec)

lemma take_lit_same [simp]: "take_lit p (p @ s) = Some s"
  by (simp add: take_lit_def)

lemma take_lit_char [simp]: "take_lit [c] (c # s) = Some s"
  by (simp add: take_lit_def)

lemma drop_end_zeros:
  "rev (dropWhile (\<lambda>d. d = c) (rev xs)) @ replicate (length (takeWhile (\<lambda>d. d = c) (rev xs))) c = xs"
proof -
  have "takeWhile (\<lambda>d. d = c) ys = replicate (length (takeWhile (\<lambda>d. d = c) ys)) c" for ys
    by (induction ys) auto
  then have "rev (replicate (length (takeWhile (\<lambda>d. d = c) (rev xs))) c) = rev (takeWhile (\<lambda>d. d = c) (rev xs))"
    by metis
  then show ?thesis by (simp flip: rev_append)
qed

lemma digits_val_zeros: "digits_val k (replicate n (CHR ''0'')) = k * 10 ^ n"
  by (induction n arbitrary: k) (auto simp: digit_val_def)

lemma take_frac_text:
  assumes "0 \<le> n" "n < second" "\<not> is_digit c" "c \<noteq> CHR ''.''"
  shows "take_frac (frac_text n @ c # s) = Some (n, c # s)"
proof (cases "n = 0")
  case True
  with assms(4) show ?thesis by (simp add: frac_text_def take_frac_def)
next
  case False
  let ?p = "pad_dec 9 n"
  define ds where "ds = rev (dropWhile (\<lambda>c. c = CHR ''0'') (rev ?p))"
  define k where "k = length (takeWhile (\<lambda>c. c = CHR ''0'') (rev ?p))"
  have p: "ds @ replicate k (CHR ''0'') = ?p"
    unfolding ds_def k_def by (rule drop_end_zeros)
  then have len: "length ds + k = 9" by (metis length_append length_pad_dec length_replicate)
  have "digits_val 0 (ds @ replicate k (CHR ''0'')) = n"
    unfolding p using assms(1,2) by (intro digits_val_pad_dec) (simp_all add: second_def)
  then have val: "digits_val 0 ds * 10 ^ k = n" by (simp only: digits_val_append digits_val_zeros)
  have "list_all is_digit (ds @ replicate k (CHR ''0''))" unfolding p by (rule pad_dec_digits)
  then have dig: "list_all is_digit ds" by simp
  have "ds \<noteq> []" using val False by auto
  have tw: "takeWhile is_digit (ds @ c # s) = ds"
    using dig assms(3) by (simp add: takeWhile_tail list_all_iff takeWhile_append)
  have "take_frac ((CHR ''.'' # ds) @ c # s) = Some (digits_val 0 ds * 10 ^ (9 - length ds), c # s)"
    using \<open>ds \<noteq> []\<close> len tw by (simp add: take_frac_def Let_def)
  moreover have "9 - length ds = k" using len by simp
  ultimately show ?thesis using val False by (simp add: frac_text_def ds_def)
qed

lemma parse_rfc3339_fields:
  assumes "0 \<le> y" "y \<le> 9999" "valid_date y m d" "d \<le> 31"
    and "0 \<le> h" "h < 24" "0 \<le> mi" "mi < 60" "0 \<le> se" "se < 60" "0 \<le> n" "n < second"
  shows "parse_rfc3339 (pad_dec 4 y @ ''-'' @ pad_dec 2 m @ ''-'' @ pad_dec 2 d @ ''T''
      @ (pad_dec 2 h @ '':'' @ pad_dec 2 mi @ '':'' @ pad_dec 2 se) @ frac_text n @ ''Z'')
    = Some (time_of y m d (3600 * h + 60 * mi + se) n)"
proof -
  have "\<not> is_digit (CHR ''Z'')" by (simp add: is_digit_def)
  then have "take_frac (frac_text n @ ''Z'') = Some (n, ''Z'')"
    using assms by (intro take_frac_text) simp_all
  moreover have "0 \<le> m" "m < 100" "0 \<le> d" using assms(3) by (simp_all add: valid_date_def)
  moreover have "valid_clock h mi se" using assms by (simp add: valid_clock_def)
  ultimately show ?thesis using assms by (simp add: parse_rfc3339_def take_zone_def)
qed

lemma hms: "3600 * (s div 3600) + 60 * (s div 60 mod 60) + s mod 60 = (s :: int)"
proof -
  have d: "s div 3600 = s div 60 div 60" using zdiv_zmult2_eq [of 60 s 60] by simp
  have "60 * (60 * (s div 60 div 60) + s div 60 mod 60) + s mod 60 = s"
    by (simp only: mult_div_mod_eq)
  then show ?thesis unfolding d by (simp only: distrib_left mult.assoc [symmetric] mult_numeral_1 numeral_times_numeral)
      (simp only: semiring_norm)
qed

theorem parse_format_time:
  assumes "text_year t"
  shows "parse_rfc3339 (format_time t) = Some t"
proof -
  obtain y m d where ymd: "date_of t = (y, m, d)" by (cases "date_of t")
  define s where "s = secs t mod 86400"
  have y: "0 \<le> y" "y \<le> 9999" using assms ymd by (auto simp: text_year_def)
  have c: "days_of y m d = secs t div 86400 + epoch_day" "d \<le> 31" "valid_date y m d"
    using civil_correct [of _ y m d] ymd unfolding date_of_def valid_date_def by blast+
  have s: "0 \<le> s" "s < 86400" by (simp_all add: s_def)
  have h: "0 \<le> s div 3600" "s div 3600 < 24" using s by (auto simp: pos_imp_zdiv_nonneg_iff)
  have n: "0 \<le> t mod second" "t mod second < second" by (simp_all add: second_def)
  have "time_of y m d s (t mod second) = t"
    by (simp add: time_of_def c(1) s_def secs_def)
  moreover have "parse_rfc3339 (format_time t) = Some (time_of y m d s (t mod second))"
    using parse_rfc3339_fields [OF y c(3,2) h _ _ _ _ n, of "s div 60 mod 60" "s mod 60"] y
    by (simp add: format_time_def ymd year_text_def clock_text_def hms flip: s_def)
  ultimately show ?thesis by simp
qed

section \<open>The layouts of http.ParseTime\<close>

datatype layout =
    LLit string
  | LWeekday nat
  | LMonth
  | LDay bool
  | LYear
  | LYear2
  | LHour
  | LMin
  | LSec
  | LZone

definition weekdays :: "string list" where
  "weekdays = [''Sunday'', ''Monday'', ''Tuesday'', ''Wednesday'', ''Thursday'', ''Friday'', ''Saturday'']"

definition months :: "string list" where
  "months = [''Jan'', ''Feb'', ''Mar'', ''Apr'', ''May'', ''Jun'', ''Jul'', ''Aug'', ''Sep'', ''Oct'', ''Nov'', ''Dec'']"

text \<open>The first of the names that starts the text, whatever its case: its index and the rest.\<close>

fun lookup_name :: "int \<Rightarrow> string list \<Rightarrow> string \<Rightarrow> (int \<times> string) option" where
  "lookup_name i [] s = None"
| "lookup_name i (n # ns) s =
     (if map lower_char (take (length n) s) = map lower_char n then Some (i, drop (length n) s)
      else lookup_name (i + 1) ns s)"

text \<open>getnum: two digits, or one where the layout allows it.\<close>

definition getnum :: "bool \<Rightarrow> string \<Rightarrow> (int \<times> string) option" where
  "getnum fixed s =
     (case take_num 2 s of Some r \<Rightarrow> Some r | None \<Rightarrow> if fixed then None else take_num 1 s)"

text \<open>A literal of the layout: a space stands for any number of spaces, at least one unless at the end.\<close>

function skip_lit :: "string \<Rightarrow> string \<Rightarrow> string option" where
  "skip_lit [] s = Some s"
| "skip_lit (c # p) s =
     (if c = CHR 0x20 then
        (if s \<noteq> [] \<and> hd s \<noteq> CHR 0x20 then None
         else skip_lit (dropWhile (\<lambda>d. d = CHR 0x20) p) (dropWhile (\<lambda>d. d = CHR 0x20) s))
      else (case s of [] \<Rightarrow> None | d # t \<Rightarrow> if c = d then skip_lit p t else None))"
  by pat_completeness auto
termination
  by (relation "measure (\<lambda>(p, s). length p)") (auto simp: le_imp_less_Suc length_dropWhile_le)

text \<open>A zone abbreviation, as its offset from UTC in seconds: only GMT takes an offset in hours.\<close>

definition gmt_offset :: "string \<Rightarrow> nat \<times> int" where
  "gmt_offset s =
     (case s of
        [] \<Rightarrow> (0, 0)
      | c # t \<Rightarrow>
          let ds = takeWhile is_digit t; n = digits_val 0 ds in
          if (c = CHR ''+'' \<or> c = CHR ''-'') \<and> ds \<noteq> [] \<and> n \<le> 23
          then (Suc (length ds), if c = CHR ''-'' then - n else n) else (0, 0))"

definition parse_zone :: "string \<Rightarrow> (int \<times> string) option" where
  "parse_zone s =
     (let u = length (takeWhile is_upper (take 6 s)) in
      if prefix ''ChST'' s \<or> prefix ''MeST'' s then Some (0, drop 4 s)
      else if prefix ''GMT'' s then
        (let (k, h) = gmt_offset (drop 3 s) in Some (3600 * h, drop (3 + k) s))
      else if length s \<ge> 3 \<and> (hd s = CHR ''+'' \<or> hd s = CHR ''-'') then
        (let (k, h) = gmt_offset s in if k = 0 then None else Some (0, drop k s))
      else if u = 3 \<or> (u = 5 \<and> s ! 4 = CHR ''T'') \<or> (u = 4 \<and> (s ! 3 = CHR ''T'' \<or> prefix ''WITA'' s))
      then Some (0, drop u s)
      else None)"

record stamp =
  st_year :: int
  st_month :: int
  st_day :: int
  st_hour :: int
  st_min :: int
  st_sec :: int
  st_nano :: int
  st_off :: int

definition stamp0 :: stamp where
  "stamp0 = \<lparr>st_year = 0, st_month = 1, st_day = 1, st_hour = 0, st_min = 0, st_sec = 0, st_nano = 0, st_off = 0\<rparr>"

definition read_field :: "layout \<Rightarrow> stamp \<Rightarrow> string \<Rightarrow> (stamp \<times> string) option" where
  "read_field l st s =
     (case l of
        LLit p \<Rightarrow> map_option (Pair st) (skip_lit p s)
      | LWeekday n \<Rightarrow>
          map_option (map_prod (\<lambda>_. st) id)
            (lookup_name 0 (if n = 0 then weekdays else map (take n) weekdays) s)
      | LMonth \<Rightarrow> map_option (map_prod (\<lambda>i. st\<lparr>st_month := i\<rparr>) id) (lookup_name 1 months s)
      | LDay spaced \<Rightarrow>
          map_option (map_prod (\<lambda>d. st\<lparr>st_day := d\<rparr>) id)
            (if spaced then getnum False (if prefix [CHR 0x20] s then drop 1 s else s) else getnum True s)
      | LYear \<Rightarrow> map_option (map_prod (\<lambda>y. st\<lparr>st_year := y\<rparr>) id) (take_num 4 s)
      | LYear2 \<Rightarrow>
          map_option (map_prod (\<lambda>y. st\<lparr>st_year := if 69 \<le> y then 1900 + y else 2000 + y\<rparr>) id) (take_num 2 s)
      | LHour \<Rightarrow> map_option (map_prod (\<lambda>h. st\<lparr>st_hour := h\<rparr>) id) (getnum False s)
      | LMin \<Rightarrow> map_option (map_prod (\<lambda>m. st\<lparr>st_min := m\<rparr>) id) (getnum True s)
      | LSec \<Rightarrow>
          do { (se, t) \<leftarrow> getnum True s;
               (n, t) \<leftarrow> (if length t \<ge> 2 \<and> (hd t = CHR ''.'' \<or> hd t = CHR '','') \<and> is_digit (t ! 1)
                         then take_frac (CHR ''.'' # drop 1 t) else Some (0, t));
               Some (st\<lparr>st_sec := se, st_nano := n\<rparr>, t) }
      | LZone \<Rightarrow> map_option (map_prod (\<lambda>h. st\<lparr>st_off := h\<rparr>) id) (parse_zone s))"

fun read_layout :: "layout list \<Rightarrow> stamp \<Rightarrow> string \<Rightarrow> time option" where
  "read_layout [] st s =
     (if s = [] \<and> valid_date (st_year st) (st_month st) (st_day st)
         \<and> valid_clock (st_hour st) (st_min st) (st_sec st)
      then Some (time_of (st_year st) (st_month st) (st_day st)
             (3600 * st_hour st + 60 * st_min st + st_sec st - st_off st) (st_nano st))
      else None)"
| "read_layout (l # ls) st s =
     (case read_field l st s of None \<Rightarrow> None | Some (st', t) \<Rightarrow> read_layout ls st' t)"

definition clock_layout :: "layout list" where
  "clock_layout = [LHour, LLit '':'', LMin, LLit '':'', LSec]"

definition http_layouts :: "layout list list" where
  "http_layouts =
     (LWeekday 3 # LLit '', '' # LDay False # LLit '' '' # LMonth # LLit '' '' # LYear # LLit '' ''
        # clock_layout @ [LLit '' GMT''])
     # (LWeekday 0 # LLit '', '' # LDay False # LLit ''-'' # LMonth # LLit ''-'' # LYear2 # LLit '' ''
        # clock_layout @ [LLit '' '', LZone])
     # (LWeekday 3 # LLit '' '' # LMonth # LLit '' '' # LDay True # LLit '' ''
        # clock_layout @ [LLit '' '', LYear]) # []"

fun first_some :: "('a \<Rightarrow> 'b option) \<Rightarrow> 'a list \<Rightarrow> 'b option" where
  "first_some f [] = None"
| "first_some f (x # xs) = (case f x of None \<Rightarrow> first_some f xs | r \<Rightarrow> r)"

definition parse_http_time :: "string \<Rightarrow> time option" where
  "parse_http_time s = first_some (\<lambda>ls. read_layout ls stamp0 s) http_layouts"

end
