(* ===== verification/StoreTypes.thy ===== *)
theory StoreTypes
  imports GoTimeParse
begin

text \<open>
  internal/store/types.go: the values the store gives to its callers and takes from them. An
  int, int64 or bool is an int or a bool, a pointer an option, a time the number of its
  nanoseconds; a byte slice is a string of its bytes.
\<close>

record key =
  k_id :: int
  k_name :: string
  k_encrypted :: string
  k_fingerprint :: string
  k_priority :: int
  k_enabled :: bool
  k_auth :: string
  k_quota :: string
  k_control :: string
  k_role :: string
  k_window :: string
  k_cooling :: "time option"
  k_error :: string
  k_used :: "time option"
  k_checked :: "time option"
  k_override :: "bool option"
  k_created :: time
  k_updated :: time

record settings =
  st_auto_probe :: bool
  st_force_usage :: bool
  st_probe_model :: string
  st_probe_interval :: int
  st_models_cache :: int

record request_record =
  rq_id :: string
  rq_started :: time
  rq_finished :: "time option"
  rq_client :: string
  rq_client_name :: string
  rq_protocol :: string
  rq_model :: string
  rq_stream :: bool
  rq_bytes :: int
  rq_messages :: int
  rq_tools :: int
  rq_final_key :: "int option"
  rq_final_name :: string
  rq_attempts :: int
  rq_status :: int
  rq_outcome :: string
  rq_error :: string
  rq_latency :: int
  rq_ttft :: "int option"
  rq_uncached :: "int option"
  rq_cache_read :: "int option"
  rq_cache_write :: "int option"
  rq_output :: "int option"
  rq_reasoning :: "int option"
  rq_total_input :: "int option"
  rq_usage_state :: string

record attempt_record =
  at_request :: string
  at_key :: int
  at_no :: int
  at_started :: time
  at_finished :: time
  at_status :: int
  at_outcome :: string
  at_error :: string
  at_upstream :: string
  at_latency :: int

record usage =
  us_uncached :: "int option"
  us_cache_read :: "int option"
  us_cache_write :: "int option"
  us_output :: "int option"
  us_reasoning :: "int option"
  us_total_input :: "int option"
  us_total :: "int option"
  us_state :: string
  us_raw :: string

record timeline_point =
  tp_bucket :: time
  tp_uncached :: int
  tp_cache_read :: int
  tp_cache_write :: int
  tp_output :: int
  tp_requests :: int

record key_aggregate =
  ka_id :: int
  ka_name :: string
  ka_requests :: int
  ka_successes :: int
  ka_uncached :: int
  ka_cache_read :: int
  ka_cache_write :: int
  ka_output :: int
  ka_latency :: int

record client_aggregate =
  ca_id :: string
  ca_name :: string
  ca_requests :: int
  ca_successes :: int
  ca_failures :: int
  ca_failovers :: int
  ca_uncached :: int
  ca_cache_read :: int
  ca_cache_write :: int
  ca_output :: int
  ca_complete :: int
  ca_latency :: int

record dashboard =
  da_active :: "key option"
  da_key_counts :: "(string \<times> int) list"
  da_requests :: int
  da_successes :: int
  da_failures :: int
  da_failovers :: int
  da_uncached :: int
  da_cache_read :: int
  da_cache_write :: int
  da_output :: int
  da_complete :: int
  da_timeline :: "timeline_point list"
  da_by_key :: "key_aggregate list"

text \<open>The usage of a request for which nothing was reported.\<close>

definition no_usage :: usage where
  "no_usage = \<lparr>us_uncached = None, us_cache_read = None, us_cache_write = None, us_output = None,
     us_reasoning = None, us_total_input = None, us_total = None, us_state = ''unavailable'', us_raw = []\<rparr>"

end
