(* ===== verification/StoreDb.thy ===== *)
theory StoreDb
  imports StoreTypes
begin

text \<open>
  The SQLite database behind internal/store/sqlite.go: its tables, the clock the store reads, and
  the failures of the driver. A row holds its columns as the schema declares them: booleans are 0
  and 1, times RFC 3339 texts, and a comparison of two times is a comparison of their texts.
  Operations are programs in the state monad that return an error or a value.
\<close>

section \<open>Tables\<close>

record key_row =
  kr_id :: int
  kr_name :: string
  kr_encrypted :: string
  kr_fingerprint :: string
  kr_priority :: int
  kr_enabled :: int
  kr_auth :: string
  kr_quota :: string
  kr_control :: string
  kr_role :: string
  kr_window :: string
  kr_cooling :: "string option"
  kr_error :: string
  kr_used :: "string option"
  kr_checked :: "string option"
  kr_override :: "int option"
  kr_created :: string
  kr_updated :: string

record request_row =
  pr_id :: string
  pr_started :: string
  pr_finished :: "string option"
  pr_client :: string
  pr_client_name :: string
  pr_protocol :: string
  pr_model :: string
  pr_stream :: int
  pr_bytes :: int
  pr_messages :: int
  pr_tools :: int
  pr_final_key :: "int option"
  pr_attempts :: int
  pr_status :: int
  pr_outcome :: string
  pr_error :: string
  pr_latency :: int
  pr_ttft :: "int option"
  pr_uncached :: "int option"
  pr_cache_read :: "int option"
  pr_cache_write :: "int option"
  pr_output :: "int option"
  pr_reasoning :: "int option"
  pr_total_input :: "int option"
  pr_total :: "int option"
  pr_usage_state :: string
  pr_raw :: string

record attempt_row =
  ar_request :: string
  ar_key :: int
  ar_no :: int
  ar_started :: string
  ar_finished :: string
  ar_status :: int
  ar_outcome :: string
  ar_error :: string
  ar_upstream :: string
  ar_latency :: int

record quota_row =
  qr_key :: int
  qr_window :: string
  qr_detected :: string
  qr_reset :: "string option"
  qr_message :: string

record cache_row =
  mc_body :: string
  mc_fetched :: string
  mc_source :: "int option"

record settings_row =
  sr_auto_probe :: int
  sr_force_usage :: int
  sr_probe_model :: string
  sr_probe_interval :: int
  sr_models_cache :: int

text \<open>
  The tables. The key sequence is the largest id AUTOINCREMENT has given; the settings table has
  the one row its CHECK allows; rows are in the order of their insertion.
\<close>

record db =
  db_keys :: "key_row list"
  db_key_seq :: int
  db_settings :: settings_row
  db_requests :: "request_row list"
  db_attempts :: "attempt_row list"
  db_events :: "quota_row list"
  db_cache :: "cache_row option"

text \<open>The database that migrate creates in an empty file.\<close>

definition migrated :: db where
  "migrated = \<lparr>db_keys = [], db_key_seq = 0,
     db_settings = \<lparr>sr_auto_probe = 1, sr_force_usage = 1, sr_probe_model = ''mimo-v2.5'',
                    sr_probe_interval = 900, sr_models_cache = 600\<rparr>,
     db_requests = [], db_attempts = [], db_events = [], db_cache = None\<rparr>"

section \<open>The host of a database\<close>

text \<open>
  What an operation can meet: the tables, the readings of the clock (the n-th call of time.Now
  returns \<open>h_clock n\<close>) and the number of readings so far, and for each statement to come whether
  the driver fails it (a cancelled context, a full disk); a statement that fails changes nothing.
\<close>

record host =
  h_db :: db
  h_clock :: "nat \<Rightarrow> time"
  h_ticks :: nat
  h_faults :: "bool list"

datatype db_error = DriverFault | UniqueFailed | ForeignKeyFailed | NoRows | IntegerOverflow

type_synonym ('z, 'a) db_op = "('z host_scheme, db_error + 'a) state"

definition now :: "('z host_scheme, time) state" where
  "now = State (\<lambda>h. (h_clock h (h_ticks h), h\<lparr>h_ticks := Suc (h_ticks h)\<rparr>))"

definition now_text :: "('z host_scheme, string) state" where
  "now_text = State_Monad.bind now (\<lambda>t. State_Monad.return (format_time t))"

text \<open>Whether the driver fails the next statement.\<close>

definition fault :: "('z host_scheme, bool) state" where
  "fault = State (\<lambda>h. case h_faults h of [] \<Rightarrow> (False, h) | b # bs \<Rightarrow> (b, h\<lparr>h_faults := bs\<rparr>))"

text \<open>A query reads the tables; a statement changes them or reports a violated constraint.\<close>

definition query :: "(db \<Rightarrow> 'a) \<Rightarrow> ('z, 'a) db_op" where
  "query f = State_Monad.bind fault (\<lambda>bad.
     if bad then State_Monad.return (Inl DriverFault) else gets (\<lambda>h. Inr (f (h_db h))))"

definition exec :: "(db \<Rightarrow> db_error + 'a \<times> db) \<Rightarrow> ('z, 'a) db_op" where
  "exec f = State_Monad.bind fault (\<lambda>bad.
     if bad then State_Monad.return (Inl DriverFault)
     else State (\<lambda>h. case f (h_db h) of
            Inl e \<Rightarrow> (Inl e, h)
          | Inr (a, d) \<Rightarrow> (Inr a, h\<lparr>h_db := d\<rparr>)))"

text \<open>Bind of two operations: an error ends the program.\<close>

definition try_bind :: "('s, 'e + 'a) state \<Rightarrow> ('a \<Rightarrow> ('s, 'e + 'b) state) \<Rightarrow> ('s, 'e + 'b) state" where
  "try_bind m f = State_Monad.bind m (\<lambda>r. case r of Inl e \<Rightarrow> State_Monad.return (Inl e) | Inr a \<Rightarrow> f a)"

text \<open>
  A transaction: BEGIN, the body, COMMIT. When one of them fails the deferred Rollback leaves the
  tables as they were (clock readings and used-up failures are not undone).
\<close>

definition transaction :: "('z, 'a) db_op \<Rightarrow> ('z, 'a) db_op" where
  "transaction body = State (\<lambda>h.
     case run_state (try_bind (query id) (\<lambda>_. try_bind body (\<lambda>a. query (\<lambda>_. a)))) h of
       (Inl e, h') \<Rightarrow> (Inl e, h'\<lparr>h_db := h_db h\<rparr>)
     | (Inr a, h') \<Rightarrow> (Inr a, h'))"

section \<open>How programs change the tables\<close>

text \<open>Running the primitives.\<close>

lemma run_now [run_simps]:
  "run_state now h = (h_clock h (h_ticks h), h\<lparr>h_ticks := Suc (h_ticks h)\<rparr>)"
  by (simp add: now_def)

lemma run_now_text [run_simps]:
  "run_state now_text h = (format_time (h_clock h (h_ticks h)), h\<lparr>h_ticks := Suc (h_ticks h)\<rparr>)"
  by (simp add: now_text_def run_simps)

lemma run_fault [run_simps]:
  "run_state fault h = (case h_faults h of [] \<Rightarrow> (False, h) | b # bs \<Rightarrow> (b, h\<lparr>h_faults := bs\<rparr>))"
  by (simp add: fault_def)

text \<open>The tables are the only part of a host an invariant of the store speaks of.\<close>

definition on_db :: "(db \<Rightarrow> bool) \<Rightarrow> 'z host_scheme \<Rightarrow> bool" where
  "on_db P h \<longleftrightarrow> P (h_db h)"

lemma on_db_more [simp]:
  "on_db P (h\<lparr>h_ticks := n\<rparr>) = on_db P h" "on_db P (h\<lparr>h_faults := bs\<rparr>) = on_db P h"
  "on_db P (h\<lparr>h_db := d\<rparr>) = P d"
  by (simp_all add: on_db_def)

lemma keeps_now [keep_intros]: "keeps (on_db P) now"
  by (rule keepsI) (simp add: run_simps)

lemma keeps_fault [keep_intros]: "keeps (on_db P) fault"
  by (rule keepsI) (simp add: run_simps split: list.split)

lemma keeps_now_text [keep_intros]: "keeps (on_db P) now_text"
  unfolding now_text_def by (intro keep_intros)

lemma keeps_query [keep_intros]: "keeps (on_db P) (query f)"
  unfolding query_def by (intro keep_intros)

lemma keeps_exec:
  assumes "\<And>d a d'. P d \<Longrightarrow> f d = Inr (a, d') \<Longrightarrow> P d'"
  shows "keeps (on_db P) (exec f)"
  unfolding exec_def
  by (intro keep_intros keepsI) (auto simp: on_db_def split: sum.split prod.split intro: assms)

lemma keeps_try_bind [keep_intros]:
  assumes "keeps I m" and "\<And>a. keeps I (f a)"
  shows "keeps I (try_bind m f)"
  unfolding try_bind_def by (intro keep_intros assms)

lemma keeps_transaction [keep_intros]:
  assumes "keeps (on_db P) body"
  shows "keeps (on_db P) (transaction body)"
proof (rule keepsI)
  fix h :: "'a host_scheme" assume h: "on_db P h"
  let ?m = "try_bind (query id) (\<lambda>_. try_bind body (\<lambda>a. query (\<lambda>_. a)))"
  have "keeps (on_db P) ?m" by (intro keep_intros assms)
  from keepsD [OF this h] have "on_db P (snd (run_state ?m h))" .
  with h show "on_db P (snd (run_state (transaction body) h))"
    by (auto simp: transaction_def on_db_def split: prod.split sum.split)
qed

text \<open>A transaction that reports an error has changed no table.\<close>

lemma transaction_rollback:
  assumes "run_state (transaction body) h = (Inl e, h')"
  shows "h_db h' = h_db h"
  using assms by (auto simp: transaction_def split: prod.splits sum.splits)

lemma try_bind_Inr:
  assumes "run_state (try_bind m f) s = (Inr b, s')"
  obtains a t where "run_state m s = (Inr a, t)" "run_state (f a) t = (Inr b, s')"
  using assms by (auto simp: try_bind_def run_simps split: prod.splits sum.splits)

lemma query_Inr:
  assumes "run_state (query f) h = (Inr a, h')"
  shows "a = f (h_db h)" "h_db h' = h_db h" "h_clock h' = h_clock h" "h_ticks h' = h_ticks h"
  using assms by (auto simp: query_def run_simps split: list.splits if_splits)

lemma now_text_bind:
  assumes "run_state (State_Monad.bind now_text f) h = (r, h')"
  obtains g t where "run_state (f t) g = (r, h')" "h_db g = h_db h" "h_clock g = h_clock h"
    "h_ticks h \<le> h_ticks g" "t = format_time (h_clock h (h_ticks h))"
  using assms by (auto simp: run_simps)

text \<open>A transaction that succeeds has run its body once, on the tables it found.\<close>

lemma transaction_commit:
  assumes "run_state (transaction body) h = (Inr a, h')"
  obtains h1 h2 where "run_state body h1 = (Inr a, h2)" "h_db h1 = h_db h" "h_db h' = h_db h2"
    "h_clock h1 = h_clock h" "h_ticks h1 = h_ticks h"
proof -
  have "run_state (try_bind (query id) (\<lambda>_. try_bind body (\<lambda>a. query (\<lambda>_. a)))) h = (Inr a, h')"
    using assms by (auto simp: transaction_def split: prod.splits sum.splits)
  then obtain u h1 where 1: "run_state (query id) h = (Inr u, h1)"
    and "run_state (try_bind body (\<lambda>a. query (\<lambda>_. a))) h1 = (Inr a, h')"
    by (rule try_bind_Inr)
  from this(2) obtain b h2 where 2: "run_state body h1 = (Inr b, h2)"
    and 3: "run_state (query (\<lambda>_. b)) h2 = (Inr a, h')"
    by (rule try_bind_Inr)
  show thesis
    by (rule that [of h1 h2]) (use 2 query_Inr [OF 1] query_Inr [OF 3] in simp_all)
qed

lemma query_db [simp]: "h_db (snd (run_state (query f) h)) = h_db h"
  by (auto simp: query_def run_simps split: list.split prod.split)

lemma exec_Inl: "run_state (exec f) h = (Inl e, h') \<Longrightarrow> h_db h' = h_db h"
  by (auto simp: exec_def run_simps split: prod.splits sum.splits list.splits if_splits)

lemma exec_Inr:
  assumes "run_state (exec f) h = (Inr a, h')"
  shows "f (h_db h) = Inr (a, h_db h')" and "h_clock h' = h_clock h" and "h_ticks h' = h_ticks h"
  using assms by (auto simp: exec_def run_simps split: prod.splits sum.splits list.splits if_splits)

end
