(* ===== verification/Store.thy ===== *)
theory Store
  imports StoreDb
begin

text \<open>
  internal/store/sqlite.go: the operations of the store, one definition per method. The text of
  every SQL statement is a function on the tables; the methods read the clock, run their
  statements and convert rows, in the order of the code.
\<close>

section \<open>Columns and rows\<close>

definition bool_int :: "bool \<Rightarrow> int" where
  "bool_int v = (if v then 1 else 0)"

lemma bool_int_eq [simp]: "bool_int v = 0 \<longleftrightarrow> \<not> v" "bool_int v = 1 \<longleftrightarrow> v"
  by (simp_all add: bool_int_def)

definition truncate_text :: "string \<Rightarrow> nat \<Rightarrow> string" where
  "truncate_text v n = (let t = trim_space v in if n < length t then take n t else t)"

lemma length_truncate_text: "length (truncate_text v n) \<le> n"
  by (simp add: truncate_text_def Let_def)

definition parse_time :: "string \<Rightarrow> time" where
  "parse_time s = (case parse_rfc3339 s of Some t \<Rightarrow> t | None \<Rightarrow> zero_time)"

definition parse_null_time :: "string option \<Rightarrow> time option" where
  "parse_null_time v = (case v of None \<Rightarrow> None | Some s \<Rightarrow> if s = [] then None else Some (parse_time s))"

text \<open>The name of the master principal, in UTF-8.\<close>

definition master_name :: string where
  "master_name = [CHR 0xE4, CHR 0xB8, CHR 0xBB, CHR 0xE8, CHR 0xAE, CHR 0xBF, CHR 0xE9, CHR 0x97, CHR 0xAE,
                  CHR 0xE5, CHR 0xAF, CHR 0x86, CHR 0xE9, CHR 0x92, CHR 0xA5]"

definition scan_key :: "key_row \<Rightarrow> key" where
  "scan_key r =
     \<lparr>k_id = kr_id r, k_name = kr_name r, k_encrypted = kr_encrypted r, k_fingerprint = kr_fingerprint r,
      k_priority = kr_priority r, k_enabled = (kr_enabled r \<noteq> 0), k_auth = kr_auth r, k_quota = kr_quota r,
      k_control = kr_control r, k_role = kr_role r, k_window = kr_window r,
      k_cooling = parse_null_time (kr_cooling r), k_error = kr_error r,
      k_used = parse_null_time (kr_used r), k_checked = parse_null_time (kr_checked r),
      k_override = map_option (\<lambda>v. v \<noteq> 0) (kr_override r),
      k_created = parse_time (kr_created r), k_updated = parse_time (kr_updated r)\<rparr>"

lemma scan_key_simps [simp]:
  "k_id (scan_key r) = kr_id r" "k_name (scan_key r) = kr_name r" "k_encrypted (scan_key r) = kr_encrypted r"
  "k_fingerprint (scan_key r) = kr_fingerprint r" "k_priority (scan_key r) = kr_priority r"
  "k_enabled (scan_key r) = (kr_enabled r \<noteq> 0)" "k_auth (scan_key r) = kr_auth r"
  "k_quota (scan_key r) = kr_quota r" "k_control (scan_key r) = kr_control r"
  "k_role (scan_key r) = kr_role r" "k_error (scan_key r) = kr_error r" "k_window (scan_key r) = kr_window r"
  by (simp_all add: scan_key_def)

section \<open>The order of the keys\<close>

text \<open>ORDER BY a class, then the priority, then the id.\<close>

datatype rank = Rank (rk_class: int) (rk_priority: int) (rk_id: int)

lemma rank_eq_iff:
  "a = b \<longleftrightarrow> rk_class a = rk_class b \<and> rk_priority a = rk_priority b \<and> rk_id a = rk_id b"
  by (cases a; cases b) simp

instantiation rank :: linorder
begin

definition less_rank :: "rank \<Rightarrow> rank \<Rightarrow> bool" where
  "less_rank a b \<longleftrightarrow>
     rk_class a < rk_class b \<or> rk_class a = rk_class b \<and>
     (rk_priority a < rk_priority b \<or> rk_priority a = rk_priority b \<and> rk_id a < rk_id b)"

definition less_eq_rank :: "rank \<Rightarrow> rank \<Rightarrow> bool" where
  "less_eq_rank a b \<longleftrightarrow> a < b \<or> a = (b :: rank)"

instance
  by standard (auto simp: less_rank_def less_eq_rank_def rank_eq_iff)

end

lemma Rank_le [simp]:
  "Rank c p i \<le> Rank c' p' i' \<longleftrightarrow> c < c' \<or> c = c' \<and> (p < p' \<or> p = p' \<and> i \<le> i')"
  by (auto simp: less_eq_rank_def less_rank_def)

definition list_rank :: "key_row \<Rightarrow> rank" where
  "list_rank r = Rank 0 (kr_priority r) (kr_id r)"

definition route_rank :: "key_row \<Rightarrow> rank" where
  "route_rank r = Rank (if kr_role r = ''active'' then 0 else 1) (kr_priority r) (kr_id r)"

definition control_rank :: "key_row \<Rightarrow> rank" where
  "control_rank r = Rank (if kr_control r = ''reachable'' then 0 else 1) (kr_priority r) (kr_id r)"

definition eligible_row :: "key_row \<Rightarrow> bool" where
  "eligible_row r \<longleftrightarrow> kr_enabled r = 1 \<and> kr_auth r \<noteq> ''invalid'' \<and> kr_quota r \<noteq> ''cooling''"

definition auth_valid_row :: "key_row \<Rightarrow> bool" where
  "auth_valid_row r \<longleftrightarrow> kr_enabled r = 1 \<and> kr_auth r \<noteq> ''invalid''"

section \<open>Statements\<close>

definition update_keys :: "(key_row \<Rightarrow> bool) \<Rightarrow> (key_row \<Rightarrow> key_row) \<Rightarrow> db \<Rightarrow> db" where
  "update_keys P f d = d\<lparr>db_keys := map (\<lambda>r. if P r then f r else r) (db_keys d)\<rparr>"

definition has_key :: "db \<Rightarrow> int \<Rightarrow> bool" where
  "has_key d i \<longleftrightarrow> list_ex (\<lambda>r. kr_id r = i) (db_keys d)"

definition has_request :: "db \<Rightarrow> string \<Rightarrow> bool" where
  "has_request d i \<longleftrightarrow> list_ex (\<lambda>r. pr_id r = i) (db_requests d)"

definition insert_key :: "string \<Rightarrow> key \<Rightarrow> db \<Rightarrow> db_error + int \<times> db" where
  "insert_key t k d =
     (if list_ex (\<lambda>r. kr_fingerprint r = k_fingerprint k) (db_keys d) then Inl UniqueFailed
      else let i = db_key_seq d + 1 in
        Inr (i, d\<lparr>db_key_seq := i,
          db_keys := db_keys d @
            [\<lparr>kr_id = i, kr_name = k_name k, kr_encrypted = k_encrypted k, kr_fingerprint = k_fingerprint k,
              kr_priority = k_priority k, kr_enabled = bool_int (k_enabled k), kr_auth = k_auth k,
              kr_quota = k_quota k, kr_control = k_control k, kr_role = ''standby'', kr_window = [],
              kr_cooling = None, kr_error = [], kr_used = None, kr_checked = None, kr_override = None,
              kr_created = t, kr_updated = t\<rparr>]\<rparr>))"

text \<open>DELETE with the actions of the foreign keys: cascade, or set null.\<close>

definition remove_key :: "int \<Rightarrow> db \<Rightarrow> db" where
  "remove_key i d =
     d\<lparr>db_keys := filter (\<lambda>r. kr_id r \<noteq> i) (db_keys d),
       db_attempts := filter (\<lambda>a. ar_key a \<noteq> i) (db_attempts d),
       db_events := filter (\<lambda>q. qr_key q \<noteq> i) (db_events d),
       db_requests := map (\<lambda>r. if pr_final_key r = Some i then r\<lparr>pr_final_key := None\<rparr> else r) (db_requests d),
       db_cache := map_option (\<lambda>c. if mc_source c = Some i then c\<lparr>mc_source := None\<rparr> else c) (db_cache d)\<rparr>"

definition remove_requests :: "string \<Rightarrow> db \<Rightarrow> db" where
  "remove_requests before d =
     (let gone = (\<lambda>i. \<exists>r \<in> set (db_requests d). pr_id r = i \<and> pr_started r < before) in
      d\<lparr>db_requests := filter (\<lambda>r. \<not> pr_started r < before) (db_requests d),
        db_attempts := filter (\<lambda>a. \<not> gone (ar_request a)) (db_attempts d)\<rparr>)"

definition insert_event :: "quota_row \<Rightarrow> db \<Rightarrow> db_error + unit \<times> db" where
  "insert_event q d =
     (if has_key d (qr_key q) then Inr ((), d\<lparr>db_events := db_events d @ [q]\<rparr>) else Inl ForeignKeyFailed)"

definition insert_request :: "request_row \<Rightarrow> db \<Rightarrow> db_error + unit \<times> db" where
  "insert_request r d =
     (if has_request d (pr_id r) then Inl UniqueFailed
      else Inr ((), d\<lparr>db_requests := db_requests d @ [r]\<rparr>))"

definition insert_attempt :: "attempt_row \<Rightarrow> db \<Rightarrow> db_error + unit \<times> db" where
  "insert_attempt a d =
     (if has_request d (ar_request a) \<and> has_key d (ar_key a)
      then Inr ((), d\<lparr>db_attempts := db_attempts d @ [a]\<rparr>) else Inl ForeignKeyFailed)"

definition key_ref_ok :: "db \<Rightarrow> int option \<Rightarrow> bool" where
  "key_ref_ok d v \<longleftrightarrow> (case v of None \<Rightarrow> True | Some i \<Rightarrow> has_key d i)"

definition update_request :: "string \<Rightarrow> int option \<Rightarrow> (request_row \<Rightarrow> request_row) \<Rightarrow> db \<Rightarrow> db_error + unit \<times> db" where
  "update_request i final f d =
     (if has_request d i \<and> \<not> key_ref_ok d final then Inl ForeignKeyFailed
      else Inr ((), d\<lparr>db_requests :=
        map (\<lambda>r. if pr_id r = i then f (r\<lparr>pr_final_key := final\<rparr>) else r) (db_requests d)\<rparr>))"

definition put_cache :: "cache_row \<Rightarrow> db \<Rightarrow> db_error + unit \<times> db" where
  "put_cache c d =
     (if key_ref_ok d (mc_source c) then Inr ((), d\<lparr>db_cache := Some c\<rparr>) else Inl ForeignKeyFailed)"

section \<open>Keys\<close>

definition ok :: "'a \<Rightarrow> ('s, 'e + 'a) state" where
  "ok a = State_Monad.return (Inr a)"

definition fail :: "'e \<Rightarrow> ('s, 'e + 'a) state" where
  "fail e = State_Monad.return (Inl e)"

text \<open>QueryRow and Scan: an error when there is no row.\<close>

definition query_row :: "(db \<Rightarrow> 'r option) \<Rightarrow> ('z, 'r) db_op" where
  "query_row f = try_bind (query f) (\<lambda>r. case r of None \<Rightarrow> fail NoRows | Some v \<Rightarrow> ok v)"

definition key_by_id :: "int \<Rightarrow> ('z, key) db_op" where
  "key_by_id i = query_row (\<lambda>d. map_option scan_key (find (\<lambda>r. kr_id r = i) (db_keys d)))"

definition key_by_fingerprint :: "string \<Rightarrow> ('z, key) db_op" where
  "key_by_fingerprint fp =
     query_row (\<lambda>d. map_option scan_key (find (\<lambda>r. kr_fingerprint r = fp) (db_keys d)))"

definition create_key :: "key \<Rightarrow> ('z, key) db_op" where
  "create_key k = do {
     t \<leftarrow> now_text;
     try_bind (exec (insert_key t k)) key_by_id }"

definition list_keys :: "('z, key list) db_op" where
  "list_keys = query (\<lambda>d. map scan_key (sort_key list_rank (db_keys d)))"

definition update_key :: "int \<Rightarrow> string \<Rightarrow> int \<Rightarrow> bool \<Rightarrow> bool option \<Rightarrow> ('z, key) db_op" where
  "update_key i name priority enabled override = do {
     t \<leftarrow> now_text;
     try_bind
       (exec (\<lambda>d. Inr ((), update_keys (\<lambda>r. kr_id r = i)
          (\<lambda>r. r\<lparr>kr_name := name, kr_priority := priority, kr_enabled := bool_int enabled,
                 kr_override := map_option bool_int override,
                 kr_role := (if bool_int enabled = 0 then ''standby'' else kr_role r),
                 kr_updated := t\<rparr>) d)))
       (\<lambda>_. key_by_id i) }"

definition delete_key :: "int \<Rightarrow> ('z, unit) db_op" where
  "delete_key i = exec (\<lambda>d. Inr ((), remove_key i d))"

definition demote :: "string \<Rightarrow> db \<Rightarrow> db" where
  "demote t d = update_keys (\<lambda>r. kr_role r = ''active'') (\<lambda>r. r\<lparr>kr_role := ''standby'', kr_updated := t\<rparr>) d"

definition promotable :: "int \<Rightarrow> key_row \<Rightarrow> bool" where
  "promotable i r \<longleftrightarrow> kr_id r = i \<and> kr_enabled r = 1"

definition promote :: "int \<Rightarrow> string \<Rightarrow> db \<Rightarrow> db" where
  "promote i t d = update_keys (promotable i) (\<lambda>r. r\<lparr>kr_role := ''active'', kr_updated := t\<rparr>) d"

definition promote_one :: "int \<Rightarrow> ('z, unit) db_op" where
  "promote_one i = do {
     t2 \<leftarrow> now_text;
     try_bind (exec (\<lambda>d. Inr (length (filter (promotable i) (db_keys d)), promote i t2 d)))
       (\<lambda>n. if n \<noteq> 1 then fail NoRows else ok ()) }"

definition set_active :: "int \<Rightarrow> ('z, unit) db_op" where
  "set_active i = transaction (do {
     t1 \<leftarrow> now_text;
     try_bind (exec (\<lambda>d. Inr ((), demote t1 d))) (\<lambda>_. promote_one i) })"

definition mark_checked :: "int \<Rightarrow> string \<Rightarrow> string \<Rightarrow> string \<Rightarrow> string \<Rightarrow> ('z, unit) db_op" where
  "mark_checked i auth control quota err = do {
     t1 \<leftarrow> now_text;
     t2 \<leftarrow> now_text;
     exec (\<lambda>d. Inr ((), update_keys (\<lambda>r. kr_id r = i)
       (\<lambda>r. r\<lparr>kr_auth := auth, kr_control := control,
              kr_quota := (if quota = [] then kr_quota r else quota),
              kr_error := truncate_text err 1000, kr_checked := Some t1, kr_updated := t2\<rparr>) d)) }"

definition mark_used :: "int \<Rightarrow> ('z, unit) db_op" where
  "mark_used i = do {
     t1 \<leftarrow> now_text;
     t2 \<leftarrow> now_text;
     exec (\<lambda>d. Inr ((), update_keys (\<lambda>r. kr_id r = i)
       (\<lambda>r. r\<lparr>kr_auth := ''valid'', kr_control := ''reachable'', kr_quota := ''available'',
              kr_window := [], kr_cooling := None, kr_error := [],
              kr_used := Some t1, kr_updated := t2\<rparr>) d)) }"

definition mark_invalid :: "int \<Rightarrow> string \<Rightarrow> ('z, unit) db_op" where
  "mark_invalid i message = do {
     t1 \<leftarrow> now_text;
     t2 \<leftarrow> now_text;
     exec (\<lambda>d. Inr ((), update_keys (\<lambda>r. kr_id r = i)
       (\<lambda>r. r\<lparr>kr_auth := ''invalid'', kr_role := ''standby'', kr_error := truncate_text message 1000,
              kr_checked := Some t1, kr_updated := t2\<rparr>) d)) }"

definition mark_quota :: "int \<Rightarrow> string \<Rightarrow> time option \<Rightarrow> string \<Rightarrow> ('z, unit) db_op" where
  "mark_quota i window reset_at message = transaction (do {
     t1 \<leftarrow> now_text;
     t2 \<leftarrow> now_text;
     try_bind
       (exec (\<lambda>d. Inr ((), update_keys (\<lambda>r. kr_id r = i)
          (\<lambda>r. r\<lparr>kr_quota := ''cooling'', kr_role := ''standby'', kr_window := window,
                 kr_cooling := map_option format_time reset_at, kr_error := truncate_text message 1000,
                 kr_checked := Some t1, kr_updated := t2\<rparr>) d)))
       (\<lambda>_. do {
          t3 \<leftarrow> now_text;
          exec (insert_event
            \<lparr>qr_key = i, qr_window = window, qr_detected = t3, qr_reset = map_option format_time reset_at,
             qr_message = truncate_text message 1000\<rparr>) }) })"

definition due_row :: "string \<Rightarrow> key_row \<Rightarrow> bool" where
  "due_row t r \<longleftrightarrow>
     kr_quota r = ''cooling'' \<and> (case kr_cooling r of None \<Rightarrow> False | Some c \<Rightarrow> c \<le> t)"

definition open_due :: "string \<Rightarrow> string \<Rightarrow> db \<Rightarrow> db" where
  "open_due t1 t2 d = update_keys (due_row t2) (\<lambda>r. r\<lparr>kr_quota := ''half_open'', kr_updated := t1\<rparr>) d"

definition mark_half_open_due :: "('z, unit) db_op" where
  "mark_half_open_due = do {
     t1 \<leftarrow> now_text;
     t2 \<leftarrow> now_text;
     exec (\<lambda>d. Inr ((), open_due t1 t2 d)) }"

definition route_order :: "key_row list \<Rightarrow> key list" where
  "route_order rows = map scan_key (sort_key route_rank (filter eligible_row rows))"

definition eligible_keys :: "('z, key list) db_op" where
  "eligible_keys = query (\<lambda>d. route_order (db_keys d))"

definition auth_valid_keys :: "('z, key list) db_op" where
  "auth_valid_keys = query (\<lambda>d. map scan_key (sort_key control_rank (filter auth_valid_row (db_keys d))))"

section \<open>Settings\<close>

definition get_settings :: "('z, settings) db_op" where
  "get_settings = query (\<lambda>d. let s = db_settings d in
     \<lparr>st_auto_probe = (sr_auto_probe s \<noteq> 0), st_force_usage = (sr_force_usage s \<noteq> 0),
      st_probe_model = sr_probe_model s, st_probe_interval = sr_probe_interval s,
      st_models_cache = sr_models_cache s\<rparr>)"

text \<open>What GetSettings returns beside an error: the zero value.\<close>

definition zero_settings :: settings where
  "zero_settings = \<lparr>st_auto_probe = False, st_force_usage = False, st_probe_model = [],
     st_probe_interval = 0, st_models_cache = 0\<rparr>"

definition update_settings :: "settings \<Rightarrow> ('z, unit) db_op" where
  "update_settings v = exec (\<lambda>d. Inr ((), d\<lparr>db_settings :=
     \<lparr>sr_auto_probe = bool_int (st_auto_probe v), sr_force_usage = bool_int (st_force_usage v),
      sr_probe_model = st_probe_model v, sr_probe_interval = st_probe_interval v,
      sr_models_cache = st_models_cache v\<rparr>\<rparr>))"

section \<open>Requests and attempts\<close>

definition begin_request :: "request_record \<Rightarrow> ('z, unit) db_op" where
  "begin_request r =
     exec (insert_request
       \<lparr>pr_id = rq_id r, pr_started = format_time (rq_started r), pr_finished = None,
        pr_client = (if rq_client r = [] then ''master'' else rq_client r),
        pr_client_name = (if rq_client_name r = [] then master_name else rq_client_name r),
        pr_protocol = rq_protocol r, pr_model = rq_model r, pr_stream = bool_int (rq_stream r),
        pr_bytes = rq_bytes r, pr_messages = rq_messages r, pr_tools = rq_tools r,
        pr_final_key = None, pr_attempts = 0, pr_status = 0, pr_outcome = [], pr_error = [],
        pr_latency = 0, pr_ttft = None, pr_uncached = None, pr_cache_read = None, pr_cache_write = None,
        pr_output = None, pr_reasoning = None, pr_total_input = None, pr_total = None,
        pr_usage_state = ''unavailable'', pr_raw = []\<rparr>)"

definition add_attempt :: "attempt_record \<Rightarrow> ('z, unit) db_op" where
  "add_attempt a =
     exec (insert_attempt
       \<lparr>ar_request = at_request a, ar_key = at_key a, ar_no = at_no a,
        ar_started = format_time (at_started a), ar_finished = format_time (at_finished a),
        ar_status = at_status a, ar_outcome = at_outcome a, ar_error = at_error a,
        ar_upstream = at_upstream a, ar_latency = at_latency a\<rparr>)"

definition finish_request :: "request_record \<Rightarrow> usage \<Rightarrow> ('z, unit) db_op" where
  "finish_request r u =
     exec (update_request (rq_id r) (rq_final_key r) (\<lambda>row. row
       \<lparr>pr_finished := map_option format_time (rq_finished r), pr_attempts := rq_attempts r,
        pr_status := rq_status r, pr_outcome := rq_outcome r, pr_error := rq_error r,
        pr_latency := rq_latency r, pr_ttft := rq_ttft r, pr_uncached := us_uncached u,
        pr_cache_read := us_cache_read u, pr_cache_write := us_cache_write u, pr_output := us_output u,
        pr_reasoning := us_reasoning u, pr_total_input := us_total_input u, pr_total := us_total u,
        pr_usage_state := us_state u, pr_raw := us_raw u\<rparr>))"

definition rename_request_client :: "string \<Rightarrow> string \<Rightarrow> ('z, unit) db_op" where
  "rename_request_client i name =
     exec (\<lambda>d. Inr ((), d\<lparr>db_requests :=
       map (\<lambda>r. if pr_client r = i then r\<lparr>pr_client_name := name\<rparr> else r) (db_requests d)\<rparr>))"

definition purge_before :: "time \<Rightarrow> ('z, unit) db_op" where
  "purge_before before = exec (\<lambda>d. Inr ((), remove_requests (format_time before) d))"

section \<open>The model catalog\<close>

definition save_model_cache :: "string \<Rightarrow> int \<Rightarrow> ('z, unit) db_op" where
  "save_model_cache body i = do {
     t \<leftarrow> now_text;
     exec (put_cache \<lparr>mc_body = body, mc_fetched = t, mc_source = Some i\<rparr>) }"

definition model_cache :: "('z, string \<times> time) db_op" where
  "model_cache = query_row (\<lambda>d. map_option (\<lambda>c. (mc_body c, parse_time (mc_fetched c))) (db_cache d))"

end
