(* ===== verification/StoreInv.thy ===== *)
theory StoreInv
  imports Store
begin

text \<open>
  What is true of the tables at every moment: ids and fingerprints of keys are unique, at most one
  key is active and that key is enabled, and no row refers to a key or a request that is gone.
  Every method of the store keeps it, whatever its arguments and whichever statements fail.
\<close>

section \<open>Well-formed tables\<close>

definition active_rows :: "key_row list \<Rightarrow> key_row list" where
  "active_rows rows = filter (\<lambda>r. kr_role r = ''active'') rows"

definition rows_ok :: "key_row list \<Rightarrow> bool" where
  "rows_ok rows \<longleftrightarrow>
     distinct (map kr_id rows) \<and> distinct (map kr_fingerprint rows) \<and>
     length (active_rows rows) \<le> 1 \<and>
     list_all (\<lambda>r. (kr_enabled r = 0 \<or> kr_enabled r = 1) \<and> (kr_role r = ''active'' \<longrightarrow> kr_enabled r = 1)) rows"

definition refs_ok :: "db \<Rightarrow> bool" where
  "refs_ok d \<longleftrightarrow>
     list_all (\<lambda>a. has_request d (ar_request a) \<and> has_key d (ar_key a)) (db_attempts d) \<and>
     list_all (\<lambda>q. has_key d (qr_key q)) (db_events d) \<and>
     list_all (\<lambda>r. key_ref_ok d (pr_final_key r)) (db_requests d) \<and>
     (case db_cache d of None \<Rightarrow> True | Some c \<Rightarrow> key_ref_ok d (mc_source c))"

definition db_ok :: "db \<Rightarrow> bool" where
  "db_ok d \<longleftrightarrow>
     rows_ok (db_keys d) \<and> list_all (\<lambda>r. kr_id r \<le> db_key_seq d) (db_keys d) \<and>
     distinct (map pr_id (db_requests d)) \<and> refs_ok d"

lemma migrated_ok: "db_ok migrated"
  by (simp add: db_ok_def migrated_def rows_ok_def refs_ok_def active_rows_def)

section \<open>Updates that activate no key\<close>

text \<open>The update changes neither id nor secret nor fingerprint, and makes no row active.\<close>

definition tame :: "(key_row \<Rightarrow> key_row) \<Rightarrow> bool" where
  "tame f \<longleftrightarrow> (\<forall>r. kr_id (f r) = kr_id r \<and> kr_fingerprint (f r) = kr_fingerprint r \<and>
     kr_encrypted (f r) = kr_encrypted r \<and>
     (kr_role (f r) = ''active'' \<longrightarrow> kr_role r = ''active'' \<and> (kr_enabled r = 1 \<longrightarrow> kr_enabled (f r) = 1)) \<and>
     (kr_enabled (f r) = 0 \<or> kr_enabled (f r) = 1 \<or> kr_enabled (f r) = kr_enabled r))"

lemma active_rows_map:
  assumes "\<And>r. kr_role (f r) = ''active'' \<Longrightarrow> kr_role r = ''active''"
  shows "length (active_rows (map f rows)) \<le> length (active_rows rows)"
  using assms by (induction rows) (auto simp: active_rows_def le_SucI)

lemma rows_ok_update:
  assumes "rows_ok rows" "tame f"
  shows "rows_ok (map (\<lambda>r. if P r then f r else r) rows)"
proof -
  let ?g = "\<lambda>r. if P r then f r else r"
  have "kr_role (?g r) = ''active'' \<Longrightarrow> kr_role r = ''active''" for r
    using assms(2) by (auto simp: tame_def split: if_splits)
  then have "length (active_rows (map ?g rows)) \<le> length (active_rows rows)"
    by (rule active_rows_map)
  moreover have ids: "map kr_id (map ?g rows) = map kr_id rows"
    and prints: "map kr_fingerprint (map ?g rows) = map kr_fingerprint rows"
    using assms(2) by (auto simp: tame_def)
  moreover have "list_all (\<lambda>r. (kr_enabled r = 0 \<or> kr_enabled r = 1) \<and>
      (kr_role r = ''active'' \<longrightarrow> kr_enabled r = 1)) (map ?g rows)"
    using assms by (fastforce simp: tame_def rows_ok_def list_all_iff)
  ultimately show ?thesis using assms(1) unfolding rows_ok_def ids prints by linarith
qed

lemma has_key_update_keys [simp]:
  "(\<And>r. kr_id (f r) = kr_id r) \<Longrightarrow> has_key (update_keys P f d) = has_key d"
  by (auto simp: has_key_def update_keys_def list_ex_iff fun_eq_iff)

lemma refs_ok_cong:
  assumes "has_key d' = has_key d" "has_request d' = has_request d"
    and "db_attempts d' = db_attempts d" "db_events d' = db_events d" "db_requests d' = db_requests d"
    and "db_cache d' = db_cache d"
  shows "refs_ok d' = refs_ok d"
  by (simp add: refs_ok_def key_ref_ok_def assms cong: option.case_cong)

lemma update_keys_simps [simp]:
  "db_keys (update_keys P f d) = map (\<lambda>r. if P r then f r else r) (db_keys d)"
  "db_key_seq (update_keys P f d) = db_key_seq d" "db_settings (update_keys P f d) = db_settings d"
  "db_attempts (update_keys P f d) = db_attempts d" "db_events (update_keys P f d) = db_events d"
  "db_requests (update_keys P f d) = db_requests d" "db_cache (update_keys P f d) = db_cache d"
  "has_request (update_keys P f d) = has_request d"
  by (simp_all add: update_keys_def has_request_def fun_eq_iff)

text \<open>An update of rows that keeps their ids keeps what the other tables refer to.\<close>

lemma db_ok_keys:
  assumes "db_ok d" "\<And>r. kr_id (f r) = kr_id r" "rows_ok (db_keys (update_keys P f d))"
  shows "db_ok (update_keys P f d)"
proof -
  have "refs_ok (update_keys P f d) = refs_ok d"
    by (rule refs_ok_cong) (simp_all add: assms(2))
  with assms show ?thesis by (auto simp: db_ok_def list_all_iff)
qed

lemma db_ok_update: "db_ok d \<Longrightarrow> tame f \<Longrightarrow> db_ok (update_keys P f d)"
  by (rule db_ok_keys) (auto simp: db_ok_def tame_def intro!: rows_ok_update)

section \<open>The other statements\<close>

lemma has_key_iff: "has_key d i \<longleftrightarrow> i \<in> kr_id ` set (db_keys d)"
  by (auto simp: has_key_def list_ex_iff)

lemma has_request_iff: "has_request d i \<longleftrightarrow> i \<in> pr_id ` set (db_requests d)"
  by (auto simp: has_request_def list_ex_iff)

text \<open>What other rows refer to stays when keys and requests are only added.\<close>

lemma refs_ok_mono:
  assumes "refs_ok d" "\<And>i. has_key d i \<Longrightarrow> has_key d' i" "\<And>i. has_request d i \<Longrightarrow> has_request d' i"
    and "set (db_attempts d') \<subseteq> set (db_attempts d)" "set (db_events d') \<subseteq> set (db_events d)"
    and "pr_final_key ` set (db_requests d') \<subseteq> insert None (pr_final_key ` set (db_requests d))"
    and "db_cache d' = db_cache d"
  shows "refs_ok d'"
proof -
  have mono: "key_ref_ok d v \<Longrightarrow> key_ref_ok d' v" for v
    using assms(2) by (auto simp: key_ref_ok_def split: option.splits)
  have "key_ref_ok d' v" if "v \<in> pr_final_key ` set (db_requests d')" for v
  proof (cases "v = None")
    case False
    then have "v \<in> pr_final_key ` set (db_requests d)" using subsetD [OF assms(6) that] by (elim insertE) simp_all
    moreover have "\<forall>r \<in> set (db_requests d). key_ref_ok d (pr_final_key r)"
      using assms(1) by (simp add: refs_ok_def list_all_iff)
    ultimately have "key_ref_ok d v" by blast
    then show ?thesis by (rule mono)
  qed (simp add: key_ref_ok_def)
  then have "key_ref_ok d' (pr_final_key r)" if "r \<in> set (db_requests d')" for r
    using that by blast
  moreover have "has_request d' (ar_request a) \<and> has_key d' (ar_key a)" if "a \<in> set (db_attempts d')" for a
    using assms(1,2,3,4) that unfolding refs_ok_def list_all_iff by blast
  moreover have "has_key d' (qr_key q)" if "q \<in> set (db_events d')" for q
    using assms(1,2,5) that unfolding refs_ok_def list_all_iff by blast
  ultimately show ?thesis
    using assms(1,7) mono unfolding refs_ok_def list_all_iff by (auto split: option.splits)
qed

lemma db_ok_insert_key:
  assumes "db_ok d" "insert_key t k d = Inr (i, d')"
  shows "db_ok d'"
proof -
  obtain r where d': "d' = d\<lparr>db_key_seq := db_key_seq d + 1, db_keys := db_keys d @ [r]\<rparr>"
    and r: "kr_id r = db_key_seq d + 1" "kr_fingerprint r \<notin> kr_fingerprint ` set (db_keys d)"
      "kr_role r = ''standby''" "kr_enabled r = 0 \<or> kr_enabled r = 1"
    using assms(2) by (force simp: insert_key_def Let_def list_ex_iff bool_int_def split: if_splits)
  have "rows_ok (db_keys d @ [r])"
    using assms(1) r by (auto simp: db_ok_def rows_ok_def active_rows_def list_all_iff)
  moreover have "refs_ok d'"
    by (rule refs_ok_mono [of d]) (use assms(1) d' in \<open>auto simp: db_ok_def has_key_iff has_request_iff\<close>)
  ultimately show ?thesis using assms(1) r(1) by (auto simp: db_ok_def d' list_all_iff)
qed

lemma rows_ok_filter: "rows_ok rows \<Longrightarrow> rows_ok (filter P rows)"
  using length_filter_le [of P "active_rows rows"]
  by (auto simp: rows_ok_def list_all_iff distinct_map_filter active_rows_def conj_commute)

lemma db_ok_remove_key:
  assumes "db_ok d" shows "db_ok (remove_key i d)"
proof -
  have ids: "map pr_id (db_requests (remove_key i d)) = map pr_id (db_requests d)"
    by (simp add: remove_key_def)
  have keys: "has_key (remove_key i d) j = (has_key d j \<and> j \<noteq> i)" for j
    by (auto simp: has_key_iff remove_key_def)
  have "set (map pr_id (db_requests (remove_key i d))) = set (map pr_id (db_requests d))"
    by (simp only: ids)
  then have requests: "has_request (remove_key i d) j = has_request d j" for j
    by (simp add: has_request_iff)
  have "refs_ok (remove_key i d)"
    using assms unfolding refs_ok_def keys requests key_ref_ok_def db_ok_def
    by (auto simp: remove_key_def list_all_iff split: option.splits)
  with assms ids show ?thesis
    by (simp add: db_ok_def) (simp add: remove_key_def list_all_iff rows_ok_filter)
qed

lemma db_ok_remove_requests:
  assumes "db_ok d" shows "db_ok (remove_requests t d)"
proof -
  have keys: "has_key (remove_requests t d) = has_key d"
    by (simp add: has_key_def remove_requests_def fun_eq_iff)
  have "has_request (remove_requests t d) (ar_request a)"
    if "a \<in> set (db_attempts (remove_requests t d))" for a
  proof -
    from that have "a \<in> set (db_attempts d)" by (simp add: remove_requests_def Let_def)
    then obtain r where "r \<in> set (db_requests d)" "ar_request a = pr_id r"
      using assms by (auto simp: db_ok_def refs_ok_def list_all_iff has_request_iff)
    with that show ?thesis
      by (auto simp: remove_requests_def Let_def has_request_iff intro!: image_eqI [of _ _ r])
  qed
  then have "refs_ok (remove_requests t d)"
    using assms unfolding refs_ok_def keys key_ref_ok_def db_ok_def
    by (auto simp: remove_requests_def Let_def list_all_iff split: option.splits)
  with assms show ?thesis
    by (simp add: db_ok_def) (simp add: remove_requests_def Let_def distinct_map_filter)
qed

lemma db_ok_insert_event: "db_ok d \<Longrightarrow> insert_event q d = Inr (u, d') \<Longrightarrow> db_ok d'"
  by (auto simp: insert_event_def db_ok_def refs_ok_def key_ref_ok_def has_key_def has_request_def
    split: if_splits option.splits)

lemma db_ok_insert_request:
  assumes "db_ok d" "insert_request r d = Inr (u, d')" "pr_final_key r = None"
  shows "db_ok d'"
proof -
  have d': "d' = d\<lparr>db_requests := db_requests d @ [r]\<rparr>" and r: "pr_id r \<notin> pr_id ` set (db_requests d)"
    using assms(2) by (auto simp: insert_request_def has_request_iff split: if_splits)
  have "refs_ok d'"
    by (rule refs_ok_mono [of d])
      (use assms(1,3) d' in \<open>auto simp: db_ok_def has_key_iff has_request_iff\<close>)
  with assms(1) d' r show ?thesis by (auto simp: db_ok_def)
qed

lemma db_ok_insert_attempt: "db_ok d \<Longrightarrow> insert_attempt a d = Inr (u, d') \<Longrightarrow> db_ok d'"
  by (auto simp: insert_attempt_def db_ok_def refs_ok_def key_ref_ok_def has_key_def has_request_def
    split: if_splits option.splits)

lemma db_ok_map_requests:
  assumes "db_ok d" "\<And>r. pr_id (f r) = pr_id r"
    and "\<And>r. r \<in> set (db_requests d) \<Longrightarrow> key_ref_ok d (pr_final_key r) \<Longrightarrow> key_ref_ok d (pr_final_key (f r))"
  shows "db_ok (d\<lparr>db_requests := map f (db_requests d)\<rparr>)"
proof -
  let ?d = "d\<lparr>db_requests := map f (db_requests d)\<rparr>"
  have [simp]: "has_key ?d = has_key d" "has_request ?d = has_request d"
    using assms(2) by (auto simp: has_key_def has_request_def fun_eq_iff list_ex_iff)
  have [simp]: "key_ref_ok ?d = key_ref_ok d"
    by (simp add: key_ref_ok_def fun_eq_iff cong: option.case_cong)
  show ?thesis using assms
    by (auto simp: db_ok_def refs_ok_def list_all_iff comp_def cong: option.case_cong)
qed

lemma db_ok_update_request:
  assumes "db_ok d" "update_request i final f d = Inr (u, d')"
    and "\<And>r. pr_id (f r) = pr_id r" "\<And>r. pr_final_key (f r) = pr_final_key r"
  shows "db_ok d'"
proof -
  let ?g = "\<lambda>r. if pr_id r = i then f (r\<lparr>pr_final_key := final\<rparr>) else r"
  from assms(2) have "d' = d\<lparr>db_requests := map ?g (db_requests d)\<rparr>" "has_request d i \<longrightarrow> key_ref_ok d final"
    by (auto simp: update_request_def split: if_splits)
  moreover have "db_ok (d\<lparr>db_requests := map ?g (db_requests d)\<rparr>)"
    using assms(1,3,4) calculation(2)
    by (intro db_ok_map_requests) (auto simp: has_request_def list_ex_iff)
  ultimately show ?thesis by simp
qed

lemma db_ok_put_cache: "db_ok d \<Longrightarrow> put_cache c d = Inr (u, d') \<Longrightarrow> db_ok d'"
  by (auto simp: put_cache_def db_ok_def refs_ok_def key_ref_ok_def has_key_def has_request_def
    split: if_splits option.splits)

end
