(* ===== verification/StoreLaws.thy ===== *)
theory StoreLaws
  imports StoreInv
begin

text \<open>
  The contract of the store's methods: a predicate on the tables that the single statements keep
  is kept by every method, and then by every program made of methods; inserting a key apart
  (locale row_invariant), or with it (locale table_invariant). The well-formedness of the tables
  and the growth of the key sequence are such predicates.
\<close>

section \<open>What SetActive does\<close>

lemma demote_rows [simp]:
  "length (filter (promotable i) (db_keys (demote t d))) = length (filter (promotable i) (db_keys d))"
proof -
  have same: "promotable i (if kr_role r = ''active'' then r\<lparr>kr_role := ''standby'', kr_updated := t\<rparr> else r)
      = promotable i r" for r
    by (simp add: promotable_def)
  show ?thesis by (simp only: demote_def update_keys_simps filter_map length_map comp_def same)
qed

lemma promote_one_Inr:
  assumes "run_state (promote_one i) h = (Inr u, h')"
  obtains t2 where "length (filter (promotable i) (db_keys (h_db h))) = 1" "h_db h' = promote i t2 (h_db h)"
proof -
  from assms obtain g t2 where "run_state
      (try_bind (exec (\<lambda>d. Inr (length (filter (promotable i) (db_keys d)), promote i t2 d)))
         (\<lambda>n. if n \<noteq> 1 then fail NoRows else ok ())) g = (Inr u, h')" and g: "h_db g = h_db h"
    unfolding promote_one_def by (rule now_text_bind)
  from this(1) obtain n g2
    where 2: "run_state (exec (\<lambda>d. Inr (length (filter (promotable i) (db_keys d)), promote i t2 d))) g = (Inr n, g2)"
    and "run_state (if n \<noteq> 1 then fail NoRows else ok ()) g2 = (Inr u, h')"
    by (rule try_bind_Inr)
  from this(2) have "n = 1" "h' = g2" by (auto simp: fail_def ok_def split: if_splits)
  with exec_Inr(1) [OF 2] g show thesis by (intro that [of t2]) simp_all
qed

lemma set_active_Inr:
  fixes h :: "'z host_scheme"
  assumes "run_state (set_active i) h = (Inr u, h')"
  obtains t1 t2 where "length (filter (promotable i) (db_keys (h_db h))) = 1"
    and "h_db h' = promote i t2 (demote t1 (h_db h))"
proof -
  from assms obtain h1 h2 :: "'z host_scheme" where body: "run_state (do {
      t1 \<leftarrow> now_text;
      try_bind (exec (\<lambda>d. Inr ((), demote t1 d))) (\<lambda>_. promote_one i) }) h1 = (Inr u, h2)"
    and h: "h_db h1 = h_db h" "h_db h' = h_db h2"
    unfolding set_active_def by (rule transaction_commit)
  from body obtain g t1
    where "run_state (try_bind (exec (\<lambda>d. Inr ((), demote t1 d))) (\<lambda>_. promote_one i)) g = (Inr u, h2)"
    and g: "h_db g = h_db h1"
    by (rule now_text_bind)
  from this(1) obtain x g2 where 1: "run_state (exec (\<lambda>d. Inr ((), demote t1 d))) g = (Inr x, g2)"
    and 2: "run_state (promote_one i) g2 = (Inr u, h2)"
    by (rule try_bind_Inr)
  from promote_one_Inr [OF 2] obtain t2 where "length (filter (promotable i) (db_keys (h_db g2))) = 1"
    and "h_db h2 = promote i t2 (h_db g2)" .
  moreover have "h_db g2 = demote t1 (h_db h)" using exec_Inr(1) [OF 1] g h by simp
  ultimately show thesis using h by (intro that [of t2 t1]) simp_all
qed

lemma set_active_Inl: "run_state (set_active i) h = (Inl e, h') \<Longrightarrow> h_db h' = h_db h"
  unfolding set_active_def by (rule transaction_rollback)

text \<open>After the demotion no row is active, so the promotion makes exactly the one row active.\<close>

lemma active_rows_promote:
  "active_rows (db_keys (promote i t2 (demote t1 d))) =
     map (\<lambda>r. r\<lparr>kr_role := ''active'', kr_updated := t2\<rparr>)
       (filter (promotable i) (db_keys (demote t1 d)))"
proof -
  have "kr_role r \<noteq> ''active''" if "r \<in> set (db_keys (demote t1 d))" for r
    using that by (auto simp: demote_def)
  then have "active_rows (map (\<lambda>r. if promotable i r then r\<lparr>kr_role := ''active'', kr_updated := t2\<rparr> else r) rows) =
      map (\<lambda>r. r\<lparr>kr_role := ''active'', kr_updated := t2\<rparr>) (filter (promotable i) rows)"
    if "set rows \<subseteq> set (db_keys (demote t1 d))" for rows
    using that by (induction rows) (auto simp: active_rows_def)
  from this [OF subset_refl] show ?thesis by (simp add: promote_def)
qed

lemma tame_demote: "tame (\<lambda>r. r\<lparr>kr_role := ''standby'', kr_updated := t\<rparr>)"
  by (simp add: tame_def)

lemma db_ok_demote: "db_ok d \<Longrightarrow> db_ok (demote t d)"
  unfolding demote_def by (rule db_ok_update [OF _ tame_demote])

lemma db_ok_activate:
  assumes "db_ok d" "length (filter (promotable i) (db_keys d)) = 1"
  shows "db_ok (promote i t2 (demote t1 d))"
proof -
  let ?d = "demote t1 d"
  let ?f = "\<lambda>r. r\<lparr>kr_role := ''active'', kr_updated := t2\<rparr>"
  have ok: "db_ok ?d" using assms(1) by (rule db_ok_demote)
  have "length (active_rows (db_keys (promote i t2 ?d))) = 1"
    unfolding active_rows_promote using assms(2) by simp
  moreover have ids: "map kr_id (db_keys (promote i t2 ?d)) = map kr_id (db_keys ?d)"
    and prints: "map kr_fingerprint (db_keys (promote i t2 ?d)) = map kr_fingerprint (db_keys ?d)"
    by (auto simp: promote_def)
  moreover have "list_all (\<lambda>r. (kr_enabled r = 0 \<or> kr_enabled r = 1) \<and>
      (kr_role r = ''active'' \<longrightarrow> kr_enabled r = 1)) (db_keys (promote i t2 ?d))"
    using ok by (auto simp: promote_def promotable_def db_ok_def rows_ok_def list_all_iff)
  ultimately have "rows_ok (db_keys (promote i t2 ?d))"
    using ok unfolding rows_ok_def db_ok_def ids prints by linarith
  then show ?thesis unfolding promote_def using ok by (intro db_ok_keys) auto
qed

section \<open>The contract\<close>

locale row_invariant =
  fixes P :: "db \<Rightarrow> bool"
  assumes update: "\<And>d Q f. P d \<Longrightarrow> tame f \<Longrightarrow> P (update_keys Q f d)"
    and activate: "\<And>d i t1 t2. P d \<Longrightarrow> length (filter (promotable i) (db_keys d)) = 1 \<Longrightarrow>
      P (promote i t2 (demote t1 d))"
    and key_removed: "\<And>d i. P d \<Longrightarrow> P (remove_key i d)"
    and event_inserted: "\<And>d q d'. P d \<Longrightarrow> insert_event q d = Inr ((), d') \<Longrightarrow> P d'"
    and request_inserted: "\<And>d r d'. P d \<Longrightarrow> pr_final_key r = None \<Longrightarrow> insert_request r d = Inr ((), d') \<Longrightarrow> P d'"
    and attempt_inserted: "\<And>d a d'. P d \<Longrightarrow> insert_attempt a d = Inr ((), d') \<Longrightarrow> P d'"
    and request_updated: "\<And>d i final f d'. P d \<Longrightarrow> \<forall>r. pr_id (f r) = pr_id r \<and> pr_final_key (f r) = pr_final_key r \<Longrightarrow>
      update_request i final f d = Inr ((), d') \<Longrightarrow> P d'"
    and client_renamed: "\<And>d i name. P d \<Longrightarrow> P (d\<lparr>db_requests :=
      map (\<lambda>r. if pr_client r = i then r\<lparr>pr_client_name := name\<rparr> else r) (db_requests d)\<rparr>)"
    and requests_removed: "\<And>d t. P d \<Longrightarrow> P (remove_requests t d)"
    and cache_put: "\<And>d c d'. P d \<Longrightarrow> put_cache c d = Inr ((), d') \<Longrightarrow> P d'"
    and settings_put: "\<And>d s. P d \<Longrightarrow> P (d\<lparr>db_settings := s\<rparr>)"
begin

lemma keeps_exec_update [keep_intros]:
  "tame f \<Longrightarrow> keeps (on_db P) (exec (\<lambda>d. Inr (g d, update_keys Q f d)))"
  by (rule keeps_exec) (auto intro: update)

lemma keeps_key_by_id: "keeps (on_db P) (key_by_id i)"
  unfolding key_by_id_def query_row_def fail_def ok_def by (intro keep_intros)

lemma keeps_list_keys: "keeps (on_db P) list_keys"
  unfolding list_keys_def by (intro keep_intros)

lemma keeps_update_key: "keeps (on_db P) (update_key i n p e ov)"
  unfolding update_key_def
  by (intro keep_intros keeps_key_by_id) (auto simp: tame_def bool_int_def)

lemma keeps_delete_key: "keeps (on_db P) (delete_key i)"
  unfolding delete_key_def by (rule keeps_exec) (auto intro: key_removed)

lemma keeps_set_active: "keeps (on_db P) (set_active i)"
proof (rule keepsI)
  fix h :: "'z host_scheme" assume h: "on_db P h"
  obtain r h' where run: "run_state (set_active i) h = (r, h')" by (cases "run_state (set_active i) h")
  show "on_db P (snd (run_state (set_active i) h))"
  proof (cases r)
    case (Inl e)
    with run h show ?thesis by (auto dest: set_active_Inl simp: on_db_def)
  next
    case (Inr u)
    with run h show ?thesis by (auto simp: on_db_def elim!: set_active_Inr intro!: activate)
  qed
qed

lemma keeps_mark_checked: "keeps (on_db P) (mark_checked i a c q e)"
  unfolding mark_checked_def by (intro keep_intros) (simp add: tame_def)

lemma keeps_mark_used: "keeps (on_db P) (mark_used i)"
  unfolding mark_used_def by (intro keep_intros) (simp add: tame_def)

lemma keeps_mark_invalid: "keeps (on_db P) (mark_invalid i m)"
  unfolding mark_invalid_def by (intro keep_intros) (simp add: tame_def)

lemma keeps_mark_quota: "keeps (on_db P) (mark_quota i w t m)"
  unfolding mark_quota_def
  by (intro keep_intros keeps_exec [of P "insert_event q" for q])
    (auto simp: tame_def intro: event_inserted)

lemma keeps_mark_half_open_due: "keeps (on_db P) mark_half_open_due"
  unfolding mark_half_open_due_def open_due_def by (intro keep_intros) (simp add: tame_def)

lemma keeps_eligible_keys: "keeps (on_db P) eligible_keys"
  unfolding eligible_keys_def by (intro keep_intros)

lemma keeps_auth_valid_keys: "keeps (on_db P) auth_valid_keys"
  unfolding auth_valid_keys_def by (intro keep_intros)

lemma keeps_get_settings: "keeps (on_db P) get_settings"
  unfolding get_settings_def by (intro keep_intros)

lemma keeps_update_settings: "keeps (on_db P) (update_settings v)"
  unfolding update_settings_def by (rule keeps_exec) (auto intro: settings_put)

lemma keeps_begin_request: "keeps (on_db P) (begin_request r)"
  unfolding begin_request_def by (rule keeps_exec) (auto intro: request_inserted [rotated 2])

lemma keeps_add_attempt: "keeps (on_db P) (add_attempt a)"
  unfolding add_attempt_def by (rule keeps_exec) (auto intro: attempt_inserted)

lemma keeps_finish_request: "keeps (on_db P) (finish_request r u)"
  unfolding finish_request_def by (rule keeps_exec) (auto intro: request_updated [rotated 2])

lemma keeps_rename_request_client: "keeps (on_db P) (rename_request_client i n)"
  unfolding rename_request_client_def by (rule keeps_exec) (auto intro: client_renamed)

lemma keeps_purge_before: "keeps (on_db P) (purge_before t)"
  unfolding purge_before_def by (rule keeps_exec) (auto intro: requests_removed)

lemma keeps_save_model_cache: "keeps (on_db P) (save_model_cache b i)"
  unfolding save_model_cache_def by (intro keep_intros keeps_exec) (auto intro: cache_put)

lemma keeps_model_cache: "keeps (on_db P) model_cache"
  unfolding model_cache_def query_row_def fail_def ok_def by (intro keep_intros)

lemmas keeps_store =
  keeps_key_by_id keeps_list_keys keeps_update_key keeps_delete_key keeps_set_active
  keeps_mark_checked keeps_mark_used keeps_mark_invalid keeps_mark_quota keeps_mark_half_open_due
  keeps_eligible_keys keeps_auth_valid_keys keeps_get_settings keeps_update_settings keeps_begin_request
  keeps_add_attempt keeps_finish_request keeps_rename_request_client keeps_purge_before
  keeps_save_model_cache keeps_model_cache

end

locale table_invariant = row_invariant +
  assumes key_inserted: "\<And>d t k i d'. P d \<Longrightarrow> insert_key t k d = Inr (i, d') \<Longrightarrow> P d'"
begin

lemma keeps_create_key: "keeps (on_db P) (create_key k)"
  unfolding create_key_def
  by (intro keep_intros keeps_key_by_id keeps_exec) (auto intro: key_inserted)

end


text \<open>Well-formedness satisfies the contract.\<close>

lemma db_ok_settings: "db_ok d \<Longrightarrow> db_ok (d\<lparr>db_settings := s\<rparr>)"
  by (simp add: db_ok_def refs_ok_def key_ref_ok_def has_key_def has_request_def cong: option.case_cong)

lemma db_ok_rename:
  "db_ok d \<Longrightarrow> db_ok (d\<lparr>db_requests :=
     map (\<lambda>r. if pr_client r = i then r\<lparr>pr_client_name := name\<rparr> else r) (db_requests d)\<rparr>)"
  by (rule db_ok_map_requests) auto

lemma db_ok_request_updated:
  assumes "db_ok d" "\<forall>r. pr_id (f r) = pr_id r \<and> pr_final_key (f r) = pr_final_key r"
    and "update_request i final f d = Inr ((), d')"
  shows "db_ok d'"
  using assms by (intro db_ok_update_request [of d i final f "()" d']) simp_all

interpretation tables: table_invariant db_ok
  by unfold_locales
    (erule (1) db_ok_update db_ok_activate db_ok_insert_key db_ok_insert_event db_ok_insert_attempt db_ok_put_cache
      | erule (2) db_ok_insert_request db_ok_request_updated
      | erule db_ok_remove_key db_ok_remove_requests db_ok_settings db_ok_rename)+

text \<open>So does a lower bound of the key sequence: the id of a deleted key is never given again.\<close>

lemma promote_seq [simp]: "db_key_seq (promote i t d) = db_key_seq d"
  and demote_seq [simp]: "db_key_seq (demote t d) = db_key_seq d"
  by (simp_all add: promote_def demote_def)

lemma seq_inserted:
  "insert_key t k d = Inr (i, d') \<Longrightarrow> i = db_key_seq d + 1 \<and> db_key_seq d' = i"
  "insert_event q d = Inr (u, d') \<Longrightarrow> db_key_seq d' = db_key_seq d"
  "insert_request r d = Inr (u, d') \<Longrightarrow> db_key_seq d' = db_key_seq d"
  "insert_attempt a d = Inr (u, d') \<Longrightarrow> db_key_seq d' = db_key_seq d"
  "update_request s final f d = Inr (u, d') \<Longrightarrow> db_key_seq d' = db_key_seq d"
  "put_cache c d = Inr (u, d') \<Longrightarrow> db_key_seq d' = db_key_seq d"
  by (auto simp: insert_key_def Let_def insert_event_def insert_request_def insert_attempt_def
    update_request_def put_cache_def split: if_splits)

lemma seq_removed [simp]:
  "db_key_seq (remove_key i d) = db_key_seq d" "db_key_seq (remove_requests t d) = db_key_seq d"
  by (simp_all add: remove_key_def remove_requests_def Let_def)

interpretation seq: table_invariant "\<lambda>d. n \<le> db_key_seq d" for n
  by unfold_locales (simp_all add: seq_inserted, frule seq_inserted(1), simp)

end
