(* ===== verification/GoHttp.thy ===== *)
theory GoHttp
  imports GoJson
begin

text \<open>
  The part of net/http that the handlers touch: header maps with their canonical keys, response
  bodies that can end in a read error, and the response writer, which sends its header with the
  first write and whose connection can break.
\<close>

section \<open>Headers\<close>

type_synonym header = "(string \<times> string list) list"

definition token_char :: "char \<Rightarrow> bool" where
  "token_char c \<longleftrightarrow> is_digit c \<or> is_upper c \<or> is_lower c \<or>
     c \<in> set [CHR ''!'', CHR ''#'', CHR ''$'', CHR ''%'', CHR ''&'', CHR 0x27, CHR ''*'', CHR ''+'',
             CHR ''-'', CHR ''.'', CHR ''^'', CHR ''_'', CHR 0x60, CHR ''|'', CHR ''~'']"

fun canon_chars :: "bool \<Rightarrow> string \<Rightarrow> string" where
  "canon_chars up [] = []"
| "canon_chars up (c # s) = (if up then upper_char c else lower_char c) # canon_chars (c = CHR ''-'') s"

text \<open>CanonicalMIMEHeaderKey: a key with a byte that is no token byte stays as it is.\<close>

definition canonical_key :: "string \<Rightarrow> string" where
  "canonical_key k = (if list_all token_char k then canon_chars True k else k)"

definition header_values :: "header \<Rightarrow> string \<Rightarrow> string list" where
  "header_values h k = (case map_of h (canonical_key k) of None \<Rightarrow> [] | Some vs \<Rightarrow> vs)"

definition header_get :: "header \<Rightarrow> string \<Rightarrow> string" where
  "header_get h k = (case header_values h k of [] \<Rightarrow> [] | v # _ \<Rightarrow> v)"

fun put_values :: "header \<Rightarrow> string \<Rightarrow> string list \<Rightarrow> header" where
  "put_values [] k vs = [(k, vs)]"
| "put_values ((l, us) # h) k vs = (if l = k then (k, vs) # h else (l, us) # put_values h k vs)"

definition header_set :: "header \<Rightarrow> string \<Rightarrow> string \<Rightarrow> header" where
  "header_set h k v = put_values h (canonical_key k) [v]"

definition header_add :: "header \<Rightarrow> string \<Rightarrow> string \<Rightarrow> header" where
  "header_add h k v = put_values h (canonical_key k) (header_values h k @ [v])"

lemma map_of_put_values: "map_of (put_values h k vs) = (map_of h)(k \<mapsto> vs)"
  by (induction h k vs rule: put_values.induct) (auto simp: fun_eq_iff)

lemma header_values_set:
  "header_values (header_set h k v) l = (if canonical_key l = canonical_key k then [v] else header_values h l)"
  by (simp add: header_values_def header_set_def map_of_put_values)

lemma header_values_add:
  "header_values (header_add h k v) l =
     (if canonical_key l = canonical_key k then header_values h k @ [v] else header_values h l)"
  by (simp add: header_values_def header_add_def map_of_put_values)

lemma fst_put_values: "fst ` set (put_values h k vs) = insert k (fst ` set h)"
  by (induction h k vs rule: put_values.induct) auto

section \<open>Bodies and responses\<close>

text \<open>The bytes of a body; after them the end of the stream, or a read error.\<close>

record http_body =
  bd_data :: string
  bd_fails :: bool

record response =
  rs_status :: int
  rs_header :: header
  rs_body :: http_body

text \<open>io.ReadAll of the body behind a LimitReader; None for a read error.\<close>

definition read_all :: "nat \<Rightarrow> http_body \<Rightarrow> string option" where
  "read_all lim b =
     (if lim \<le> length (bd_data b) then Some (take lim (bd_data b))
      else if bd_fails b then None else Some (bd_data b))"

section \<open>The response writer\<close>

text \<open>
  The header map, what was sent when the first byte was (status and header), the bytes sent,
  and how many more writes the connection to the client will take (None: any number).
\<close>

record writer =
  wr_header :: header
  wr_sent :: "(int \<times> header) option"
  wr_body :: string
  wr_budget :: "nat option"

definition write_header :: "int \<Rightarrow> writer \<Rightarrow> writer" where
  "write_header code w = (if wr_sent w = None then w\<lparr>wr_sent := Some (code, wr_header w)\<rparr> else w)"

definition write_bytes :: "string \<Rightarrow> writer \<Rightarrow> bool \<times> writer" where
  "write_bytes bs w =
     (let w' = write_header 200 w in
      case wr_budget w' of
        None \<Rightarrow> (True, w'\<lparr>wr_body := wr_body w' @ bs\<rparr>)
      | Some 0 \<Rightarrow> (False, w')
      | Some (Suc n) \<Rightarrow> (True, w'\<lparr>wr_body := wr_body w' @ bs, wr_budget := Some n\<rparr>))"

definition set_header :: "string \<Rightarrow> string \<Rightarrow> writer \<Rightarrow> writer" where
  "set_header k v w = w\<lparr>wr_header := header_set (wr_header w) k v\<rparr>"

text \<open>Nothing has been sent: neither a status nor a byte.\<close>

definition untouched :: "writer \<Rightarrow> bool" where
  "untouched w \<longleftrightarrow> wr_sent w = None \<and> wr_body w = []"

lemma write_header_sent [simp]: "wr_sent (write_header c w) \<noteq> None"
  by (simp add: write_header_def)

lemma write_header_body [simp]: "wr_body (write_header c w) = wr_body w"
  and write_header_budget [simp]: "wr_budget (write_header c w) = wr_budget w"
  by (simp_all add: write_header_def)

lemma write_bytes_prefix: "prefix (wr_body w) (wr_body (snd (write_bytes bs w)))"
  by (auto simp: write_bytes_def Let_def split: option.split nat.split)

lemma write_bytes_unlimited:
  "wr_budget w = None \<Longrightarrow> write_bytes bs w = (True, (write_header 200 w)\<lparr>wr_body := wr_body w @ bs\<rparr>)"
  by (simp add: write_bytes_def)

definition int_text :: "int \<Rightarrow> string" where
  "int_text n = (if n < 0 then CHR ''-'' # dec (- n) else dec n)"

definition json_int :: "int \<Rightarrow> json" where
  "json_int n = JNum (int_text n)"

definition ok_status :: "int \<Rightarrow> bool" where
  "ok_status s \<longleftrightarrow> 200 \<le> s \<and> s < 300"

end
