(* ===== verification/GoRegex.thy ===== *)
theory GoRegex
  imports GoStrings
begin

text \<open>
  Go's regexp engine for the patterns of classifier.go: a regular expression over bytes, its
  declarative language, and the leftmost-first matcher, which lists the ways a match can end in
  the order in which the engine prefers them. The matcher is proved equivalent to the language.
\<close>

section \<open>Expressions and their language\<close>

datatype re =
    RSet string
  | RNot string
  | REps
  | RSeq re re
  | RAlt re re
  | RStar re

inductive_set star_lang :: "string set \<Rightarrow> string set" for L where
  star_nil: "[] \<in> star_lang L"
| star_step: "u \<in> L \<Longrightarrow> v \<in> star_lang L \<Longrightarrow> u @ v \<in> star_lang L"

fun lang :: "re \<Rightarrow> string set" where
  "lang (RSet cs) = (\<lambda>c. [c]) ` set cs"
| "lang (RNot cs) = (\<lambda>c. [c]) ` (- set cs)"
| "lang REps = {[]}"
| "lang (RSeq r q) = {u @ v |u v. u \<in> lang r \<and> v \<in> lang q}"
| "lang (RAlt r q) = lang r \<union> lang q"
| "lang (RStar r) = star_lang (lang r)"

section \<open>The matcher\<close>

text \<open>
  \<open>ends r s\<close> lists what is left of \<open>s\<close> after each match of \<open>r\<close> at its start, the
  preferred match first: the left alternative before the right one, a longer repetition before
  a shorter one. An iteration of a star that consumes nothing is not repeated.
\<close>

fun star_ends :: "(string \<Rightarrow> string list) \<Rightarrow> nat \<Rightarrow> string \<Rightarrow> string list"
  and star_each :: "(string \<Rightarrow> string list) \<Rightarrow> nat \<Rightarrow> string \<Rightarrow> string list \<Rightarrow> string list" where
  "star_ends f 0 s = [s]"
| "star_ends f (Suc n) s = star_each f n s (f s) @ [s]"
| "star_each f n s [] = []"
| "star_each f n s (t # ts) =
     (if length t < length s then star_ends f n t else []) @ star_each f n s ts"

fun ends :: "re \<Rightarrow> string \<Rightarrow> string list" where
  "ends (RSet cs) s = (case s of [] \<Rightarrow> [] | c # t \<Rightarrow> if c \<in> set cs then [t] else [])"
| "ends (RNot cs) s = (case s of [] \<Rightarrow> [] | c # t \<Rightarrow> if c \<in> set cs then [] else [t])"
| "ends REps s = [s]"
| "ends (RSeq r q) s = concat (map (ends q) (ends r s))"
| "ends (RAlt r q) s = ends r s @ ends q s"
| "ends (RStar r) s = star_ends (ends r) (length s) s"

lemma set_star_each:
  "set (star_each f n s ts) = (\<Union>t \<in> {t \<in> set ts. length t < length s}. set (star_ends f n t))"
  by (induction ts) auto

lemma star_ends_sound:
  assumes "\<And>s t. t \<in> set (f s) \<Longrightarrow> \<exists>u \<in> L. s = u @ t"
  shows "t \<in> set (star_ends f n s) \<Longrightarrow> \<exists>u \<in> star_lang L. s = u @ t"
proof (induction n arbitrary: s)
  case 0
  then show ?case by (auto intro: star_nil)
next
  case (Suc n)
  then consider "t = s"
    | x where "x \<in> set (f s)" "t \<in> set (star_ends f n x)"
    by (auto simp: set_star_each)
  then show ?case
  proof cases
    case 1
    then show ?thesis by (auto intro: star_nil)
  next
    case 2
    from 2(1) assms obtain u where "u \<in> L" "s = u @ x" by blast
    moreover from 2(2) Suc.IH obtain v where "v \<in> star_lang L" "x = v @ t" by blast
    ultimately show ?thesis by (intro bexI [of _ "u @ v"]) (auto intro: star_step)
  qed
qed

lemma star_ends_complete:
  assumes "\<And>u t. u \<in> L \<Longrightarrow> t \<in> set (f (u @ t))"
  shows "u \<in> star_lang L \<Longrightarrow> length (u @ t) \<le> n \<Longrightarrow> t \<in> set (star_ends f n (u @ t))"
proof (induction u arbitrary: n rule: star_lang.induct)
  case star_nil
  then show ?case by (cases n) auto
next
  case (star_step u v)
  show ?case
  proof (cases "u = []")
    case True
    with star_step show ?thesis by simp
  next
    case False
    with star_step.prems obtain m where n: "n = Suc m" by (cases n) auto
    have "t \<in> set (star_ends f m (v @ t))"
      using star_step.prems False n by (intro star_step.IH) (cases u, auto)
    moreover have "v @ t \<in> set (f (u @ (v @ t)))" using star_step.hyps(1) by (rule assms)
    ultimately show ?thesis using False n by (auto simp: set_star_each intro!: bexI [of _ "v @ t"])
  qed
qed

lemma ends_sound: "t \<in> set (ends r s) \<Longrightarrow> \<exists>u \<in> lang r. s = u @ t"
proof (induction r arbitrary: s t)
  case (RSeq r q)
  then obtain x where "x \<in> set (ends r s)" "t \<in> set (ends q x)" by auto
  with RSeq.IH obtain u v where "u \<in> lang r" "s = u @ x" "v \<in> lang q" "x = v @ t" by blast
  then show ?case by (intro bexI [of _ "u @ v"]) auto
next
  case (RStar r)
  then show ?case by (simp del: star_ends.simps) (rule star_ends_sound, blast+)
next
  case (RAlt r q)
  from RAlt.prems consider "t \<in> set (ends r s)" | "t \<in> set (ends q s)" by auto
  then show ?case by cases (use RAlt.IH in \<open>fastforce\<close>)+
qed (auto split: list.splits if_splits)

lemma ends_complete: "u \<in> lang r \<Longrightarrow> t \<in> set (ends r (u @ t))"
proof (induction r arbitrary: u t)
  case (RSeq r q)
  then obtain a b where "u = a @ b" "a \<in> lang r" "b \<in> lang q" by auto
  with RSeq.IH(1) [of a "b @ t"] RSeq.IH(2) [of b t] show ?case by auto
next
  case (RStar r)
  have "t \<in> set (star_ends (ends r) (length (u @ t)) (u @ t))"
    using RStar by (intro star_ends_complete [where L = "lang r"]) auto
  then show ?case by simp
next
  case (RNot cs)
  then obtain c where "u = [c]" "c \<notin> set cs" by auto
  then show ?case by simp
qed auto

theorem ends_iff_lang: "t \<in> set (ends r s) \<longleftrightarrow> (\<exists>u \<in> lang r. s = u @ t)"
  using ends_sound ends_complete by blast

section \<open>Searching\<close>

text \<open>MatchString: the expression matches somewhere in the text.\<close>

fun search :: "re \<Rightarrow> string \<Rightarrow> bool" where
  "search r [] \<longleftrightarrow> ends r [] \<noteq> []"
| "search r (c # s) \<longleftrightarrow> (case ends r (c # s) of [] \<Rightarrow> search r s | _ \<Rightarrow> True)"

lemma ends_nonempty_iff: "ends r s \<noteq> [] \<longleftrightarrow> (\<exists>u \<in> lang r. prefix u s)"
proof -
  have "ends r s \<noteq> [] \<longleftrightarrow> (\<exists>t. t \<in> set (ends r s))"
    by (cases "ends r s") auto
  also have "\<dots> \<longleftrightarrow> (\<exists>u \<in> lang r. prefix u s)"
    by (auto simp: ends_iff_lang prefix_def)
  finally show ?thesis .
qed

theorem search_iff_sublist: "search r s \<longleftrightarrow> (\<exists>u \<in> lang r. sublist u s)"
proof (induction s)
  case Nil
  show ?case by (auto simp: ends_nonempty_iff)
next
  case (Cons c s)
  have "search r (c # s) \<longleftrightarrow> ends r (c # s) \<noteq> [] \<or> search r s"
    by (simp split: list.split)
  with Cons show ?case by (auto simp: ends_nonempty_iff sublist_Cons_right)
qed

corollary search_mono: "search r s \<Longrightarrow> sublist s t \<Longrightarrow> search r t"
  by (meson search_iff_sublist sublist_order.order.trans)

text \<open>
  FindStringSubmatch, for an expression that is a sequence of segments: the preferred match at
  the leftmost position where there is one, as what is left of the text at the start of the
  match and after each segment. A captured group is one of the segments.
\<close>

fun seg_ends :: "re list \<Rightarrow> string \<Rightarrow> string list list"
  and seg_each :: "re list \<Rightarrow> string list \<Rightarrow> string list list" where
  "seg_ends [] s = [[]]"
| "seg_ends (r # rs) s = seg_each rs (ends r s)"
| "seg_each rs [] = []"
| "seg_each rs (t # ts) = map ((#) t) (seg_ends rs t) @ seg_each rs ts"

lemma set_seg_each:
  "set (seg_each rs ts) = (\<Union>t \<in> set ts. (#) t ` set (seg_ends rs t))"
  by (induction ts) auto

fun find_segs :: "re list \<Rightarrow> string \<Rightarrow> (string \<times> string list) option" where
  "find_segs rs [] = (case seg_ends rs [] of [] \<Rightarrow> None | ts # _ \<Rightarrow> Some ([], ts))"
| "find_segs rs (c # s) =
     (case seg_ends rs (c # s) of [] \<Rightarrow> find_segs rs s | ts # _ \<Rightarrow> Some (c # s, ts))"

text \<open>The text between two of these positions.\<close>

definition between :: "string \<Rightarrow> string \<Rightarrow> string" where
  "between s t = take (length s - length t) s"

lemma suffix_ends: "t \<in> set (ends r s) \<Longrightarrow> suffix t s"
  by (auto dest: ends_sound simp: suffix_def)

lemma seg_ends_lang:
  "ts \<in> set (seg_ends rs s) \<Longrightarrow> length ts = length rs \<and>
     (\<forall>i < length rs. \<exists>u \<in> lang (rs ! i). (s # ts) ! i = u @ ts ! i)"
proof (induction rs arbitrary: s ts)
  case Nil
  then show ?case by simp
next
  case (Cons r rs)
  then obtain t ts' where ts: "ts = t # ts'" "t \<in> set (ends r s)" "ts' \<in> set (seg_ends rs t)"
    by (auto simp: set_seg_each)
  from ts(2) have "\<exists>u \<in> lang r. s = u @ t" by (rule ends_sound)
  with Cons.IH [OF ts(3)] ts(1) show ?case by (auto simp: nth_Cons split: nat.splits)
qed

lemma find_segs_Some:
  "find_segs rs s = Some (b, ts) \<Longrightarrow> suffix b s \<and> ts \<in> set (seg_ends rs b)"
  by (induction rs s rule: find_segs.induct) (auto split: list.splits intro: suffix_ConsI)

text \<open>
  FindAllStringSubmatch: the matches from left to right, each search starting where the last
  match ended. Every expression of the program matches at least one byte; a match that does not
  consume anything ends the scan here.
\<close>

function find_all :: "re list \<Rightarrow> string \<Rightarrow> (string \<times> string list) list" where
  "find_all rs s =
     (case find_segs rs s of
        None \<Rightarrow> []
      | Some (b, ts) \<Rightarrow>
          (b, ts) # (if length (last (b # ts)) < length s then find_all rs (last (b # ts)) else []))"
  by pat_completeness auto
termination
  by (relation "measure (\<lambda>(rs, s). length s)") auto

declare find_all.simps [simp del]

section \<open>Building expressions\<close>

fun rseq :: "re list \<Rightarrow> re" where
  "rseq [] = REps"
| "rseq [r] = r"
| "rseq (r # q # rs) = RSeq r (rseq (q # rs))"

fun ralt :: "re list \<Rightarrow> re" where
  "ralt [] = RSet []"
| "ralt [r] = r"
| "ralt (r # q # rs) = RAlt r (ralt (q # rs))"

definition ropt :: "re \<Rightarrow> re" where
  "ropt r = RAlt r REps"

definition rplus :: "re \<Rightarrow> re" where
  "rplus r = RSeq r (RStar r)"

text \<open>The classes for digits and white space, and the dot.\<close>

definition re_d :: re where
  "re_d = RSet ''0123456789''"

definition re_s :: re where
  "re_s = RSet [CHR 0x09, CHR 0x0A, CHR 0x0C, CHR 0x0D, CHR 0x20]"

definition re_dot :: re where
  "re_dot = RNot [CHR 0x0A]"

text \<open>
  A letter under the flag i matches both its cases, k also the Kelvin sign and s also the long
  s, as their UTF-8 bytes.
\<close>

definition re_ch :: "char \<Rightarrow> re" where
  "re_ch c =
     (if c = CHR ''k'' then
        RAlt (RSet ''kK'') (rseq [RSet [CHR 0xE2], RSet [CHR 0x84], RSet [CHR 0xAA]])
      else if c = CHR ''s'' then RAlt (RSet ''sS'') (rseq [RSet [CHR 0xC5], RSet [CHR 0xBF]])
      else RSet (if is_lower c then [c, upper_char c] else [c]))"

definition re_lit :: "string \<Rightarrow> re" where
  "re_lit s = rseq (map re_ch s)"

lemma lang_rseq_Cons: "lang (rseq (r # rs)) = {u @ v |u v. u \<in> lang r \<and> v \<in> lang (rseq rs)}"
  by (cases rs) auto

lemma lang_ralt: "lang (ralt rs) = (\<Union>r \<in> set rs. lang r)"
  by (induction rs rule: ralt.induct) auto

lemma re_ch_self: "[c] \<in> lang (re_ch c)"
proof -
  consider "c = CHR ''k''" | "c = CHR ''s''" | "c \<noteq> CHR ''k''" "c \<noteq> CHR ''s''" by blast
  then show ?thesis
  proof cases
    case 3
    then have "re_ch c = RSet (if is_lower c then [c, upper_char c] else [c])"
      by (simp only: re_ch_def if_False)
    then show ?thesis by simp
  qed (simp_all only: re_ch_def if_True if_False refl lang.simps, simp_all)
qed

lemma re_lit_self: "s \<in> lang (re_lit s)"
proof (induction s)
  case Nil
  show ?case by (simp add: re_lit_def)
next
  case (Cons c s)
  have "[c] @ s \<in> lang (rseq (re_ch c # map re_ch s))"
    unfolding lang_rseq_Cons using re_ch_self [of c] Cons by (auto simp only: re_lit_def)
  then show ?case by (simp only: re_lit_def list.map append_Cons append_Nil)
qed

end
