(* ===== verification/Classifier.thy ===== *)
theory Classifier
  imports GoHttp GoRegex GoTimeParse "HOL-Library.Multiset"
begin

text \<open>
  internal/proxy/classifier.go: how an upstream response is classified as an exhausted quota, a
  bad credential, a rate limit or another error, and when an exhausted key may be tried again.
\<close>

section \<open>Error kinds and classifications\<close>

datatype error_kind =
    ErrorNone | ErrorQuota | ErrorAuth | ErrorRateLimit | ErrorUpstream | ErrorRequest | ErrorNetwork

fun kind_text :: "error_kind \<Rightarrow> string" where
  "kind_text ErrorNone = []"
| "kind_text ErrorQuota = ''quota''"
| "kind_text ErrorAuth = ''auth''"
| "kind_text ErrorRateLimit = ''rate_limit''"
| "kind_text ErrorUpstream = ''upstream''"
| "kind_text ErrorRequest = ''request''"
| "kind_text ErrorNetwork = ''network''"

record classification =
  cl_kind :: error_kind
  cl_window :: string
  cl_reset :: "time option"
  cl_message :: string

section \<open>The patterns\<close>

definition quota_pattern :: re where
  "quota_pattern = ralt
     [re_lit ''usage limit reached'', re_lit ''limit exhausted'', re_lit ''quota exceeded'',
      re_lit ''subscription quota'', re_lit ''weekly/monthly limit exhausted'',
      re_lit ''weekly usage limit'', re_lit ''monthly usage limit'',
      rseq [re_ch (CHR ''5''), RStar re_s, re_lit ''hour usage limit'']]"

definition balance_pattern :: re where
  "balance_pattern = ralt
     [rseq [re_lit ''insufficient'', rplus re_s, ropt (rseq [re_lit ''account'', rplus re_s]), re_lit ''balance''],
      rseq [re_lit ''insufficient'', rplus re_s, re_lit ''credit'', ropt (re_ch (CHR ''s''))],
      rseq [re_lit ''not'', rplus re_s, re_lit ''enough'', rplus re_s, re_lit ''credit'', ropt (re_ch (CHR ''s''))],
      rseq [re_lit ''credit'', ropt (re_ch (CHR ''s'')), re_lit ''error'', RStar re_dot,
            ralt [re_lit ''balance'', re_lit ''billing'']],
      rseq [re_lit ''manage'', rplus re_s, re_lit ''your'', rplus re_s, re_lit ''billing'']]"

definition auth_pattern :: re where
  "auth_pattern = ralt
     [re_lit ''invalid'', re_lit ''expired'', re_lit ''revoked'', re_lit ''unauthorized'',
      re_lit ''authentication'', rseq [re_lit ''api'', ropt (RSet '' _-''), re_lit ''key''],
      re_lit ''credential'']"

definition rate_pattern :: re where
  "rate_pattern = ralt
     [rseq [re_lit ''rate'', ropt (RSet '' _-''), re_lit ''limit''], re_lit ''too many requests'',
      rseq [re_lit ''concurrenc'', ralt [re_lit ''y'', re_lit ''ies'']], re_lit ''overloaded'',
      re_lit ''temporarily unavailable'']"

text \<open>The colon of the pattern is the ASCII one or the full-width one (bytes EF BC 9A).\<close>

definition reset_in_pattern :: "re list" where
  "reset_in_pattern =
     [rseq
       [ralt [rseq [re_lit ''it'', rplus re_s, re_lit ''will'', rplus re_s, re_lit ''reset'', rplus re_s, re_lit ''in''],
              rseq [re_lit ''reset'', ropt (re_ch (CHR ''s'')), rplus re_s, re_lit ''in''],
              rseq [re_lit ''retry'', rplus re_s, re_lit ''in'']],
        RStar re_s,
        ropt (RAlt (RSet '':'') (rseq [RSet [CHR 0xEF], RSet [CHR 0xBC], RSet [CHR 0x9A]])),
        RStar re_s],
      rplus (RNot [CHR 0x0A, CHR ''.'', CHR '';''])]"

definition duration_part :: "re list" where
  "duration_part =
     [RSeq (rplus re_d) (ropt (RSeq (RSet ''.'') (rplus re_d))),
      RStar re_s,
      ralt [RSeq (re_lit ''day'') (ropt (re_ch (CHR ''s''))), re_ch (CHR ''d''),
            RSeq (re_lit ''hour'') (ropt (re_ch (CHR ''s''))), RSeq (re_lit ''hr'') (ropt (re_ch (CHR ''s''))),
            re_ch (CHR ''h''),
            RSeq (re_lit ''minute'') (ropt (re_ch (CHR ''s''))), RSeq (re_lit ''min'') (ropt (re_ch (CHR ''s''))),
            re_ch (CHR ''m''),
            RSeq (re_lit ''second'') (ropt (re_ch (CHR ''s''))), RSeq (re_lit ''sec'') (ropt (re_ch (CHR ''s''))),
            re_ch (CHR ''s'')]]"

section \<open>The message of a response body\<close>

text \<open>
  Go visits the members of a map in an order it chooses at run time. The model takes that choice
  as an argument: a permutation of the members, here applied to the strings found under each.
\<close>

type_synonym map_order = "(string \<times> string list) list \<Rightarrow> (string \<times> string list) list"

definition is_order :: "map_order \<Rightarrow> bool" where
  "is_order ord \<longleftrightarrow> (\<forall>xs. mset (ord xs) = mset xs)"

fun collect_strings :: "map_order \<Rightarrow> json \<Rightarrow> string list" where
  "collect_strings ord (JStr s) = [s]"
| "collect_strings ord (JArr vs) = concat (map (collect_strings ord) vs)"
| "collect_strings ord (JObj kvs) =
     concat (map snd (ord (obj_items (map (\<lambda>kv. (fst kv, collect_strings ord (snd kv))) kvs))))"
| "collect_strings ord v = []"

definition extract_message :: "map_order \<Rightarrow> string \<Rightarrow> string" where
  "extract_message ord body =
     (if body = [] then []
      else case unmarshal_any body of
        None \<Rightarrow> trim_space body
      | Some v \<Rightarrow>
          (let found = collect_strings ord v
           in if found \<noteq> [] then join '' | '' found else trim_space body))"

section \<open>Reset times\<close>

text \<open>time.Duration of a float64 times a unit.\<close>

definition scale_duration :: "f64 \<Rightarrow> duration \<Rightarrow> duration" where
  "scale_duration n unit =
     to_int64 (case round_f64 False unit 1 of None \<Rightarrow> None | Some u \<Rightarrow> mult_f64 n u)"

definition unit_duration :: "char \<Rightarrow> f64 \<Rightarrow> duration" where
  "unit_duration c n =
     (if c = CHR ''d'' then scale_duration n (24 * hour)
      else if c = CHR ''h'' then scale_duration n hour
      else if c = CHR ''m'' then scale_duration n minute
      else if c = CHR ''s'' then scale_duration n second
      else 0)"

definition part_duration :: "string \<times> string list \<Rightarrow> duration" where
  "part_duration m =
     (case m of
        (b, [t1, t2, t3]) \<Rightarrow>
          (case parse_float (between b t1) of
             None \<Rightarrow> 0
           | Some n \<Rightarrow>
               (case to_lower (between t2 t3) of [] \<Rightarrow> 0 | c # _ \<Rightarrow> unit_duration c n))
      | _ \<Rightarrow> 0)"

definition parse_human_duration :: "string \<Rightarrow> duration" where
  "parse_human_duration value =
     foldl (\<lambda>total m. wrap64 (total + part_duration m)) 0 (find_all duration_part value)"

definition reset_in_message :: "string \<Rightarrow> time \<Rightarrow> time option" where
  "reset_in_message message now =
     (case find_segs reset_in_pattern message of
        Some (_, [t1, t2]) \<Rightarrow>
          (let d = parse_human_duration (between t1 t2) in if d \<le> 0 then None else Some (now + d))
      | _ \<Rightarrow> None)"

definition parse_reset :: "header \<Rightarrow> string \<Rightarrow> time \<Rightarrow> time option" where
  "parse_reset headers message now =
     (let value = header_get headers ''Retry-After'' in
      if value \<noteq> [] then
        (case atoi (trim_space value) of
           Some n \<Rightarrow> Some (now + wrap64 (n * second))
         | None \<Rightarrow>
             (case parse_http_time value of
                Some t \<Rightarrow> Some t
              | None \<Rightarrow> reset_in_message message now))
      else reset_in_message message now)"

section \<open>Classification\<close>

definition quota_window_of :: "string \<Rightarrow> string" where
  "quota_window_of message =
     (let lower = to_lower message in
      if search balance_pattern message then ''balance''
      else if contains lower ''5 hour'' \<or> contains lower ''5-hour'' then ''5h''
      else if contains lower ''week'' \<and> contains lower ''month'' then ''weekly_or_monthly''
      else if contains lower ''week'' then ''weekly''
      else if contains lower ''month'' then ''monthly''
      else ''unknown'')"

definition classify :: "map_order \<Rightarrow> int \<Rightarrow> header \<Rightarrow> string \<Rightarrow> time \<Rightarrow> classification" where
  "classify ord status headers body now =
     (let message = extract_message ord body;
          result = \<lparr>cl_kind = ErrorNone, cl_window = [], cl_reset = None, cl_message = message\<rparr>
      in if search quota_pattern message \<or> search balance_pattern message then
           result\<lparr>cl_kind := ErrorQuota, cl_window := quota_window_of message,
                  cl_reset := parse_reset headers message now\<rparr>
         else if (status = 401 \<or> status = 403) \<and> search auth_pattern message then
           result\<lparr>cl_kind := ErrorAuth\<rparr>
         else if status = 429 \<or> search rate_pattern message then
           result\<lparr>cl_kind := ErrorRateLimit, cl_reset := parse_reset headers message now\<rparr>
         else if 500 \<le> status then result\<lparr>cl_kind := ErrorUpstream\<rparr>
         else if 400 \<le> status then result\<lparr>cl_kind := ErrorRequest\<rparr>
         else result)"

text \<open>The kinds after which a key is given up for the request.\<close>

definition key_failure :: "error_kind \<Rightarrow> bool" where
  "key_failure k \<longleftrightarrow> k = ErrorQuota \<or> k = ErrorAuth"

end
