(* ===== verification/Headers.thy ===== *)
theory Headers
  imports GoHttp
begin

text \<open>
  Which headers pass the proxy (copyRequestHeaders, copyResponseHeaders and hopHeader of
  internal/proxy/service.go), and what that means for the credentials of client and upstream.
\<close>

section \<open>Copying\<close>

definition hop_header :: "string \<Rightarrow> bool" where
  "hop_header k \<longleftrightarrow>
     to_lower k \<in> set [''connection'', ''proxy-connection'', ''keep-alive'', ''proxy-authenticate'',
       ''proxy-authorization'', ''te'', ''trailer'', ''transfer-encoding'', ''upgrade'']"

definition withheld_request :: "string \<Rightarrow> bool" where
  "withheld_request k \<longleftrightarrow>
     hop_header k \<or> equal_fold k ''Authorization'' \<or> equal_fold k ''X-Api-Key'' \<or> equal_fold k ''Host'' \<or>
     equal_fold k ''Content-Length'' \<or> equal_fold k ''Accept-Encoding''"

definition withheld_response :: "string \<Rightarrow> bool" where
  "withheld_response k \<longleftrightarrow> hop_header k \<or> equal_fold k ''Content-Length''"

definition add_values :: "string \<Rightarrow> string list \<Rightarrow> header \<Rightarrow> header" where
  "add_values k vs dst = fold (\<lambda>v d. header_add d k v) vs dst"

definition copy_request_headers :: "header \<Rightarrow> header \<Rightarrow> header" where
  "copy_request_headers dst src =
     fold (\<lambda>(k, vs) d. if withheld_request k then d else add_values k vs d) src dst"

definition copy_response_headers :: "header \<Rightarrow> header \<Rightarrow> header" where
  "copy_response_headers dst src =
     fold (\<lambda>(k, vs) d. if withheld_response k then d else add_values k vs d) src dst"

section \<open>Keys up to case\<close>

lemma token_ascii: "token_char c \<Longrightarrow> ascii c"
proof -
  assume "token_char c"
  then have "CHR ''0'' \<le> c \<and> c \<le> CHR ''9'' \<or> is_upper c \<or> is_lower c \<or>
     c \<in> {CHR ''!'', CHR ''#'', CHR ''$'', CHR ''%'', CHR ''&'', CHR 0x27, CHR ''*'', CHR ''+'',
          CHR ''-'', CHR ''.'', CHR ''^'', CHR ''_'', CHR 0x60, CHR ''|'', CHR ''~''}"
    by (simp add: token_char_def is_digit_def)
  then show "ascii c"
    by (auto simp: ascii_def is_upper_iff is_lower_iff less_eq_char_def)
qed

lemma canon_chars_fold: "map lower_char (canon_chars up s) = map lower_char s"
  by (induction up s rule: canon_chars.induct) auto

lemma canon_chars_ascii: "list_all ascii (canon_chars up s) = list_all ascii s"
  by (induction up s rule: canon_chars.induct) auto

lemma fold_canonical: "fold_case (canonical_key k) = fold_case k"
proof (cases "list_all token_char k")
  case True
  then have "list_all ascii k" by (auto simp: list_all_iff intro: token_ascii)
  with True show ?thesis
    by (simp add: canonical_key_def fold_case_ascii canon_chars_ascii canon_chars_fold)
qed (simp add: canonical_key_def)

text \<open>Keys with one canonical form are equal under EqualFold.\<close>

lemma equal_fold_canonical: "canonical_key k = canonical_key l \<Longrightarrow> equal_fold k l"
  using fold_canonical [of k] fold_canonical [of l] by (simp add: equal_fold_def)

section \<open>What arrives\<close>

lemma values_add_values:
  "header_values (add_values k vs d) l =
     (if canonical_key l = canonical_key k then header_values d l @ vs else header_values d l)"
proof (induction vs arbitrary: d)
  case (Cons v vs)
  have "header_values d k = header_values d l" if "canonical_key l = canonical_key k"
    using that by (simp add: header_values_def)
  with Cons show ?case by (simp add: add_values_def header_values_add)
qed (simp add: add_values_def)

text \<open>The values under a key after copying: those it had and those of the copied keys.\<close>

lemma values_copy_request:
  "header_values (copy_request_headers d src) l =
     header_values d l @
     concat (map snd (filter (\<lambda>(k, vs). \<not> withheld_request k \<and> canonical_key k = canonical_key l) src))"
  by (induction src arbitrary: d) (auto simp: copy_request_headers_def values_add_values split: if_splits)

lemma values_copy_response:
  "header_values (copy_response_headers d src) l =
     header_values d l @
     concat (map snd (filter (\<lambda>(k, vs). \<not> withheld_response k \<and> canonical_key k = canonical_key l) src))"
  by (induction src arbitrary: d) (auto simp: copy_response_headers_def values_add_values split: if_splits)

text \<open>A withheld name gets no value from the client, however the client spells it.\<close>

lemma withheld_not_copied:
  assumes "\<And>k. equal_fold k l \<Longrightarrow> withheld_request k"
  shows "header_values (copy_request_headers d src) l = header_values d l"
proof -
  have "filter (\<lambda>(k, vs). \<not> withheld_request k \<and> canonical_key k = canonical_key l) src = []"
    using assms equal_fold_canonical by (auto simp: filter_empty_conv)
  then show ?thesis by (simp add: values_copy_request)
qed

text \<open>So does a hop-by-hop name.\<close>

lemma to_lower_ascii: "list_all ascii s \<Longrightarrow> to_lower s = map lower_char s"
  by (induction s) (auto simp: ascii_def)

lemma to_lower_canonical:
  assumes "canonical_key k = canonical_key l" "list_all token_char l"
  shows "to_lower k = to_lower l"
proof -
  have token: "list_all token_char s \<Longrightarrow> list_all ascii s" for s
    by (auto simp: list_all_iff intro: token_ascii)
  show ?thesis
  proof (cases "list_all token_char k")
    case True
    then have "canon_chars True k = canon_chars True l" using assms by (simp add: canonical_key_def)
    then have "map lower_char k = map lower_char l" by (metis canon_chars_fold)
    then show ?thesis using token True assms(2) by (simp add: to_lower_ascii)
  next
    case False
    with assms have "k = canon_chars True l" by (simp add: canonical_key_def)
    then show ?thesis using token assms(2)
      by (simp add: to_lower_ascii canon_chars_ascii canon_chars_fold)
  qed
qed

lemma hop_not_copied:
  assumes "hop_header l" "list_all token_char l"
  shows "header_values (copy_request_headers d src) l = header_values d l"
    and "header_values (copy_response_headers d src) l = header_values d l"
proof -
  have "hop_header k" if "canonical_key k = canonical_key l" for k
    using to_lower_canonical [OF that assms(2)] assms(1) by (simp add: hop_header_def)
  then have "filter (\<lambda>(k, vs). \<not> withheld_request k \<and> canonical_key k = canonical_key l) src = []"
    "filter (\<lambda>(k, vs). \<not> withheld_response k \<and> canonical_key k = canonical_key l) src = []"
    by (auto simp: filter_empty_conv withheld_request_def withheld_response_def)
  then show "header_values (copy_request_headers d src) l = header_values d l"
    "header_values (copy_response_headers d src) l = header_values d l"
    by (simp_all only: values_copy_request values_copy_response list.map concat.simps append_Nil2)
qed

end
