(* ===== verification/Requests.thy ===== *)
theory Requests
  imports Headers
begin

text \<open>
  What the handler makes of a request body (readLimited, inspectRequest and ensureStreamUsage of
  internal/proxy/service.go).
\<close>

section \<open>Reading the body\<close>

datatype body_error = ReadError | TooLarge

text \<open>The limit is a 64-bit number, and so is the limit plus one that bounds the reader.\<close>

definition read_limited :: "http_body \<Rightarrow> int \<Rightarrow> body_error + string" where
  "read_limited r lim =
     (case read_all (nat (wrap64 (lim + 1))) r of
        None \<Rightarrow> Inl ReadError
      | Some b \<Rightarrow> if lim < int (length b) then Inl TooLarge else Inr b)"

lemma read_limited_Inr_length: "read_limited r lim = Inr b \<Longrightarrow> int (length b) \<le> lim"
  by (auto simp: read_limited_def split: option.splits if_splits)

section \<open>The fields the proxy looks at\<close>

record request_meta =
  rm_model :: string
  rm_stream :: bool
  rm_messages :: int
  rm_tools :: int

definition no_meta :: request_meta where
  "no_meta = \<lparr>rm_model = [], rm_stream = False, rm_messages = 0, rm_tools = 0\<rparr>"

text \<open>
  Decoding one member into the struct: the field whose name it has up to case; a value of another
  type leaves the field as it was, and null leaves a string or bool and empties a slice.
\<close>

definition meta_member :: "string \<times> json \<Rightarrow> request_meta \<Rightarrow> request_meta" where
  "meta_member kv m =
     (case kv of (k, v) \<Rightarrow>
        if equal_fold k ''model'' then (case v of JStr s \<Rightarrow> m\<lparr>rm_model := s\<rparr> | _ \<Rightarrow> m)
        else if equal_fold k ''stream'' then (case v of JBool b \<Rightarrow> m\<lparr>rm_stream := b\<rparr> | _ \<Rightarrow> m)
        else if equal_fold k ''messages'' then
          (case v of JArr vs \<Rightarrow> m\<lparr>rm_messages := int (length vs)\<rparr> | JNull \<Rightarrow> m\<lparr>rm_messages := 0\<rparr> | _ \<Rightarrow> m)
        else if equal_fold k ''tools'' then
          (case v of JArr vs \<Rightarrow> m\<lparr>rm_tools := int (length vs)\<rparr> | JNull \<Rightarrow> m\<lparr>rm_tools := 0\<rparr> | _ \<Rightarrow> m)
        else m)"

definition inspect_request :: "string \<Rightarrow> request_meta" where
  "inspect_request body =
     (case parse_json body of Some (JObj kvs) \<Rightarrow> fold meta_member kvs no_meta | _ \<Rightarrow> no_meta)"

section \<open>Asking for the usage of a stream\<close>

definition include_usage :: "(string \<times> json) list \<Rightarrow> (string \<times> json) list" where
  "include_usage opts =
     (if obj_get opts ''include_usage'' = None then opts @ [(''include_usage'', JBool True)] else opts)"

definition with_usage :: "(string \<times> json) list \<Rightarrow> (string \<times> json) list" where
  "with_usage v =
     (let opts = (case obj_get v ''stream_options'' of Some (JObj o1) \<Rightarrow> o1 | _ \<Rightarrow> [])
      in v @ [(''stream_options'', JObj (include_usage opts))])"

definition ensure_stream_usage :: "string \<Rightarrow> string" where
  "ensure_stream_usage body =
     (case unmarshal_map body of
        None \<Rightarrow> body
      | Some v \<Rightarrow>
          (case obj_get v ''stream'' of
             Some (JBool True) \<Rightarrow> marshal (JObj (with_usage v))
           | _ \<Rightarrow> body))"

lemma obj_get_append: "obj_get (xs @ ys) k = (case obj_get ys k of Some v \<Rightarrow> Some v | None \<Rightarrow> obj_get xs k)"
  by (simp add: obj_get_def map_add_def split: option.split)

text \<open>Every other member of the body stays, and so does an option the client has set.\<close>

lemma with_usage_other: "k \<noteq> ''stream_options'' \<Longrightarrow> obj_get (with_usage v) k = obj_get v k"
  by (simp add: with_usage_def Let_def obj_get_append obj_get_Cons)

lemma include_usage_get:
  "obj_get (include_usage opts) k =
     (if k = ''include_usage'' \<and> obj_get opts k = None then Some (JBool True) else obj_get opts k)"
  by (auto simp: include_usage_def obj_get_append obj_get_Cons split: option.split)

lemma with_usage_options:
  "obj_get (with_usage v) ''stream_options'' = Some (JObj (include_usage
     (case obj_get v ''stream_options'' of Some (JObj o1) \<Rightarrow> o1 | _ \<Rightarrow> [])))"
  by (simp add: with_usage_def Let_def obj_get_append obj_get_Cons)

end
