(* ===== verification/Usage.thy ===== *)
theory Usage
  imports StoreTypes GoHttp
begin

text \<open>
  internal/proxy/usage.go: the token counts of a response, gathered from every JSON document the
  upstream sends. A document may hold a usage object itself or in its message; the counts are
  int64 values read from JSON numbers, which Go holds as float64.
\<close>

section \<open>Reading counts\<close>

definition int_field :: "(string \<times> json) list \<Rightarrow> string \<Rightarrow> int option" where
  "int_field m k = (case obj_get m k of Some (JNum lit) \<Rightarrow> Some (to_int64 (num_f64 lit)) | _ \<Rightarrow> None)"

definition int_field_either :: "(string \<times> json) list \<Rightarrow> string \<Rightarrow> string \<Rightarrow> int option" where
  "int_field_either m a b = (case int_field m a of Some v \<Rightarrow> Some v | None \<Rightarrow> int_field m b)"

definition obj_field :: "(string \<times> json) list \<Rightarrow> string \<Rightarrow> (string \<times> json) list option" where
  "obj_field m k = (case obj_get m k of Some v \<Rightarrow> as_obj v | None \<Rightarrow> None)"

definition nested_int :: "(string \<times> json) list \<Rightarrow> string \<Rightarrow> string \<Rightarrow> int option" where
  "nested_int m outer inner = (case obj_field m outer of Some v \<Rightarrow> int_field v inner | None \<Rightarrow> None)"

definition value_of :: "int option \<Rightarrow> int" where
  "value_of v = (case v of Some n \<Rightarrow> n | None \<Rightarrow> 0)"

text \<open>The assignment under an "if present".\<close>

definition when_some :: "int option \<Rightarrow> int option \<Rightarrow> int option" where
  "when_some new old = (case new of Some n \<Rightarrow> Some n | None \<Rightarrow> old)"

lemma when_some_simps [simp]: "when_some (Some n) v = Some n" "when_some None v = v"
  by (simp_all add: when_some_def)

section \<open>The accumulator\<close>

definition observe_anthropic :: "(string \<times> json) list \<Rightarrow> usage \<Rightarrow> usage" where
  "observe_anthropic m u =
     (let uncached = int_field m ''input_tokens'';
          read = int_field m ''cache_read_input_tokens'';
          write = int_field m ''cache_creation_input_tokens'';
          output = int_field m ''output_tokens'';
          u1 = u\<lparr>us_raw := marshal (JObj m), us_uncached := when_some uncached (us_uncached u),
                 us_cache_read := when_some read (us_cache_read u),
                 us_cache_write := when_some write (us_cache_write u),
                 us_output := when_some output (us_output u)\<rparr>;
          u2 = (if uncached \<noteq> None \<or> read \<noteq> None \<or> write \<noteq> None
                then u1\<lparr>us_total_input :=
                  Some (wrap64 (wrap64 (value_of (us_uncached u1) + value_of (us_cache_read u1))
                                + value_of (us_cache_write u1)))\<rparr>
                else u1)
      in u2\<lparr>us_state := (if uncached \<noteq> None \<and> output \<noteq> None then ''complete'' else ''partial'')\<rparr>)"

text \<open>The cached part of the input; of the two spellings the second one counts.\<close>

definition cached_tokens :: "(string \<times> json) list \<Rightarrow> int option" where
  "cached_tokens m =
     when_some (nested_int m ''input_tokens_details'' ''cached_tokens'')
       (nested_int m ''prompt_tokens_details'' ''cached_tokens'')"

definition observe_openai :: "(string \<times> json) list \<Rightarrow> usage \<Rightarrow> usage" where
  "observe_openai m u =
     (let input = int_field_either m ''prompt_tokens'' ''input_tokens'';
          output = int_field_either m ''completion_tokens'' ''output_tokens'';
          cached = cached_tokens m;
          uncached = (case input of
              None \<Rightarrow> us_uncached u
            | Some n \<Rightarrow> (let rest = wrap64 (n - value_of cached) in Some (if rest < 0 then 0 else rest)))
      in u\<lparr>us_raw := marshal (JObj m), us_total_input := when_some input (us_total_input u),
           us_output := when_some output (us_output u),
           us_cache_read := when_some cached (us_cache_read u),
           us_uncached := uncached,
           us_reasoning := when_some (nested_int m ''completion_tokens_details'' ''reasoning_tokens'')
             (us_reasoning u),
           us_total := when_some (int_field m ''total_tokens'') (us_total u),
           us_state := (if input \<noteq> None \<and> output \<noteq> None then ''complete'' else ''partial'')\<rparr>)"

definition observe_usage :: "string \<Rightarrow> (string \<times> json) list \<Rightarrow> usage \<Rightarrow> usage" where
  "observe_usage protocol m u = (if protocol = ''anthropic'' then observe_anthropic m u else observe_openai m u)"

definition observe_json :: "string \<Rightarrow> string \<Rightarrow> usage \<Rightarrow> usage" where
  "observe_json protocol data u =
     (case unmarshal_map data of
        None \<Rightarrow> u
      | Some root \<Rightarrow>
          let u1 = (case obj_field root ''usage'' of None \<Rightarrow> u | Some m \<Rightarrow> observe_usage protocol m u)
          in case obj_field root ''message'' of
               None \<Rightarrow> u1
             | Some msg \<Rightarrow>
                 (case obj_field msg ''usage'' of None \<Rightarrow> u1 | Some m \<Rightarrow> observe_usage protocol m u1))"

text \<open>The accumulator after a sequence of documents.\<close>

definition observe_all :: "string \<Rightarrow> string list \<Rightarrow> usage" where
  "observe_all protocol docs = fold (observe_json protocol) docs no_usage"

section \<open>What the counts mean\<close>

text \<open>A count, when there is one, is a 64-bit number.\<close>

definition count_ok :: "int option \<Rightarrow> bool" where
  "count_ok v \<longleftrightarrow> (case v of None \<Rightarrow> True | Some n \<Rightarrow> in_int64 n)"

lemma count_ok_simps [simp]: "count_ok None" "count_ok (Some n) = in_int64 n"
  by (simp_all add: count_ok_def)

lemma count_ok_when_some [intro]: "count_ok new \<Longrightarrow> count_ok old \<Longrightarrow> count_ok (when_some new old)"
  by (cases new) simp_all

lemma count_ok_field [simp]:
  "count_ok (int_field m k)" "count_ok (int_field_either m a b)" "count_ok (nested_int m a b)"
  by (auto simp: int_field_def int_field_either_def nested_int_def split: option.split json.split)

lemma count_ok_cached [simp]: "count_ok (cached_tokens m)"
  by (auto simp: cached_tokens_def)

text \<open>
  A sound usage: its state is one of three, no count is there before the first usage object, a
  complete one holds the counts of input and output, and all counts are 64-bit numbers.
\<close>

definition usage_sound :: "usage \<Rightarrow> bool" where
  "usage_sound u \<longleftrightarrow>
     us_state u \<in> {''unavailable'', ''partial'', ''complete''} \<and>
     (us_state u = ''unavailable'' \<longrightarrow> u = no_usage) \<and>
     (us_state u = ''complete'' \<longrightarrow>
        us_uncached u \<noteq> None \<and> us_output u \<noteq> None \<and> us_total_input u \<noteq> None) \<and>
     count_ok (us_uncached u) \<and> count_ok (us_cache_read u) \<and> count_ok (us_cache_write u) \<and>
     count_ok (us_output u) \<and> count_ok (us_reasoning u) \<and> count_ok (us_total_input u) \<and>
     count_ok (us_total u)"

lemma usage_sound_none: "usage_sound no_usage"
  by (simp add: usage_sound_def no_usage_def)

lemma usage_soundI:
  assumes "us_state u = (if inp \<noteq> None \<and> outp \<noteq> None then ''complete'' else ''partial'')"
    and "inp \<noteq> None \<Longrightarrow> us_uncached u \<noteq> None \<and> us_total_input u \<noteq> None"
    and "outp \<noteq> None \<Longrightarrow> us_output u \<noteq> None"
    and "count_ok (us_uncached u)" "count_ok (us_cache_read u)" "count_ok (us_cache_write u)"
    and "count_ok (us_output u)" "count_ok (us_reasoning u)" "count_ok (us_total_input u)"
    and "count_ok (us_total u)"
  shows "usage_sound u"
  using assms by (simp add: usage_sound_def)

lemma when_some_not_None [simp]: "when_some v w = None \<longleftrightarrow> v = None \<and> w = None"
  by (cases v) simp_all

lemma usage_sound_openai:
  assumes "usage_sound u" shows "usage_sound (observe_openai m u)"
proof -
  have counts: "count_ok (us_uncached u)" "count_ok (us_cache_read u)" "count_ok (us_cache_write u)"
    "count_ok (us_output u)" "count_ok (us_reasoning u)" "count_ok (us_total_input u)" "count_ok (us_total u)"
    using assms by (simp_all add: usage_sound_def)
  have "count_ok (Some (if wrap64 n < 0 then 0 else wrap64 n))" for n
    using wrap64_bounds [of n] by (simp add: in_int64_def)
  then have uncached: "count_ok (us_uncached (observe_openai m u))"
    using counts(1) by (simp add: observe_openai_def Let_def split: option.split)
  show ?thesis
    by (rule usage_soundI [where inp = "int_field_either m ''prompt_tokens'' ''input_tokens''"
          and outp = "int_field_either m ''completion_tokens'' ''output_tokens''"])
      (simp_all add: uncached, simp_all add: observe_openai_def Let_def counts count_ok_when_some
        del: count_ok_simps, auto simp: Let_def)
qed

lemma usage_sound_anthropic:
  assumes "usage_sound u" shows "usage_sound (observe_anthropic m u)"
proof -
  have counts: "count_ok (us_uncached u)" "count_ok (us_cache_read u)" "count_ok (us_cache_write u)"
    "count_ok (us_output u)" "count_ok (us_reasoning u)" "count_ok (us_total_input u)" "count_ok (us_total u)"
    using assms by (simp_all add: usage_sound_def)
  show ?thesis
    by (rule usage_soundI [where inp = "int_field m ''input_tokens''" and outp = "int_field m ''output_tokens''"])
      (simp_all add: observe_anthropic_def Let_def counts count_ok_when_some del: not_None_eq)
qed

lemma usage_sound_observe: "usage_sound u \<Longrightarrow> usage_sound (observe_usage protocol m u)"
  by (simp add: observe_usage_def usage_sound_openai usage_sound_anthropic)

lemma usage_sound_json: "usage_sound u \<Longrightarrow> usage_sound (observe_json protocol data u)"
  by (auto simp: observe_json_def Let_def usage_sound_observe split: option.split)

lemma usage_sound_all: "usage_sound (observe_all protocol docs)"
proof -
  have "usage_sound u \<Longrightarrow> usage_sound (fold (observe_json protocol) docs u)" for u
    by (induction docs arbitrary: u) (simp_all add: usage_sound_json)
  then show ?thesis by (simp add: observe_all_def usage_sound_none)
qed

end
