(* ===== verification/Server.thy ===== *)
theory Server
  imports StoreLaws Classifier Requests Usage
begin

text \<open>
  The world of a handler: the host of the store, the upstream and what was sent to it, and the
  connection to the client. Third parties are parameters: the cipher behind identity.Decrypt, the
  order of Go's maps, and the answers of the upstream.
\<close>

section \<open>The upstream\<close>

record upstream_call =
  uc_method :: string
  uc_url :: string
  uc_query :: string
  uc_header :: header
  uc_body :: string

text \<open>What comes of a call: an error of the client (with its text), or a response.\<close>

datatype reply = CallFailed string | Reply response

record server = host +
  sv_upstream :: "nat \<Rightarrow> upstream_call \<Rightarrow> reply"
  sv_calls :: "upstream_call list"
  sv_writer :: writer

text \<open>
  The configuration and the parameters: \<open>en_decrypt\<close> is identity.Decrypt with its error text,
  \<open>en_order n\<close> the order in which a map is visited when the clock has been read n times,
  \<open>en_read_error\<close> the text of an error of the connection the request comes from.
\<close>

record env =
  en_base_url :: string
  en_max_request :: int
  en_retention :: duration
  en_decrypt :: "string \<Rightarrow> string + string"
  en_order :: "nat \<Rightarrow> map_order"
  en_read_error :: string

text \<open>An incoming request; the principal is the one proxyAuth found.\<close>

record incoming =
  in_header :: header
  in_query :: string
  in_body :: http_body
  in_client :: string
  in_client_name :: string

type_synonym 'a handler = "(server, 'a) state"

section \<open>Calls\<close>

definition send :: "upstream_call \<Rightarrow> reply handler" where
  "send c = State (\<lambda>s. (sv_upstream s (length (sv_calls s)) c, s\<lparr>sv_calls := sv_calls s @ [c]\<rparr>))"

definition inference_call :: "env \<Rightarrow> incoming \<Rightarrow> string \<Rightarrow> string \<Rightarrow> string \<Rightarrow> upstream_call" where
  "inference_call ev inc protocol body secret =
     (let endpoint = (if protocol = ''anthropic'' then ''/messages'' else ''/chat/completions'');
          h1 = copy_request_headers [] (in_header inc);
          h2 = header_set h1 ''Authorization'' (''Bearer '' @ secret);
          h3 = (if protocol = ''anthropic'' then header_set h2 ''X-Api-Key'' secret else h2)
      in \<lparr>uc_method = ''POST'', uc_url = trim_right (en_base_url ev) (CHR ''/'') @ endpoint,
          uc_query = in_query inc, uc_header = header_set h3 ''Content-Type'' ''application/json'',
          uc_body = body\<rparr>)"

definition call_upstream :: "env \<Rightarrow> incoming \<Rightarrow> string \<Rightarrow> string \<Rightarrow> string \<Rightarrow> reply handler" where
  "call_upstream ev inc protocol body secret = send (inference_call ev inc protocol body secret)"

definition models_call :: "env \<Rightarrow> string \<Rightarrow> upstream_call" where
  "models_call ev secret =
     \<lparr>uc_method = ''GET'', uc_url = trim_right (en_base_url ev) (CHR ''/'') @ ''/models'', uc_query = [],
      uc_header = header_set [] ''Authorization'' (''Bearer '' @ secret), uc_body = []\<rparr>"

section \<open>The client\<close>

definition writer_do :: "(writer \<Rightarrow> writer) \<Rightarrow> unit handler" where
  "writer_do f = modify (\<lambda>s. s\<lparr>sv_writer := f (sv_writer s)\<rparr>)"

definition write_out :: "string \<Rightarrow> bool handler" where
  "write_out bs = State (\<lambda>s. case write_bytes bs (sv_writer s) of (good, w) \<Rightarrow> (good, s\<lparr>sv_writer := w\<rparr>))"

definition write_json :: "int \<Rightarrow> json \<Rightarrow> unit handler" where
  "write_json status v = do {
     writer_do (set_header ''Content-Type'' ''application/json'');
     writer_do (write_header status);
     _ \<leftarrow> write_out (marshal v @ [CHR 0x0A]);
     State_Monad.return () }"

definition error_json :: "string \<Rightarrow> string \<Rightarrow> json" where
  "error_json message type = JObj [(''error'', JObj [(''message'', JStr message), (''type'', JStr type)])]"

definition send_headers :: "response \<Rightarrow> unit handler" where
  "send_headers rs = do {
     writer_do (\<lambda>w. w\<lparr>wr_header := copy_response_headers (wr_header w) (rs_header rs)\<rparr>);
     writer_do (write_header (rs_status rs)) }"

section \<open>Classification in a handler\<close>

definition classify_at :: "env \<Rightarrow> int \<Rightarrow> header \<Rightarrow> string \<Rightarrow> time \<Rightarrow> classification handler" where
  "classify_at ev status hdr body t =
     gets (\<lambda>s. classify (en_order ev (h_ticks s)) status hdr body t)"

definition ignore :: "('s, 'a) state \<Rightarrow> ('s, unit) state" where
  "ignore m = State_Monad.bind m (\<lambda>_. State_Monad.return ())"

definition record_key_failure :: "int \<Rightarrow> classification \<Rightarrow> time \<Rightarrow> (server, db_error + unit) state" where
  "record_key_failure i c t =
     (if cl_kind c = ErrorAuth then mark_invalid i (cl_message c)
      else if cl_kind c = ErrorQuota then
        (case cl_reset c of
           Some r \<Rightarrow> mark_quota i (cl_window c) (Some r) (cl_message c)
         | None \<Rightarrow> do {
             s \<leftarrow> get_settings;
             let interval = (case s of
                 Inr v \<Rightarrow> if 60 \<le> st_probe_interval v then wrap64 (st_probe_interval v * second) else 15 * minute
               | Inl _ \<Rightarrow> 15 * minute);
             mark_quota i (cl_window c) (Some (t + interval)) (cl_message c) })
      else ok ())"

definition promote_if_needed :: "key \<Rightarrow> unit handler" where
  "promote_if_needed k = (if k_role k \<noteq> ''active'' then ignore (set_active (k_id k)) else State_Monad.return ())"

definition finish :: "request_record \<Rightarrow> usage \<Rightarrow> time \<Rightarrow> unit handler" where
  "finish r u started = do {
     t \<leftarrow> now;
     ignore (finish_request (r\<lparr>rq_finished := Some t, rq_latency := ms_between started t\<rparr>) u) }"

definition finish_unavailable :: "request_record \<Rightarrow> time \<Rightarrow> string \<Rightarrow> unit handler" where
  "finish_unavailable r started class =
     finish (r\<lparr>rq_status := 503, rq_outcome := ''error'', rq_error := class\<rparr>) no_usage started"

end
