(* ===== verification/Frame.thy ===== *)
theory Frame
  imports Server
begin

text \<open>
  What the methods of the store leave alone: everything outside the host, so the calls to the
  upstream and the connection to the client, and the clock behind the readings.
\<close>

section \<open>The rest of the world\<close>

definition outside :: "'z \<Rightarrow> 'z host_scheme \<Rightarrow> bool" where
  "outside m h \<longleftrightarrow> host.more h = m"

lemma outside_simps [simp]:
  "outside m (h\<lparr>h_ticks := n\<rparr>) = outside m h" "outside m (h\<lparr>h_faults := bs\<rparr>) = outside m h"
  "outside m (h\<lparr>h_db := d\<rparr>) = outside m h"
  by (simp_all add: outside_def)

lemma outside_now [keep_intros]: "keeps (outside m) now"
  by (rule keepsI) (simp add: run_simps)

lemma outside_now_text [keep_intros]: "keeps (outside m) now_text"
  unfolding now_text_def by (intro keep_intros)

lemma outside_fault [keep_intros]: "keeps (outside m) fault"
  by (rule keepsI) (simp add: run_simps split: list.split)

lemma outside_query [keep_intros]: "keeps (outside m) (query f)"
  unfolding query_def by (intro keep_intros)

lemma outside_exec [keep_intros]: "keeps (outside m) (exec f)"
  unfolding exec_def by (intro keep_intros keepsI) (auto split: sum.split prod.split)

lemma outside_transaction [keep_intros]:
  assumes "keeps (outside m) body" shows "keeps (outside m) (transaction body)"
proof (rule keepsI)
  fix h :: "'a host_scheme" assume h: "outside m h"
  let ?m = "try_bind (query id) (\<lambda>_. try_bind body (\<lambda>a. query (\<lambda>_. a)))"
  have "keeps (outside m) ?m" by (intro keep_intros assms)
  from keepsD [OF this h] have "outside m (snd (run_state ?m h))" .
  then show "outside m (snd (run_state (transaction body) h))"
    by (auto simp: transaction_def split: prod.split sum.split)
qed

lemmas store_defs =
  key_by_id_def query_row_def create_key_def list_keys_def update_key_def delete_key_def set_active_def
  promote_one_def mark_checked_def mark_used_def mark_invalid_def mark_quota_def mark_half_open_due_def
  eligible_keys_def auth_valid_keys_def get_settings_def update_settings_def begin_request_def
  add_attempt_def finish_request_def rename_request_client_def purge_before_def save_model_cache_def
  model_cache_def fail_def ok_def

lemma outside_store [keep_intros]:
  "keeps (outside m) (key_by_id i)" "keeps (outside m) (create_key k)" "keeps (outside m) list_keys"
  "keeps (outside m) (update_key i n p e ov)" "keeps (outside m) (delete_key i)"
  "keeps (outside m) (set_active i)" "keeps (outside m) (mark_checked i x c q err)"
  "keeps (outside m) (mark_used i)" "keeps (outside m) (mark_invalid i msg)"
  "keeps (outside m) (mark_quota i w rs msg)" "keeps (outside m) mark_half_open_due"
  "keeps (outside m) eligible_keys" "keeps (outside m) auth_valid_keys" "keeps (outside m) get_settings"
  "keeps (outside m) (update_settings v)" "keeps (outside m) (begin_request r)"
  "keeps (outside m) (add_attempt a)" "keeps (outside m) (finish_request r u)"
  "keeps (outside m) (rename_request_client s n)" "keeps (outside m) (purge_before t)"
  "keeps (outside m) (save_model_cache s i)" "keeps (outside m) model_cache"
  unfolding store_defs by (intro keep_intros)+

lemma outside_handler [keep_intros]:
  "keeps (outside m) (record_key_failure i c t)" "keeps (outside m) (promote_if_needed k)"
  "keeps (outside m) (finish r u t)" "keeps (outside m) (finish_unavailable r t s)"
  "keeps (outside m) (classify_at ev st hdr body t)"
  unfolding record_key_failure_def promote_if_needed_def finish_unavailable_def finish_def ignore_def
    classify_at_def ok_def Let_def
  by (intro keep_intros)+

lemma outside_ignore [keep_intros]: "keeps (outside m) n \<Longrightarrow> keeps (outside m) (ignore n)"
  unfolding ignore_def by (intro keep_intros)

section \<open>What a step leaves alone\<close>

text \<open>A program that stays inside the host changes neither the calls nor the connection.\<close>

lemma outside_server:
  assumes "\<And>m. keeps (outside m) p" "run_state p s = (a, s')"
  shows "sv_calls s' = sv_calls s" "sv_writer s' = sv_writer s" "sv_upstream s' = sv_upstream s"
proof -
  have "outside (host.more s) (snd (run_state p s))"
    by (rule keepsD [OF assms(1)]) (simp add: outside_def)
  then have "host.more s' = host.more s" using assms(2) by (simp add: outside_def)
  then show "sv_calls s' = sv_calls s" "sv_writer s' = sv_writer s" "sv_upstream s' = sv_upstream s"
    by (cases s; cases s'; simp)+
qed

end
