(* ===== verification/Sse.thy ===== *)
theory Sse
  imports GoHttp
begin

text \<open>
  Reading server-sent events (readSSEEvent and eventData of internal/proxy/service.go). The
  buffered reader is the part of the body that is still to be read; what follows the body is the
  end of the stream or a read error.
\<close>

section \<open>Lines\<close>

definition newline :: char where
  "newline = CHR 0x0A"

definition carriage :: char where
  "carriage = CHR 0x0D"

datatype read_error = Eof | ReadFailed | TooLong

text \<open>ReadBytes: the line with its newline and the rest, or what is left and why there is no more.\<close>

definition read_line :: "http_body \<Rightarrow> string \<times> read_error option \<times> http_body" where
  "read_line b =
     (let s = bd_data b; l = takeWhile (\<lambda>c. c \<noteq> newline) s in
      case dropWhile (\<lambda>c. c \<noteq> newline) s of
        [] \<Rightarrow> (s, Some (if bd_fails b then ReadFailed else Eof), b\<lparr>bd_data := []\<rparr>)
      | _ # t \<Rightarrow> (l @ [newline], None, b\<lparr>bd_data := t\<rparr>))"

lemma read_line_append:
  assumes "read_line b = (line, e, b')"
  shows "line @ bd_data b' = bd_data b" and "bd_fails b' = bd_fails b"
    and "e = None \<Longrightarrow> line \<noteq> [] \<and> last line = newline"
    and "e \<noteq> None \<Longrightarrow> bd_data b' = [] \<and> newline \<notin> set line \<and> e = Some (if bd_fails b then ReadFailed else Eof)"
proof -
  let ?s = "bd_data b"
  have s: "takeWhile (\<lambda>c. c \<noteq> newline) ?s @ dropWhile (\<lambda>c. c \<noteq> newline) ?s = ?s" by simp
  consider "dropWhile (\<lambda>c. c \<noteq> newline) ?s = []" | t where "dropWhile (\<lambda>c. c \<noteq> newline) ?s = newline # t"
    by (cases "dropWhile (\<lambda>c. c \<noteq> newline) ?s") (auto simp: dropWhile_eq_Cons_conv)
  then show "line @ bd_data b' = bd_data b" "bd_fails b' = bd_fails b"
    "e = None \<Longrightarrow> line \<noteq> [] \<and> last line = newline"
    "e \<noteq> None \<Longrightarrow> bd_data b' = [] \<and> newline \<notin> set line \<and> e = Some (if bd_fails b then ReadFailed else Eof)"
    using assms s by (cases; auto simp: read_line_def Let_def split: if_splits)+
qed

lemma read_line_shorter:
  assumes "read_line b = (line, None, b')" shows "length (bd_data b') < length (bd_data b)"
proof -
  have "line @ bd_data b' = bd_data b" "line \<noteq> []" using read_line_append [OF assms] by simp_all
  then show ?thesis by (metis length_append length_greater_0_conv less_add_same_cancel2)
qed

section \<open>Events\<close>

definition blank_line :: "string \<Rightarrow> bool" where
  "blank_line l \<longleftrightarrow> l = [newline] \<or> l = [carriage, newline]"

text \<open>The loop of readSSEEvent, with the buffer filled so far.\<close>

function read_loop :: "nat \<Rightarrow> string \<Rightarrow> http_body \<Rightarrow> string \<times> read_error option \<times> http_body" where
  "read_loop lim buf b =
     (if length buf \<le> lim then
        (case read_line b of
           (line, e, b') \<Rightarrow>
             if blank_line line then (buf @ line, e, b')
             else case e of
                    None \<Rightarrow> read_loop lim (buf @ line) b'
                  | Some err \<Rightarrow> (buf @ line, Some err, b'))
      else ([], Some TooLong, b))"
  by pat_completeness auto
termination
  by (relation "measure (\<lambda>(lim, buf, b). length (bd_data b))") (auto dest: read_line_shorter [OF sym])

declare read_loop.simps [simp del]

definition read_sse_event :: "nat \<Rightarrow> http_body \<Rightarrow> string \<times> read_error option \<times> http_body" where
  "read_sse_event lim b = read_loop lim [] b"

text \<open>Unless it is too long, an event is exactly what was read of the body.\<close>

lemma read_loop_append:
  assumes "read_loop lim buf b = (ev, e, b')" "e \<noteq> Some TooLong"
  shows "ev @ bd_data b' = buf @ bd_data b \<and> bd_fails b' = bd_fails b"
  using assms
proof (induction lim buf b arbitrary: ev e b' rule: read_loop.induct)
  case (1 lim buf b)
  obtain line e1 b1 where l: "read_line b = (line, e1, b1)" by (cases "read_line b")
  note step = read_line_append [OF l]
  show ?case
  proof (cases "blank_line line \<or> e1 \<noteq> None")
    case True
    with 1(2,3) l step(1,2) show ?thesis
      by (subst (asm) read_loop.simps) (auto split: if_splits)
  next
    case False
    with 1(2,3) l have "read_loop lim (buf @ line) b1 = (ev, e, b')" "length buf \<le> lim"
      by (subst (asm) read_loop.simps, auto split: if_splits)+
    from 1(1) [OF this(2) l [symmetric] refl _ _ this(1) 1(3)] False step show ?thesis by auto
  qed
qed

lemma read_sse_event_append:
  assumes "read_sse_event lim b = (ev, e, b')" "e \<noteq> Some TooLong"
  shows "ev @ bd_data b' = bd_data b" "bd_fails b' = bd_fails b"
  using read_loop_append assms by (auto simp: read_sse_event_def)

text \<open>Without an error the event ends with a newline, so reading it makes progress.\<close>

lemma read_loop_None:
  assumes "read_loop lim buf b = (ev, None, b')"
  shows "length (bd_data b') < length (bd_data b) \<and> ev \<noteq> [] \<and> last ev = newline"
  using assms
proof (induction lim buf b arbitrary: ev b' rule: read_loop.induct)
  case (1 lim buf b)
  obtain line e1 b1 where l: "read_line b = (line, e1, b1)" by (cases "read_line b")
  note step = read_line_append [OF l]
  show ?case
  proof (cases e1)
    case None
    note shorter = read_line_shorter [OF l [unfolded None]]
    show ?thesis
    proof (cases "blank_line line")
      case True
      with 1(2) l None shorter step(3) show ?thesis
        by (subst (asm) read_loop.simps) (auto split: if_splits)
    next
      case False
      with 1(2) l None have "read_loop lim (buf @ line) b1 = (ev, None, b')" "length buf \<le> lim"
        by (subst (asm) read_loop.simps, auto split: if_splits)+
      from 1(1) [OF this(2) l [symmetric] refl _ _ this(1)] False None shorter show ?thesis by auto
    qed
  next
    case (Some err)
    with 1(2) l step(4) show ?thesis
      by (subst (asm) read_loop.simps) (auto simp: blank_line_def split: if_splits)
  qed
qed

lemma read_loop_TooLong: "read_loop lim buf b = (ev, Some TooLong, b') \<Longrightarrow> ev = []"
proof (induction lim buf b arbitrary: ev b' rule: read_loop.induct)
  case (1 lim buf b)
  obtain line e1 b1 where l: "read_line b = (line, e1, b1)" by (cases "read_line b")
  have not_long: "e1 \<noteq> Some TooLong" using read_line_append(4) [OF l] by (auto split: if_splits)
  show ?case
  proof (cases "length buf \<le> lim \<and> \<not> blank_line line \<and> e1 = None")
    case True
    with 1(2) l have "read_loop lim (buf @ line) b1 = (ev, Some TooLong, b')"
      by (subst (asm) read_loop.simps) simp
    with 1(1) [OF _ l [symmetric] refl] True show ?thesis by simp
  next
    case False
    with 1(2) l not_long show ?thesis
      by (subst (asm) read_loop.simps) (auto split: if_splits option.splits)
  qed
qed

text \<open>After an error of the body nothing is left.\<close>

lemma read_loop_end:
  "read_loop lim buf b = (ev, Some err, b') \<Longrightarrow> err \<noteq> TooLong \<Longrightarrow> bd_data b' = []"
proof (induction lim buf b arbitrary: ev b' rule: read_loop.induct)
  case (1 lim buf b)
  obtain line e1 b1 where l: "read_line b = (line, e1, b1)" by (cases "read_line b")
  note fin = read_line_append(4) [OF l]
  show ?case
  proof (cases "length buf \<le> lim \<and> \<not> blank_line line \<and> e1 = None")
    case True
    with 1(2) l have "read_loop lim (buf @ line) b1 = (ev, Some err, b')"
      by (subst (asm) read_loop.simps) simp
    with 1(1) [OF _ l [symmetric] refl] True 1(3) show ?thesis by simp
  next
    case False
    with 1(2,3) l fin show ?thesis
      by (subst (asm) read_loop.simps) (auto split: if_splits option.splits)
  qed
qed

lemma read_sse_event_shorter:
  "read_sse_event lim b = (ev, None, b') \<Longrightarrow> length (bd_data b') < length (bd_data b)"
  by (auto simp: read_sse_event_def dest: read_loop_None)

lemma read_sse_event_ends:
  "read_sse_event lim b = (ev, None, b') \<Longrightarrow> ev \<noteq> [] \<and> last ev = newline"
  by (auto simp: read_sse_event_def dest: read_loop_None)

section \<open>The data of an event\<close>

definition line_data :: "string \<Rightarrow> string list" where
  "line_data line =
     (let l = trim_suffix line [carriage] in
      if has_prefix l ''data:'' then
        (let v = trim_space (trim_prefix l ''data:'') in if v \<noteq> [] \<and> v \<noteq> ''[DONE]'' then [v] else [])
      else [])"

definition event_data :: "string \<Rightarrow> string" where
  "event_data event = join [newline] (concat (map line_data (split_on newline event)))"

lemma event_data_Nil [simp]: "event_data [] = []"
  by (simp add: event_data_def line_data_def trim_suffix_def has_prefix_def)

end
