(* ===== verification/Stream_Forward.thy ===== *)
theory Stream_Forward
  imports Server Sse
begin

text \<open>
  forwardStream of internal/proxy/service.go: the first event is held back until it is known not
  to announce an exhausted or invalid key; from then on every event is forwarded as it came.
\<close>

section \<open>The result\<close>

record stream_result =
  sf_usage :: usage
  sf_ttft :: "int option"
  sf_first_error :: "classification option"
  sf_late_error :: "classification option"
  sf_first_event :: string
  sf_copy_err :: bool

definition event_limit :: nat where
  "event_limit = 2097152"

definition stream_done :: "usage \<Rightarrow> int option \<Rightarrow> classification option \<Rightarrow> bool \<Rightarrow> stream_result" where
  "stream_done u ttft late bad =
     \<lparr>sf_usage = u, sf_ttft = ttft, sf_first_error = None, sf_late_error = late, sf_first_event = [],
      sf_copy_err = bad\<rparr>"

section \<open>The events after the first\<close>

text \<open>What an event adds to the usage and to the error found in the stream.\<close>

definition observe_event ::
    "env \<Rightarrow> response \<Rightarrow> string \<Rightarrow> string \<Rightarrow> usage \<Rightarrow> classification option
       \<Rightarrow> (usage \<times> classification option) handler" where
  "observe_event ev rs protocol event u late =
     (let d = event_data event in
      if d = [] then State_Monad.return (u, late)
      else do {
        t \<leftarrow> now;
        c \<leftarrow> classify_at ev (rs_status rs) (rs_header rs) d t;
        State_Monad.return (observe_json protocol d u, if key_failure (cl_kind c) then Some c else late) })"

definition write_event :: "string \<Rightarrow> bool handler" where
  "write_event event = (if event = [] then State_Monad.return True else write_out event)"

function stream_loop ::
    "env \<Rightarrow> response \<Rightarrow> string \<Rightarrow> int option \<Rightarrow> usage \<Rightarrow> classification option \<Rightarrow> http_body
       \<Rightarrow> stream_result handler" where
  "stream_loop ev rs protocol ttft u late b =
     (case read_sse_event event_limit b of
        (event, e, b') \<Rightarrow> do {
          (u1, late1) \<leftarrow> observe_event ev rs protocol event u late;
          good \<leftarrow> write_event event;
          if \<not> good then State_Monad.return (stream_done u1 ttft late1 True)
          else case e of
              None \<Rightarrow> stream_loop ev rs protocol ttft u1 late1 b'
            | Some err \<Rightarrow> State_Monad.return (stream_done u1 ttft late1 (err \<noteq> Eof)) })"
  by pat_completeness auto
termination
  by (relation "measure (\<lambda>(ev, rs, protocol, ttft, u, late, b). length (bd_data b))")
    (auto dest: read_sse_event_shorter [OF sym])

declare stream_loop.simps [simp del]

section \<open>The whole stream\<close>

definition forward_rest ::
    "env \<Rightarrow> response \<Rightarrow> string \<Rightarrow> time \<Rightarrow> string \<Rightarrow> http_body \<Rightarrow> stream_result handler" where
  "forward_rest ev rs protocol started first b =
     do {
       send_headers rs;
       let u = (if event_data first \<noteq> [] then observe_json protocol (event_data first) no_usage else no_usage);
       if first = [] then stream_loop ev rs protocol None u None b
       else do {
         t \<leftarrow> now;
         let ttft = Some (ms_between started t);
         good \<leftarrow> write_out first;
         if \<not> good then State_Monad.return (stream_done u ttft None True)
         else stream_loop ev rs protocol ttft u None b } }"

definition forward_stream :: "env \<Rightarrow> response \<Rightarrow> string \<Rightarrow> time \<Rightarrow> stream_result handler" where
  "forward_stream ev rs protocol started =
     (case read_sse_event event_limit (rs_body rs) of
        (first, e, b) \<Rightarrow>
          if e \<noteq> None \<and> e \<noteq> Some Eof then State_Monad.return (stream_done no_usage None None True)
          else if event_data first = [] then forward_rest ev rs protocol started first b
          else do {
            t \<leftarrow> now;
            c \<leftarrow> classify_at ev (rs_status rs) (rs_header rs) (event_data first) t;
            if key_failure (cl_kind c)
            then State_Monad.return
              \<lparr>sf_usage = no_usage, sf_ttft = None, sf_first_error = Some c, sf_late_error = None,
               sf_first_event = event_data first, sf_copy_err = False\<rparr>
            else forward_rest ev rs protocol started first b })"

end
