(* ===== verification/Inference.thy ===== *)
theory Inference
  imports Stream_Forward
begin

text \<open>
  HandleInference of internal/proxy/service.go: one request, tried on the eligible keys in order
  until an attempt answers the client or no key is left.
\<close>

section \<open>Trying keys\<close>

text \<open>
  The loop over the keys. An attempt has answered the client (None), or hands what is to be
  remembered of it to the next one.
\<close>

fun try_each :: "('k \<Rightarrow> 'f \<Rightarrow> ('s, 'f option) state) \<Rightarrow> 'k list \<Rightarrow> 'f \<Rightarrow> ('s, 'f option) state" where
  "try_each a [] f = State_Monad.return (Some f)"
| "try_each a (k # ks) f = do {
     r \<leftarrow> a k f;
     case r of None \<Rightarrow> State_Monad.return None | Some g \<Rightarrow> try_each a ks g }"

text \<open>What is remembered of the failed attempts: the variables last... and record.FinalKeyID.\<close>

record failover =
  fo_status :: int
  fo_header :: "header option"
  fo_body :: string
  fo_kind :: error_kind
  fo_final :: "int option"

definition no_failover :: failover where
  "no_failover = \<lparr>fo_status = 0, fo_header = None, fo_body = [], fo_kind = ErrorNone, fo_final = None\<rparr>"

section \<open>One attempt\<close>

text \<open>What the attempts of a request share.\<close>

record job =
  jb_protocol :: string
  jb_incoming :: incoming
  jb_body :: string
  jb_stream :: bool
  jb_record :: request_record
  jb_started :: time

text \<open>The numbered key, and when its attempt began.\<close>

record try_info =
  ti_key :: key
  ti_no :: int
  ti_start :: time

definition attempt_of :: "job \<Rightarrow> try_info \<Rightarrow> time \<Rightarrow> int \<Rightarrow> string \<Rightarrow> string \<Rightarrow> string \<Rightarrow> attempt_record" where
  "attempt_of j ti finished status outcome class upstream =
     \<lparr>at_request = rq_id (jb_record j), at_key = k_id (ti_key ti), at_no = ti_no ti,
      at_started = ti_start ti, at_finished = finished, at_status = status, at_outcome = outcome,
      at_error = class, at_upstream = upstream, at_latency = ms_between (ti_start ti) finished\<rparr>"

definition final_record :: "job \<Rightarrow> try_info \<Rightarrow> int \<Rightarrow> string \<Rightarrow> string \<Rightarrow> request_record" where
  "final_record j ti status outcome class =
     (jb_record j)\<lparr>rq_final_key := Some (k_id (ti_key ti)), rq_attempts := ti_no ti, rq_status := status,
       rq_outcome := outcome, rq_error := class\<rparr>"

definition network_failed :: "job \<Rightarrow> try_info \<Rightarrow> failover option handler" where
  "network_failed j ti = do {
     finished \<leftarrow> now;
     ignore (add_attempt (attempt_of j ti finished 0 ''error'' (kind_text ErrorNetwork) []));
     finish (final_record j ti 502 ''error'' (kind_text ErrorNetwork)) no_usage (jb_started j);
     write_json 502 (error_json ''OpenCode upstream request failed'' ''upstream_network_error'');
     State_Monad.return None }"

definition is_event_stream :: "job \<Rightarrow> response \<Rightarrow> bool" where
  "is_event_stream j rs \<longleftrightarrow>
     jb_stream j \<and> ok_status (rs_status rs) \<and>
     contains (to_lower (header_get (rs_header rs) ''Content-Type'')) ''text/event-stream''"

definition stream_outcome :: "stream_result \<Rightarrow> string \<times> string" where
  "stream_outcome r =
     (case sf_late_error r of
        Some c \<Rightarrow> (''error'', kind_text (cl_kind c))
      | None \<Rightarrow> if sf_copy_err r then (''error'', kind_text ErrorNetwork) else (''success'', []))"

definition stream_answer :: "env \<Rightarrow> job \<Rightarrow> try_info \<Rightarrow> response \<Rightarrow> failover \<Rightarrow> failover option handler" where
  "stream_answer ev j ti rs fo =
     (let k = ti_key ti; upstream = header_get (rs_header rs) ''X-Request-Id'' in
      do {
        r \<leftarrow> forward_stream ev rs (jb_protocol j) (jb_started j);
        finished \<leftarrow> now;
        case sf_first_error r of
          Some c \<Rightarrow> do {
            ignore (record_key_failure (k_id k) c finished);
            ignore (add_attempt (attempt_of j ti finished 429 ''failover'' (kind_text (cl_kind c)) upstream));
            State_Monad.return (Some (fo\<lparr>fo_status := 429, fo_body := sf_first_event r, fo_kind := cl_kind c,
              fo_final := Some (k_id k)\<rparr>)) }
        | None \<Rightarrow> do {
            (case sf_late_error r of
               Some c \<Rightarrow> ignore (record_key_failure (k_id k) c finished)
             | None \<Rightarrow> do { ignore (mark_used (k_id k)); promote_if_needed k });
            let (outcome, class) = stream_outcome r;
            ignore (add_attempt (attempt_of j ti finished (rs_status rs) outcome class upstream));
            finish ((final_record j ti (rs_status rs) outcome class)\<lparr>rq_ttft := sf_ttft r\<rparr>) (sf_usage r)
              (jb_started j);
            State_Monad.return None } })"

definition body_limit :: nat where
  "body_limit = 134217728"

text \<open>The answer of a response that is no stream, once it is known not to blame the key.\<close>

definition plain_answer ::
    "job \<Rightarrow> try_info \<Rightarrow> response \<Rightarrow> string \<Rightarrow> classification \<Rightarrow> time \<Rightarrow> failover option handler" where
  "plain_answer j ti rs body c finished =
     (let k = ti_key ti; upstream = header_get (rs_header rs) ''X-Request-Id'';
          u = observe_json (jb_protocol j) body no_usage;
          outcome = (if 400 \<le> rs_status rs then ''error'' else ''success'') in
      do {
        ignore (add_attempt (attempt_of j ti finished (rs_status rs) outcome (kind_text (cl_kind c)) upstream));
        (if rs_status rs < 400 then do { ignore (mark_used (k_id k)); promote_if_needed k }
         else State_Monad.return ());
        finish (final_record j ti (rs_status rs) outcome (kind_text (cl_kind c))) u (jb_started j);
        send_headers rs;
        _ \<leftarrow> write_out body;
        State_Monad.return None })"

definition body_answer :: "env \<Rightarrow> job \<Rightarrow> try_info \<Rightarrow> response \<Rightarrow> failover \<Rightarrow> failover option handler" where
  "body_answer ev j ti rs fo =
     (let k = ti_key ti; upstream = header_get (rs_header rs) ''X-Request-Id'' in
      do {
        finished \<leftarrow> now;
        case read_all body_limit (rs_body rs) of
          None \<Rightarrow> do {
            write_json 502 (error_json ''Could not read OpenCode response'' ''upstream_read_error'');
            State_Monad.return None }
        | Some body \<Rightarrow> do {
            c \<leftarrow> classify_at ev (rs_status rs) (rs_header rs) body finished;
            if key_failure (cl_kind c) then do {
              ignore (record_key_failure (k_id k) c finished);
              ignore (add_attempt
                (attempt_of j ti finished (rs_status rs) ''failover'' (kind_text (cl_kind c)) upstream));
              State_Monad.return (Some \<lparr>fo_status = rs_status rs, fo_header = Some (rs_header rs), fo_body = body,
                fo_kind = cl_kind c, fo_final = Some (k_id k)\<rparr>) }
            else plain_answer j ti rs body c finished } })"

definition attempt :: "env \<Rightarrow> job \<Rightarrow> nat \<times> key \<Rightarrow> failover \<Rightarrow> failover option handler" where
  "attempt ev j nk fo =
     (case nk of (n, k) \<Rightarrow> do {
        start \<leftarrow> now;
        case en_decrypt ev (k_encrypted k) of
          Inl _ \<Rightarrow> State_Monad.return (Some fo)
        | Inr secret \<Rightarrow> do {
            let ti = \<lparr>ti_key = k, ti_no = int n, ti_start = start\<rparr>;
            r \<leftarrow> call_upstream ev (jb_incoming j) (jb_protocol j) (jb_body j) secret;
            case r of
              CallFailed _ \<Rightarrow> network_failed j ti
            | Reply rs \<Rightarrow>
                if is_event_stream j rs then stream_answer ev j ti rs fo
                else body_answer ev j ti rs fo } })"

section \<open>The request\<close>

definition all_failed_body :: string where
  "all_failed_body = marshal (error_json ''All inference keys are unavailable'' ''opencodeproxy_unavailable'')"

definition give_up :: "job \<Rightarrow> nat \<Rightarrow> failover \<Rightarrow> unit handler" where
  "give_up j n fo =
     (let status = (if fo_status fo = 0 then 503 else fo_status fo) in
      do {
        (case fo_header fo of
           Some h \<Rightarrow> writer_do (\<lambda>w. w\<lparr>wr_header := copy_response_headers (wr_header w) h\<rparr>)
         | None \<Rightarrow> State_Monad.return ());
        finish ((jb_record j)\<lparr>rq_final_key := fo_final fo, rq_attempts := int n, rq_status := status,
          rq_outcome := ''error'', rq_error := kind_text (fo_kind fo)\<rparr>) no_usage (jb_started j);
        writer_do (write_header status);
        ignore (write_out (if fo_body fo \<noteq> [] then fo_body fo else all_failed_body)) })"

text \<open>Selecting the keys, under the mutex that serializes selection and promotion.\<close>

definition select_keys :: "(server, db_error + key list) state" where
  "select_keys = do { ignore mark_half_open_due; eligible_keys }"

definition serve :: "env \<Rightarrow> job \<Rightarrow> unit handler" where
  "serve ev j = do {
     keys \<leftarrow> select_keys;
     case keys of
       Inr (k # ks) \<Rightarrow> do {
         r \<leftarrow> try_each (attempt ev j) (enumerate 1 (k # ks)) no_failover;
         case r of None \<Rightarrow> State_Monad.return () | Some fo \<Rightarrow> give_up j (length (k # ks)) fo }
     | _ \<Rightarrow> do {
         finish_unavailable (jb_record j) (jb_started j) ''no_available_key'';
         write_json 503
           (error_json ''No inference key is currently available'' ''opencodeproxy_unavailable'') } }"

definition read_error_text :: "env \<Rightarrow> body_error \<Rightarrow> string" where
  "read_error_text ev e =
     (case e of ReadError \<Rightarrow> en_read_error ev
      | TooLarge \<Rightarrow> ''request body exceeds '' @ int_text (en_max_request ev) @ '' bytes'')"

definition request_of ::
    "string \<Rightarrow> string \<Rightarrow> incoming \<Rightarrow> request_meta \<Rightarrow> string \<Rightarrow> time \<Rightarrow> request_record" where
  "request_of protocol rid inc m body started =
     \<lparr>rq_id = rid, rq_started = started, rq_finished = None, rq_client = in_client inc,
      rq_client_name = in_client_name inc, rq_protocol = protocol, rq_model = rm_model m,
      rq_stream = rm_stream m, rq_bytes = int (length body), rq_messages = rm_messages m,
      rq_tools = rm_tools m, rq_final_key = None, rq_final_name = [], rq_attempts = 0, rq_status = 0,
      rq_outcome = [], rq_error = [], rq_latency = 0, rq_ttft = None, rq_uncached = None,
      rq_cache_read = None, rq_cache_write = None, rq_output = None, rq_reasoning = None,
      rq_total_input = None, rq_usage_state = []\<rparr>"

text \<open>The handler; \<open>rid\<close> is the id that newID has drawn.\<close>

definition handle_inference :: "env \<Rightarrow> string \<Rightarrow> string \<Rightarrow> incoming \<Rightarrow> unit handler" where
  "handle_inference ev protocol rid inc = do {
     started \<leftarrow> now;
     writer_do (set_header ''X-OpencodeProxy-Request-Id'' rid);
     case read_limited (in_body inc) (en_max_request ev) of
       Inl e \<Rightarrow> write_json 413 (error_json (read_error_text ev e) ''request_too_large'')
     | Inr raw \<Rightarrow> do {
         let m = inspect_request raw;
         s \<leftarrow> get_settings;
         let force = st_force_usage (case s of Inr v \<Rightarrow> v | Inl _ \<Rightarrow> zero_settings);
         let body = (if protocol = ''openai'' \<and> rm_stream m \<and> force then ensure_stream_usage raw else raw);
         let r = request_of protocol rid inc m body started;
         ignore (begin_request r);
         serve ev \<lparr>jb_protocol = protocol, jb_incoming = inc, jb_body = body, jb_stream = rm_stream m,
           jb_record = r, jb_started = started\<rparr> } }"

end
