(* ===== verification/ServerInv.thy ===== *)
theory ServerInv
  imports Frame Inference
begin

text \<open>
  Invariants of the handlers. Whatever the single steps keep (readings of the clock, methods of
  the store, writes to the client: locale handler_invariant; and calls to the upstream: locale
  call_invariant) is kept by the handlers. An invariant of the tables is one of the second kind,
  by the contract of the store; the list of calls made so far is one of the first.
\<close>

section \<open>The contract of a handler's steps\<close>

lemma keeps_ignore [keep_intros]: "keeps I m \<Longrightarrow> keeps I (ignore m)"
  unfolding ignore_def by (intro keep_intros)

lemma keeps_classify [keep_intros]: "keeps I (classify_at ev st h body t)"
  unfolding classify_at_def by (intro keep_intros)

lemma keeps_case_reply [keep_intros]:
  "(\<And>e. keeps I (f e)) \<Longrightarrow> (\<And>rs. keeps I (g rs)) \<Longrightarrow>
     keeps I (case r of CallFailed e \<Rightarrow> f e | Reply rs \<Rightarrow> g rs)"
  by (cases r) simp_all

lemma keeps_case_list [keep_intros]:
  "keeps I m \<Longrightarrow> (\<And>x xs. keeps I (g x xs)) \<Longrightarrow> keeps I (case l of [] \<Rightarrow> m | x # xs \<Rightarrow> g x xs)"
  by (cases l) simp_all

lemma keeps_try_each:
  assumes "\<And>k f. keeps I (a k f)" shows "keeps I (try_each a ks f)"
proof (induction ks arbitrary: f)
  case (Cons k ks)
  show ?case unfolding try_each.simps by (intro keep_intros assms Cons)
qed (simp add: keep_intros)

locale handler_invariant =
  fixes I :: "server \<Rightarrow> bool"
  assumes at_now: "keeps I now"
    and at_settings: "keeps I get_settings"
    and at_select: "keeps I mark_half_open_due" "keeps I eligible_keys" "keeps I auth_valid_keys"
    and at_key: "\<And>i. keeps I (mark_used i)" "\<And>i m. keeps I (mark_invalid i m)"
      "\<And>i w r m. keeps I (mark_quota i w r m)" "\<And>i a c q e. keeps I (mark_checked i a c q e)"
      "\<And>i. keeps I (set_active i)"
    and at_request: "\<And>r. keeps I (begin_request r)" "\<And>a. keeps I (add_attempt a)"
      "\<And>r u. keeps I (finish_request r u)"
    and at_cache: "keeps I model_cache" "\<And>b i. keeps I (save_model_cache b i)"
    and at_write: "\<And>s w. I s \<Longrightarrow> I (s\<lparr>sv_writer := w\<rparr>)"
begin

lemmas steps = at_now at_settings at_select at_key at_request at_cache

lemma keeps_writer_do: "keeps I (writer_do f)"
  unfolding writer_do_def by (intro keep_intros at_write)

lemma keeps_write_out: "keeps I (write_out bs)"
  by (rule keepsI) (simp add: write_out_def at_write split: prod.split)

lemma keeps_write_json: "keeps I (write_json st v)"
  unfolding write_json_def by (intro keep_intros keeps_writer_do keeps_write_out)

lemma keeps_send_headers: "keeps I (send_headers rs)"
  unfolding send_headers_def by (intro keep_intros keeps_writer_do)

lemmas writes = keeps_writer_do keeps_write_out keeps_write_json keeps_send_headers

lemma keeps_failure: "keeps I (record_key_failure i c t)"
  unfolding record_key_failure_def ok_def Let_def by (intro keep_intros steps)

lemma keeps_promote: "keeps I (promote_if_needed k)"
  unfolding promote_if_needed_def by (intro keep_intros steps)

lemma keeps_finish: "keeps I (finish r u t)"
  unfolding finish_def by (intro keep_intros steps)

lemma keeps_unavailable: "keeps I (finish_unavailable r t c)"
  unfolding finish_unavailable_def by (rule keeps_finish)

lemma keeps_observe_event: "keeps I (observe_event ev rs protocol event u late)"
  unfolding observe_event_def Let_def by (intro keep_intros steps)

lemma keeps_write_event: "keeps I (write_event event)"
  unfolding write_event_def by (intro keep_intros writes)

lemma keeps_stream_loop: "keeps I (stream_loop ev rs protocol ttft u late b)"
proof (induction ev rs protocol ttft u late b rule: stream_loop.induct)
  case (1 ev rs protocol ttft u late b)
  obtain event e b' where r: "read_sse_event event_limit b = (event, e, b')"
    by (cases "read_sse_event event_limit b")
  note parts = keeps_observe_event keeps_write_event
  show ?case
  proof (cases e)
    case None
    have "keeps I (stream_loop ev rs protocol ttft u1 late1 b')" for u1 late1
      by (rule 1 [where xd = True, OF r [symmetric] refl]) (simp_all add: None)
    then show ?thesis
      by (subst stream_loop.simps) (simp only: r None prod.case option.case, intro keep_intros parts)
  next
    case (Some err)
    then show ?thesis
      by (subst stream_loop.simps) (simp only: r Some prod.case option.case, intro keep_intros parts)
  qed
qed

lemma keeps_forward_stream: "keeps I (forward_stream ev rs protocol started)"
  unfolding forward_stream_def forward_rest_def Let_def
  by (intro keep_intros steps writes keeps_stream_loop)

lemma keeps_network_failed: "keeps I (network_failed j ti)"
  unfolding network_failed_def by (intro keep_intros steps writes keeps_finish)

lemma keeps_stream_answer: "keeps I (stream_answer ev j ti rs fo)"
  unfolding stream_answer_def Let_def
  by (intro keep_intros steps keeps_failure keeps_promote keeps_finish keeps_forward_stream)

lemma keeps_plain_answer: "keeps I (plain_answer j ti rs body c t)"
  unfolding plain_answer_def Let_def by (intro keep_intros steps writes keeps_promote keeps_finish)

lemma keeps_body_answer: "keeps I (body_answer ev j ti rs fo)"
  unfolding body_answer_def Let_def by (intro keep_intros steps writes keeps_failure keeps_plain_answer)

lemma keeps_give_up: "keeps I (give_up j n fo)"
  unfolding give_up_def Let_def by (intro keep_intros writes keeps_finish)

lemma keeps_select_keys: "keeps I select_keys"
  unfolding select_keys_def by (intro keep_intros steps)

end

text \<open>The calls are those of one configuration.\<close>

locale call_invariant = handler_invariant I for I :: "server \<Rightarrow> bool" +
  fixes ev :: env
  assumes at_send: "\<And>inc p b k. keeps I (send (inference_call ev inc p b k))" "\<And>k. keeps I (send (models_call ev k))"
begin

lemma keeps_call: "keeps I (call_upstream ev inc protocol body secret)"
  unfolding call_upstream_def by (rule at_send(1))

lemma keeps_attempt: "keeps I (attempt ev j nk fo)"
  unfolding attempt_def Let_def
  by (intro keep_intros steps keeps_call keeps_network_failed keeps_stream_answer keeps_body_answer)

lemma keeps_serve: "keeps I (serve ev j)"
  unfolding serve_def
  by (intro keep_intros writes keeps_select_keys keeps_unavailable keeps_give_up keeps_try_each keeps_attempt)

lemma keeps_handle_inference: "keeps I (handle_inference ev protocol rid inc)"
  unfolding handle_inference_def Let_def by (intro keep_intros steps writes keeps_serve)

end

section \<open>Invariants of the tables\<close>

lemma on_db_server [simp]:
  "on_db P (s\<lparr>sv_calls := cs\<rparr>) = on_db P s" "on_db P (s\<lparr>sv_writer := w\<rparr>) = on_db P s"
  by (simp_all add: on_db_def)

lemma on_db_send [keep_intros]: "keeps (on_db P) (send c)"
  by (rule keepsI) (simp add: send_def)

sublocale row_invariant \<subseteq> handlers: call_invariant "on_db P" ev for ev
  by unfold_locales (intro keep_intros keeps_store | simp)+

section \<open>The calls made so far\<close>

definition calls_are :: "upstream_call list \<Rightarrow> server \<Rightarrow> bool" where
  "calls_are cs s \<longleftrightarrow> sv_calls s = cs"

lemma calls_are_outside: "(\<And>m. keeps (outside m) p) \<Longrightarrow> keeps (calls_are cs) p"
  by (rule keepsI) (metis outside_server(1) prod.collapse calls_are_def)

interpretation calls: handler_invariant "calls_are cs" for cs
  by unfold_locales (intro calls_are_outside keep_intros | simp add: calls_are_def)+

end
