(* ===== verification/Failover.thy ===== *)
theory Failover
  imports ServerInv
begin

text \<open>
  What a request does: which keys it tries, what it sends to the upstream and what the client
  gets. The loop over the keys is proved about once, as an interface between the loop and an
  attempt (locales silent_attempt and logged_attempt), and interpreted on the attempts.
\<close>

section \<open>The loop over the keys\<close>

text \<open>An attempt that hands over leaves a part of the state as it found it.\<close>

locale silent_attempt =
  fixes a :: "'k \<Rightarrow> 'f \<Rightarrow> ('s, 'f option) state" and part :: "'s \<Rightarrow> 'p"
  assumes silent: "run_state (a k f) s = (Some g, t) \<Longrightarrow> part t = part s"
begin

lemma loop_silent: "run_state (try_each a ks f) s = (Some g, t) \<Longrightarrow> part t = part s"
  by (induction ks arbitrary: f s)
    (auto simp: run_simps split: prod.splits option.splits dest: silent)

text \<open>What the client got comes from the one attempt that answered.\<close>

lemma loop_answered:
  assumes "run_state (try_each a ks f) s = (None, t)"
  obtains i g u where "i < length ks" "part u = part s" "run_state (a (ks ! i) g) u = (None, t)"
  using assms
proof (induction ks arbitrary: f s thesis)
  case (Cons k ks)
  obtain r u where r: "run_state (a k f) s = (r, u)" by (cases "run_state (a k f) s")
  show ?case
  proof (cases r)
    case None
    with Cons.prems(2) r have "run_state (a k f) s = (None, t)" by (simp add: run_simps)
    then show ?thesis using Cons.prems(1) [of 0 s f] by simp
  next
    case (Some g)
    with Cons.prems(2) r have "run_state (try_each a ks g) u = (None, t)" by (simp add: run_simps)
    then obtain i h v where "i < length ks" "part v = part u" "run_state (a (ks ! i) h) v = (None, t)"
      by (rule Cons.IH [rotated])
    then show ?thesis using Cons.prems(1) [of "Suc i" v h] silent [OF r [unfolded Some]] by simp
  qed
qed (simp add: run_simps)

end

text \<open>An attempt adds to a log what its key says, whatever comes of it.\<close>

locale logged_attempt =
  fixes a :: "'k \<Rightarrow> 'f \<Rightarrow> ('s, 'f option) state" and log :: "'s \<Rightarrow> 'c list" and out :: "'k \<Rightarrow> 'c list"
  assumes logged: "run_state (a k f) s = (r, t) \<Longrightarrow> log t = log s @ out k"
begin

lemma loop_logged:
  assumes "run_state (try_each a ks f) s = (r, t)"
  obtains n where "n \<le> length ks" "log t = log s @ concat (map out (take n ks))"
    "r \<noteq> None \<Longrightarrow> n = length ks" "ks \<noteq> [] \<Longrightarrow> 0 < n"
  using assms
proof (induction ks arbitrary: f s thesis)
  case Nil
  then show ?case by (auto simp: run_simps)
next
  case (Cons k ks)
  obtain q u where q: "run_state (a k f) s = (q, u)" by (cases "run_state (a k f) s")
  note log = logged [OF q]
  show ?case
  proof (cases q)
    case None
    with Cons.prems(2) q log show ?thesis using Cons.prems(1) [of 1] by (simp add: run_simps)
  next
    case (Some g)
    with Cons.prems(2) q have "run_state (try_each a ks g) u = (r, t)" by (simp add: run_simps)
    then obtain n where "n \<le> length ks" "log t = log u @ concat (map out (take n ks))"
      "r \<noteq> None \<Longrightarrow> n = length ks"
      using Cons.IH by blast
    then show ?thesis using Cons.prems(1) [of "Suc n"] log by auto
  qed
qed

end

section \<open>Failed attempts and the client\<close>

definition writer_is :: "writer \<Rightarrow> server \<Rightarrow> bool" where
  "writer_is w s \<longleftrightarrow> sv_writer s = w"

lemma keeps_outside_writer: "(\<And>m. keeps (outside m) p) \<Longrightarrow> keeps (writer_is w) p"
  by (rule keepsI) (metis outside_server(2) prod.collapse writer_is_def)

lemma writer_is_store [keep_intros]:
  "keeps (writer_is w) now" "keeps (writer_is w) (ignore (record_key_failure i c t))"
  "keeps (writer_is w) (ignore (add_attempt a))" "keeps (writer_is w) (classify_at ev st h body t)"
  by (intro keeps_outside_writer keep_intros)+

lemma writer_is_call [keep_intros]: "keeps (writer_is w) (call_upstream ev inc protocol body secret)"
  by (rule keepsI) (simp add: call_upstream_def send_def writer_is_def)

text \<open>A stream whose first event was forwarded reports no first error.\<close>

lemma stream_loop_first: "always (\<lambda>r. sf_first_error r = None) (stream_loop ev rs protocol ttft u late b)"
proof (induction ev rs protocol ttft u late b rule: stream_loop.induct)
  case (1 ev rs protocol ttft u late b)
  obtain event e b' where r: "read_sse_event event_limit b = (event, e, b')"
    by (cases "read_sse_event event_limit b")
  show ?case
  proof (cases e)
    case None
    have "always (\<lambda>r. sf_first_error r = None) (stream_loop ev rs protocol ttft u1 late1 b')" for u1 late1
      by (rule 1 [where xd = True, OF r [symmetric] refl]) (simp_all add: None)
    then show ?thesis
      by (subst stream_loop.simps)
        (simp only: r None prod.case option.case, intro run_intros, auto simp: stream_done_def)
  next
    case (Some err)
    then show ?thesis
      by (subst stream_loop.simps)
        (simp only: r Some prod.case option.case, intro run_intros, auto simp: stream_done_def)
  qed
qed

lemma forward_rest_first: "always (\<lambda>r. sf_first_error r = None) (forward_rest ev rs protocol started first b)"
  unfolding forward_rest_def Let_def
  by (intro run_intros stream_loop_first) (simp add: stream_done_def)

definition first_silent :: "writer \<Rightarrow> stream_result \<Rightarrow> server \<Rightarrow> bool" where
  "first_silent w r s \<longleftrightarrow> (\<forall>c. sf_first_error r = Some c \<longrightarrow> writer_is w s \<and> key_failure (cl_kind c))"

lemma forward_stream_first: "hoare (writer_is w) (forward_stream ev rs protocol started) (first_silent w)"
proof -
  obtain first e b where r: "read_sse_event event_limit (rs_body rs) = (first, e, b)"
    by (cases "read_sse_event event_limit (rs_body rs)")
  have rest: "hoare I (forward_rest ev rs protocol started first b) (first_silent w)" for I
    by (rule hoare_always [OF forward_rest_first]) (simp add: first_silent_def)
  show ?thesis
    unfolding forward_stream_def r prod.case
    by (intro hoare_if hoare_keeps_bind keep_intros rest)
      (auto intro!: hoare_return rest simp: stream_done_def first_silent_def)
qed

lemma network_failed_None: "always (\<lambda>r. r = None) (network_failed j ti)"
  unfolding network_failed_def by (intro run_intros refl)

lemma plain_answer_None: "always (\<lambda>r. r = None) (plain_answer j ti rs body c t)"
  unfolding plain_answer_def Let_def by (intro run_intros refl)

text \<open>An attempt that hands over to the next key has sent nothing to the client.\<close>

definition silent_if_failed :: "writer \<Rightarrow> failover option \<Rightarrow> server \<Rightarrow> bool" where
  "silent_if_failed w r s \<longleftrightarrow> (r \<noteq> None \<longrightarrow> writer_is w s)"

lemma stream_answer_silent:
  "hoare (writer_is w) (stream_answer ev j ti rs fo) (silent_if_failed w)"
proof -
  have none: "hoare I m (silent_if_failed w)" if "always (\<lambda>r. r = None) m" for I m
    using that by (rule hoare_always) (simp add: silent_if_failed_def)
  show ?thesis
    unfolding stream_answer_def Let_def
  proof (rule hoare_bind [OF forward_stream_first], goal_cases)
    case (1 r)
    show ?case
    proof (cases "sf_first_error r")
      case None
      show ?thesis unfolding None option.case
        by (rule none) (intro run_intros refl)
    next
      case (Some c)
      have "hoare (writer_is w) (do {
          finished \<leftarrow> now;
          ignore (record_key_failure (k_id (ti_key ti)) c finished);
          ignore (add_attempt (attempt_of j ti finished 429 ''failover'' (kind_text (cl_kind c))
            (header_get (rs_header rs) ''X-Request-Id'')));
          State_Monad.return (Some (fo\<lparr>fo_status := 429, fo_body := sf_first_event r, fo_kind := cl_kind c,
            fo_final := Some (k_id (ti_key ti))\<rparr>)) }) (silent_if_failed w)"
        by (intro hoare_keeps_bind keep_intros hoare_return) (simp add: silent_if_failed_def)
      then show ?thesis unfolding Some option.case
        by (rule hoare_weaken) (simp add: first_silent_def Some)
    qed
  qed
qed

lemma body_answer_silent: "hoare (writer_is w) (body_answer ev j ti rs fo) (silent_if_failed w)"
proof -
  have none: "hoare I m (silent_if_failed w)" if "always (\<lambda>r. r = None) m" for I m
    using that by (rule hoare_always) (simp add: silent_if_failed_def)
  show ?thesis
  proof (cases "read_all body_limit (rs_body rs)")
    case None
    then show ?thesis unfolding body_answer_def Let_def None option.case
      by (intro none run_intros refl)
  next
    case (Some body)
    have failed: "hoare (writer_is w) (do {
        ignore (record_key_failure (k_id (ti_key ti)) c finished);
        ignore (add_attempt a);
        State_Monad.return (Some g) }) (silent_if_failed w)" for c finished a g
      by (intro hoare_keeps_bind keep_intros hoare_return) (simp add: silent_if_failed_def)
    show ?thesis unfolding body_answer_def Let_def Some option.case
      by (intro hoare_keeps_bind [OF writer_is_store(1)] hoare_keeps_bind [OF writer_is_store(4)]
          hoare_if failed none [OF plain_answer_None])
  qed
qed

lemma attempt_silent: "hoare (writer_is w) (attempt ev j nk fo) (silent_if_failed w)"
proof -
  obtain n k where nk: "nk = (n, k)" by (cases nk)
  have failed: "hoare (writer_is w) (network_failed j ti) (silent_if_failed w)" for ti
    by (rule hoare_always [OF network_failed_None]) (simp add: silent_if_failed_def)
  have reply: "hoare (writer_is w) (case r of CallFailed x \<Rightarrow> network_failed j ti
      | Reply rs \<Rightarrow> if is_event_stream j rs then stream_answer ev j ti rs fo else body_answer ev j ti rs fo)
      (silent_if_failed w)" for r ti
    by (cases r) (simp_all add: failed stream_answer_silent body_answer_silent)
  show ?thesis
    unfolding attempt_def nk prod.case Let_def
    by (cases "en_decrypt ev (k_encrypted k)")
      (auto intro!: hoare_keeps_bind keep_intros hoare_return reply simp: silent_if_failed_def)
qed

interpretation inference: silent_attempt "attempt ev j" sv_writer for ev j
proof
  fix nk fo s g t assume "run_state (attempt ev j nk fo) s = (Some g, t)"
  from hoareD [OF attempt_silent _ this, of "sv_writer s"]
  show "sv_writer t = sv_writer s" by (simp add: silent_if_failed_def writer_is_def)
qed

section \<open>What is sent to the upstream\<close>

text \<open>The calls of an attempt: none when the key cannot be decrypted, else one with its secret.\<close>

definition key_calls :: "env \<Rightarrow> job \<Rightarrow> key \<Rightarrow> upstream_call list" where
  "key_calls ev j k =
     (case en_decrypt ev (k_encrypted k) of
        Inl _ \<Rightarrow> []
      | Inr secret \<Rightarrow> [inference_call ev (jb_incoming j) (jb_protocol j) (jb_body j) secret])"

lemma send_calls: "hoare (calls_are cs) (send c) (\<lambda>_. calls_are (cs @ [c]))"
  by (simp add: hoare_def send_def calls_are_def)

lemma attempt_calls:
  "hoare (calls_are cs) (attempt ev j (n, k) fo) (\<lambda>_. calls_are (cs @ key_calls ev j k))"
proof (cases "en_decrypt ev (k_encrypted k)")
  case (Inl e)
  then show ?thesis unfolding attempt_def prod.case Inl sum.case
    by (intro hoare_keeps_bind calls.steps hoare_return) (simp add: key_calls_def Inl)
next
  case (Inr secret)
  let ?c = "inference_call ev (jb_incoming j) (jb_protocol j) (jb_body j) secret"
  have answer: "keeps (calls_are ds) (case r of CallFailed x \<Rightarrow> network_failed j ti
      | Reply rs \<Rightarrow> if is_event_stream j rs then stream_answer ev j ti rs fo else body_answer ev j ti rs fo)"
    for ds r ti
    by (intro keep_intros calls.keeps_network_failed calls.keeps_stream_answer calls.keeps_body_answer)
  have "hoare (calls_are cs) (attempt ev j (n, k) fo) (\<lambda>_. calls_are (cs @ [?c]))"
    unfolding attempt_def prod.case Inr sum.case call_upstream_def Let_def
    by (rule hoare_keeps_bind [OF calls.at_now], rule hoare_bind [OF send_calls],
        rule answer [unfolded keeps_hoare])
  then show ?thesis by (simp add: key_calls_def Inr)
qed

interpretation inference_log: logged_attempt "attempt ev j" sv_calls "\<lambda>nk. key_calls ev j (snd nk)" for ev j
proof
  fix nk fo s r t assume "run_state (attempt ev j nk fo) s = (r, t)"
  moreover obtain n k where "nk = (n, k)" by (cases nk)
  ultimately show "sv_calls t = sv_calls s @ key_calls ev j (snd nk)"
    using hoareD [OF attempt_calls, of "sv_calls s" s] by (auto simp: calls_are_def)
qed

text \<open>The keys a selection finds: the eligible ones, after the due ones were reopened or not.\<close>

definition open_rows :: "string \<Rightarrow> string \<Rightarrow> key_row list \<Rightarrow> key_row list" where
  "open_rows t1 t2 rows =
     map (\<lambda>r. if due_row t2 r then r\<lparr>kr_quota := ''half_open'', kr_updated := t1\<rparr> else r) rows"

definition selectable :: "key_row list \<Rightarrow> key list \<Rightarrow> bool" where
  "selectable rows ks \<longleftrightarrow> ks = route_order rows \<or> (\<exists>t1 t2. ks = route_order (open_rows t1 t2 rows))"

lemma open_due_rows: "db_keys (open_due t1 t2 d) = open_rows t1 t2 (db_keys d)"
  by (simp add: open_due_def open_rows_def)

lemma mark_half_open_due_db:
  fixes s :: "'z host_scheme"
  assumes "run_state mark_half_open_due s = (r, t)"
  shows "h_db t = h_db s \<or> (\<exists>t1 t2. h_db t = open_due t1 t2 (h_db s))"
proof -
  from assms obtain g :: "'z host_scheme" and t1
    where "run_state (do { t2 \<leftarrow> now_text; exec (\<lambda>d. Inr ((), open_due t1 t2 d)) }) g = (r, t)"
    and g: "h_db g = h_db s"
    unfolding mark_half_open_due_def by (rule now_text_bind)
  from this(1) obtain g2 t2 where x: "run_state (exec (\<lambda>d. Inr ((), open_due t1 t2 d))) g2 = (r, t)"
    and g2: "h_db g2 = h_db g"
    by (rule now_text_bind)
  show ?thesis
  proof (cases r)
    case (Inl e)
    with exec_Inl [OF x [unfolded Inl]] g g2 show ?thesis by simp
  next
    case (Inr v)
    with exec_Inr(1) [OF x [unfolded Inr]] g g2 have "h_db t = open_due t1 t2 (h_db s)" by simp
    then show ?thesis by blast
  qed
qed

lemma select_keys_Inr:
  assumes "run_state select_keys s = (Inr ks, t)"
  shows "selectable (db_keys (h_db s)) ks"
proof -
  obtain r u where r: "run_state mark_half_open_due s = (r, u)"
    by (cases "run_state mark_half_open_due s")
  with assms have "run_state eligible_keys u = (Inr ks, t)"
    by (simp add: select_keys_def ignore_def run_simps)
  then have "ks = route_order (db_keys (h_db u))" unfolding eligible_keys_def by (rule query_Inr(1))
  with mark_half_open_due_db [OF r] show ?thesis unfolding selectable_def by (metis open_due_rows)
qed

lemma select_keys_calls:
  "run_state select_keys s = (r, t) \<Longrightarrow> sv_calls t = sv_calls s"
  using keepsD [OF calls.keeps_select_keys, of "sv_calls s" s] by (simp add: calls_are_def)

text \<open>A prefix of the selected keys is tried, in their order; no other call is made.\<close>

lemma serve_calls:
  assumes "run_state (serve ev j) s = (u, t)"
  obtains ks n where "selectable (db_keys (h_db s)) ks \<or> ks = []" "n \<le> length ks"
    "sv_calls t = sv_calls s @ concat (map (key_calls ev j) (take n ks))"
proof -
  obtain sel s1 where sel: "run_state select_keys s = (sel, s1)" by (cases "run_state select_keys s")
  note c1 = select_keys_calls [OF sel]
  show thesis
  proof (cases "\<exists>k ks. sel = Inr (k # ks)")
    case True
    then obtain k ks where ks: "sel = Inr (k # ks)" by blast
    obtain r s2 where r: "run_state (try_each (attempt ev j) (enumerate 1 (k # ks)) no_failover) s1 = (r, s2)"
      by (cases "run_state (try_each (attempt ev j) (enumerate 1 (k # ks)) no_failover) s1")
    from inference_log.loop_logged [OF r] obtain n where n: "n \<le> length (enumerate 1 (k # ks))"
      "sv_calls s2 = sv_calls s1 @ concat (map (\<lambda>nk. key_calls ev j (snd nk)) (take n (enumerate 1 (k # ks))))"
      by blast
    have rest: "run_state (case r of None \<Rightarrow> State_Monad.return () | Some fo \<Rightarrow> give_up j (length (k # ks)) fo) s2
        = (u, t)"
      using assms by (simp only: serve_def run_state_bind sel ks r prod.case sum.case list.case)
    have "keeps (calls_are (sv_calls s2))
        (case r of None \<Rightarrow> State_Monad.return () | Some fo \<Rightarrow> give_up j (length (k # ks)) fo)"
      by (intro keep_intros calls.keeps_give_up)
    from keepsD [OF this, of s2] rest have "sv_calls t = sv_calls s2" by (simp add: calls_are_def)
    moreover have "map snd (take n (enumerate 1 (k # ks))) = take n (k # ks)"
      by (simp add: take_map [symmetric] del: enumerate_simps)
    then have "concat (map (\<lambda>nk. key_calls ev j (snd nk)) (take n (enumerate 1 (k # ks)))) =
        concat (map (key_calls ev j) (take n (k # ks)))"
      by (metis (no_types, lifting) comp_def map_eq_conv map_map)
    ultimately show thesis
      using that [of "k # ks" n] n c1 select_keys_Inr [OF sel [unfolded ks]] by simp
  next
    case False
    then obtain x where "run_state (do {
         finish_unavailable (jb_record j) (jb_started j) ''no_available_key'';
         write_json 503 x }) s1 = (u, t)"
      using assms sel by (auto simp: serve_def run_simps split: sum.splits list.splits)
    moreover have "keeps (calls_are cs) (do {
         finish_unavailable (jb_record j) (jb_started j) ''no_available_key'';
         write_json 503 x })" for cs
      by (intro keep_intros calls.keeps_unavailable calls.writes)
    ultimately have "sv_calls t = sv_calls s1"
      using keepsD [of "calls_are (sv_calls s1)" _ s1] by (fastforce simp: calls_are_def)
    then show thesis using that [of "[]" 0] c1 by simp
  qed
qed

end
