(* ===== verification/Transparency.thy ===== *)
theory Transparency
  imports Failover
begin

text \<open>
  What reaches the client of a forwarded response: the bytes of the upstream's body, in order and
  without a change, behind the upstream's status and its headers less the hop-by-hop ones.
\<close>

section \<open>Writes\<close>

text \<open>What a step adds to the body of an answer that was begun; the status and header stay.\<close>

definition adds :: "string \<Rightarrow> server \<Rightarrow> server \<Rightarrow> bool" where
  "adds bs s t \<longleftrightarrow>
     wr_body (sv_writer t) = wr_body (sv_writer s) @ bs \<and>
     (wr_sent (sv_writer s) \<noteq> None \<longrightarrow> wr_sent (sv_writer t) = wr_sent (sv_writer s))"

lemma adds_trans: "adds bs s t \<Longrightarrow> adds cs t u \<Longrightarrow> adds (bs @ cs) s u"
  by (auto simp: adds_def)

lemma adds_refl: "sv_writer t = sv_writer s \<Longrightarrow> adds [] s t"
  by (simp add: adds_def)

lemma write_out_adds: "run_state (write_out bs) s = (good, t) \<Longrightarrow> adds (if good then bs else []) s t"
  by (auto simp: write_out_def write_bytes_def Let_def adds_def write_header_def
      split: prod.splits option.splits nat.splits if_splits)

lemma write_event_adds: "run_state (write_event e) s = (good, t) \<Longrightarrow> adds (if good then e else []) s t"
  by (auto simp: write_event_def run_simps adds_refl split: if_splits dest: write_out_adds)

lemma outside_observe_event [keep_intros]: "keeps (outside m) (observe_event ev rs protocol event u late)"
  unfolding observe_event_def Let_def by (intro keep_intros)

lemma observe_event_adds:
  "run_state (observe_event ev rs protocol event u late) s = (x, t) \<Longrightarrow> adds [] s t"
  by (rule adds_refl) (rule outside_server(2) [OF outside_observe_event])

lemma now_adds: "run_state now s = (x, t) \<Longrightarrow> adds [] s t"
  by (rule adds_refl) (rule outside_server(2) [OF outside_now])

section \<open>Streams\<close>

text \<open>The bytes forwarded are a prefix of the body, and all of it unless an error is reported.\<close>

definition forwarded :: "string \<Rightarrow> server \<Rightarrow> stream_result \<Rightarrow> server \<Rightarrow> bool" where
  "forwarded body s r t \<longleftrightarrow> (\<exists>bs. prefix bs body \<and> adds bs s t \<and> (\<not> sf_copy_err r \<longrightarrow> bs = body))"

lemma forwarded_step:
  assumes "adds bs s u" "forwarded body u r t"
  shows "forwarded (bs @ body) s r t"
  using assms unfolding forwarded_def by (metis adds_trans same_prefix_prefix)

lemma forwarded_cut: "adds [] s t \<Longrightarrow> forwarded body s (stream_done u ttft late True) t"
  unfolding forwarded_def stream_done_def by (intro exI [of _ "[]"]) simp

lemma stream_loop_forwarded:
  assumes "run_state (stream_loop ev rs protocol ttft u late b) s = (r, t)"
  shows "forwarded (bd_data b) s r t"
  using assms
proof (induction ev rs protocol ttft u late b arbitrary: s r t rule: stream_loop.induct)
  case (1 ev rs protocol ttft u late b)
  obtain event e b' where ev: "read_sse_event event_limit b = (event, e, b')"
    by (cases "read_sse_event event_limit b")
  obtain u1 late1 s1 where o: "run_state (observe_event ev rs protocol event u late) s = ((u1, late1), s1)"
    by (metis prod.exhaust)
  obtain good s2 where w: "run_state (write_event event) s1 = (good, s2)"
    by (cases "run_state (write_event event) s1")
  have adds: "adds (if good then event else []) s s2"
    using adds_trans [OF observe_event_adds [OF o] write_event_adds [OF w]] by simp
  have run: "run_state (if \<not> good then State_Monad.return (stream_done u1 ttft late1 True)
      else case e of None \<Rightarrow> stream_loop ev rs protocol ttft u1 late1 b'
        | Some err \<Rightarrow> State_Monad.return (stream_done u1 ttft late1 (err \<noteq> Eof))) s2 = (r, t)"
    using 1(2) by (subst (asm) stream_loop.simps) (simp only: ev run_state_bind o w prod.case)
  show ?case
  proof (cases "good \<and> e \<noteq> Some TooLong")
    case False
    show ?thesis
    proof (cases good)
      case True
      with False run have "r = stream_done u1 ttft late1 True" "t = s2" by auto
      moreover have "event = []" using ev False True read_loop_TooLong by (auto simp: read_sse_event_def)
      ultimately show ?thesis using adds True by (simp add: forwarded_cut)
    next
      case False
      with run have "r = stream_done u1 ttft late1 True" "t = s2" by simp_all
      with adds False show ?thesis by (simp add: forwarded_cut)
    qed
  next
    case True
    have data: "bd_data b = event @ bd_data b'" using read_sse_event_append [OF ev] True by simp
    show ?thesis
    proof (cases e)
      case None
      with run True have "run_state (stream_loop ev rs protocol ttft u1 late1 b') s2 = (r, t)" by simp
      then have "forwarded (bd_data b') s2 r t"
        by (rule 1(1) [where xd = True, OF ev [symmetric] refl, rotated 2]) (simp_all add: None)
      with adds True show ?thesis unfolding data by (simp add: forwarded_step)
    next
      case (Some err)
      with run True have r: "r = stream_done u1 ttft late1 (err \<noteq> Eof)" "t = s2" by simp_all
      have "bd_data b' = []" using read_loop_end [of event_limit "[]" b event err b'] ev Some True
        by (simp add: read_sse_event_def)
      with data adds True r show ?thesis
        by (auto simp: forwarded_def stream_done_def)
    qed
  qed
qed

text \<open>The head of the answer: the upstream's status, and its headers added to those set before.\<close>

definition head_sent :: "response \<Rightarrow> server \<Rightarrow> server \<Rightarrow> bool" where
  "head_sent rs s t \<longleftrightarrow>
     wr_sent (sv_writer t) =
       Some (rs_status rs, copy_response_headers (wr_header (sv_writer s)) (rs_header rs))"

lemma send_headers_adds:
  assumes "run_state (send_headers rs) s = (x, t)"
  shows "adds [] s t" and "wr_sent (sv_writer s) = None \<Longrightarrow> head_sent rs s t"
  using assms
  by (auto simp: send_headers_def writer_do_def run_simps adds_def head_sent_def write_header_def)

lemma forwarded_head:
  assumes "head_sent rs s s1" "forwarded body s1 r t"
  shows "head_sent rs s t"
  using assms by (auto simp: head_sent_def forwarded_def adds_def)

lemma forwarded_sent: "forwarded body s r t \<Longrightarrow> adds [] s0 s \<Longrightarrow> forwarded body s0 r t"
  using forwarded_step [of "[]"] by simp

lemma forward_rest_forwarded:
  assumes "run_state (forward_rest ev rs protocol started first b) s = (r, t)"
  shows "forwarded (first @ bd_data b) s r t" and "wr_sent (sv_writer s) = None \<Longrightarrow> head_sent rs s t"
proof -
  obtain x s1 where h: "run_state (send_headers rs) s = (x, s1)" by (cases "run_state (send_headers rs) s")
  note head = send_headers_adds [OF h]
  have main: "forwarded (first @ bd_data b) s1 r t"
  proof (cases "first = []")
    case True
    with assms h have "run_state (stream_loop ev rs protocol None
        (if event_data first \<noteq> [] then observe_json protocol (event_data first) no_usage else no_usage) None b) s1 = (r, t)"
      by (simp add: forward_rest_def Let_def run_simps)
    from stream_loop_forwarded [OF this] True show ?thesis by simp
  next
    case False
    let ?u = "if event_data first \<noteq> [] then observe_json protocol (event_data first) no_usage else no_usage"
    obtain n s2 where n: "run_state now s1 = (n, s2)" by (cases "run_state now s1")
    obtain good s3 where w: "run_state (write_out first) s2 = (good, s3)" by (cases "run_state (write_out first) s2")
    have adds: "adds (if good then first else []) s1 s3"
      using adds_trans [OF now_adds [OF n] write_out_adds [OF w]] by simp
    have run: "run_state (if \<not> good then State_Monad.return (stream_done ?u (Some (ms_between started n)) None True)
        else stream_loop ev rs protocol (Some (ms_between started n)) ?u None b) s3 = (r, t)"
      using assms False by (simp only: forward_rest_def Let_def run_state_bind h n w prod.case if_False)
    show ?thesis
    proof (cases good)
      case True
      with run have "run_state (stream_loop ev rs protocol (Some (ms_between started n)) ?u None b) s3 = (r, t)"
        by (simp only: not_True_eq_False if_False)
      from stream_loop_forwarded [OF this] adds True show ?thesis by (simp add: forwarded_step)
    next
      case False
      with run adds show ?thesis by (auto simp: forwarded_cut)
    qed
  qed
  with head(1) show "forwarded (first @ bd_data b) s r t" by (simp add: forwarded_sent)
  assume "wr_sent (sv_writer s) = None"
  from forwarded_head [OF head(2) [OF this] main] show "head_sent rs s t" .
qed

text \<open>What forwarding a stream has done to the client when it returns.\<close>

definition stream_effect :: "response \<Rightarrow> server \<Rightarrow> stream_result \<Rightarrow> server \<Rightarrow> bool" where
  "stream_effect rs s r t \<longleftrightarrow>
     (if sf_first_error r \<noteq> None then sv_writer t = sv_writer s
      else forwarded (bd_data (rs_body rs)) s r t \<and>
           (\<not> sf_copy_err r \<longrightarrow> wr_sent (sv_writer s) = None \<longrightarrow> head_sent rs s t))"

lemma forward_rest_effect:
  assumes "run_state (forward_rest ev rs protocol started first b) u = (r, t)" "sv_writer u = sv_writer s"
    and "first @ bd_data b = bd_data (rs_body rs)"
  shows "stream_effect rs s r t"
proof -
  have "sf_first_error r = None"
    by (rule alwaysD [OF forward_rest_first assms(1)])
  moreover have "forwarded (bd_data (rs_body rs)) s r t"
    using forward_rest_forwarded(1) [OF assms(1)] assms(2,3) by (metis adds_refl forwarded_sent)
  moreover have "wr_sent (sv_writer s) = None \<Longrightarrow> head_sent rs s t"
    using forward_rest_forwarded(2) [OF assms(1)] assms(2) by (simp add: head_sent_def)
  ultimately show ?thesis by (simp add: stream_effect_def)
qed

lemma forward_stream_effect:
  assumes "run_state (forward_stream ev rs protocol started) s = (r, t)"
  shows "stream_effect rs s r t"
proof -
  obtain first e b where ev: "read_sse_event event_limit (rs_body rs) = (first, e, b)"
    by (cases "read_sse_event event_limit (rs_body rs)")
  consider (bad) "e \<noteq> None \<and> e \<noteq> Some Eof" | (nodata) "e = None \<or> e = Some Eof" "event_data first = []"
    | (data) "e = None \<or> e = Some Eof" "event_data first \<noteq> []"
    by satx
  then show ?thesis
  proof cases
    case bad
    with assms ev have "r = stream_done no_usage None None True" "t = s"
      by (auto simp: forward_stream_def)
    then show ?thesis using forwarded_cut [OF adds_refl [OF refl]]
      by (auto simp: stream_effect_def stream_done_def)
  next
    case nodata
    then have "first @ bd_data b = bd_data (rs_body rs)" using read_sse_event_append(1) [OF ev] by auto
    moreover have "run_state (forward_rest ev rs protocol started first b) s = (r, t)"
      using assms nodata by (auto simp: forward_stream_def ev)
    ultimately show ?thesis by (simp add: forward_rest_effect)
  next
    case data
    obtain n s1 where n: "run_state now s = (n, s1)" by (cases "run_state now s")
    let ?c = "classify (en_order ev (h_ticks s1)) (rs_status rs) (rs_header rs) (event_data first) n"
    have w: "sv_writer s1 = sv_writer s" by (rule outside_server(2) [OF outside_now n])
    have whole: "first @ bd_data b = bd_data (rs_body rs)"
      using read_sse_event_append(1) [OF ev] data(1) by auto
    have run: "(if key_failure (cl_kind ?c)
        then (\<lparr>sf_usage = no_usage, sf_ttft = None, sf_first_error = Some ?c, sf_late_error = None,
               sf_first_event = event_data first, sf_copy_err = False\<rparr>, s1)
        else run_state (forward_rest ev rs protocol started first b) s1) = (r, t)"
      using assms data n by (auto simp: forward_stream_def ev run_simps classify_at_def)
    show ?thesis
    proof (cases "key_failure (cl_kind ?c)")
      case True
      with run w show ?thesis by (auto simp: stream_effect_def)
    next
      case False
      with run have "run_state (forward_rest ev rs protocol started first b) s1 = (r, t)"
        by (simp only: if_False)
      then show ?thesis using w whole by (rule forward_rest_effect)
    qed
  qed
qed

end
