(* ===== verification/Models.thy ===== *)
theory Models
  imports ServerInv
begin

text \<open>
  The other handlers of internal/proxy/service.go: the model catalog with its cache (HandleModels)
  and the test of one key (TestKey); and the scheduler of internal/scheduler/scheduler.go, which
  reopens cooled keys, probes them and purges old telemetry.
\<close>

section \<open>The catalog\<close>

definition settings_or_zero :: "db_error + settings \<Rightarrow> settings" where
  "settings_or_zero s = (case s of Inr v \<Rightarrow> v | Inl _ \<Rightarrow> zero_settings)"

definition cache_header :: string where
  "cache_header = ''X-OpencodeProxy-Models-Cache''"

definition catalog_limit :: nat where
  "catalog_limit = 16777216"

definition serve_catalog :: "response \<Rightarrow> string \<Rightarrow> unit handler" where
  "serve_catalog rs body = do {
     writer_do (\<lambda>w. w\<lparr>wr_header := copy_response_headers (wr_header w) (rs_header rs)\<rparr>);
     writer_do (set_header cache_header ''miss'');
     writer_do (write_header (rs_status rs));
     ignore (write_out body) }"

definition catalog_attempt :: "env \<Rightarrow> key \<Rightarrow> unit \<Rightarrow> unit option handler" where
  "catalog_attempt ev k _ =
     (case en_decrypt ev (k_encrypted k) of
        Inl _ \<Rightarrow> State_Monad.return (Some ())
      | Inr secret \<Rightarrow> do {
          r \<leftarrow> send (models_call ev secret);
          case r of
            CallFailed _ \<Rightarrow> State_Monad.return (Some ())
          | Reply rs \<Rightarrow>
              (case read_all catalog_limit (rs_body rs) of
                 None \<Rightarrow> State_Monad.return (Some ())
               | Some body \<Rightarrow>
                   if ok_status (rs_status rs) then do {
                     ignore (mark_checked (k_id k) ''valid'' ''reachable'' [] []);
                     ignore (save_model_cache body (k_id k));
                     serve_catalog rs body;
                     State_Monad.return None }
                   else do {
                     t \<leftarrow> now;
                     c \<leftarrow> classify_at ev (rs_status rs) (rs_header rs) body t;
                     (if cl_kind c = ErrorAuth then ignore (mark_invalid (k_id k) (cl_message c))
                      else State_Monad.return ());
                     State_Monad.return (Some ()) }) })"

definition serve_stale :: "unit handler" where
  "serve_stale = do {
     cached \<leftarrow> model_cache;
     case cached of
       Inr (body, _) \<Rightarrow> do {
         writer_do (set_header ''Content-Type'' ''application/json'');
         writer_do (set_header ''Warning'' (''110 - '' @ quote ''stale model catalog''));
         writer_do (set_header cache_header ''stale'');
         ignore (write_out body) }
     | Inl _ \<Rightarrow> write_json 503 (error_json ''Model catalog is unavailable'' ''models_unavailable'') }"

definition fetch_catalog :: "env \<Rightarrow> unit handler" where
  "fetch_catalog ev = do {
     keys \<leftarrow> auth_valid_keys;
     r \<leftarrow> try_each (catalog_attempt ev) (case keys of Inr ks \<Rightarrow> ks | Inl _ \<Rightarrow> []) ();
     case r of None \<Rightarrow> State_Monad.return () | Some _ \<Rightarrow> serve_stale }"

definition handle_models :: "env \<Rightarrow> unit handler" where
  "handle_models ev = do {
     s \<leftarrow> get_settings;
     cached \<leftarrow> model_cache;
     case cached of
       Inl _ \<Rightarrow> fetch_catalog ev
     | Inr (body, fetched) \<Rightarrow> do {
         t \<leftarrow> now;
         if t - fetched < wrap64 (st_models_cache (settings_or_zero s) * second) then do {
           writer_do (set_header ''Content-Type'' ''application/json'');
           writer_do (set_header cache_header ''hit'');
           ignore (write_out body) }
         else fetch_catalog ev } }"

section \<open>Testing a key\<close>

definition test_limit :: nat where
  "test_limit = 2097152"

text \<open>ReadAll with its error ignored: what was read before it.\<close>

definition read_some :: "nat \<Rightarrow> http_body \<Rightarrow> string" where
  "read_some lim b = take lim (bd_data b)"

definition probe_payload :: "string \<Rightarrow> string" where
  "probe_payload model =
     marshal (JObj [(''model'', JStr model),
       (''messages'', JArr [JObj [(''role'', JStr ''user''), (''content'', JStr ''Reply with only OK'')]]),
       (''max_tokens'', json_int 2), (''stream'', JBool False)])"

definition empty_request :: incoming where
  "empty_request = \<lparr>in_header = [], in_query = [], in_body = \<lparr>bd_data = [], bd_fails = False\<rparr>,
     in_client = [], in_client_name = []\<rparr>"

definition reset_json :: "time option \<Rightarrow> json" where
  "reset_json r = (case r of None \<Rightarrow> JNull | Some t \<Rightarrow> JStr (format_time t))"

definition probe_inference :: "env \<Rightarrow> key \<Rightarrow> string \<Rightarrow> (string + json) handler" where
  "probe_inference ev k secret = do {
     s \<leftarrow> get_settings;
     r \<leftarrow> call_upstream ev empty_request ''openai'' (probe_payload (st_probe_model (settings_or_zero s))) secret;
     case r of
       CallFailed e \<Rightarrow> fail e
     | Reply rs \<Rightarrow> do {
         t \<leftarrow> now;
         c \<leftarrow> classify_at ev (rs_status rs) (rs_header rs) (read_some test_limit (rs_body rs)) t;
         if key_failure (cl_kind c) then do {
           t2 \<leftarrow> now;
           ignore (record_key_failure (k_id k) c t2);
           ok (JObj [(''ok'', JBool False), (''stage'', JStr ''inference''), (''status'', json_int (rs_status rs)),
             (''kind'', JStr (kind_text (cl_kind c))), (''window'', JStr (cl_window c)),
             (''reset_at'', reset_json (cl_reset c)), (''message'', JStr (cl_message c))]) }
         else if ok_status (rs_status rs) then do {
           ignore (mark_used (k_id k));
           ok (JObj [(''ok'', JBool True), (''stage'', JStr ''inference''), (''status'', json_int (rs_status rs))]) }
         else
           ok (JObj [(''ok'', JBool False), (''stage'', JStr ''inference''), (''status'', json_int (rs_status rs)),
             (''kind'', JStr (kind_text (cl_kind c))), (''message'', JStr (cl_message c))]) } }"

definition test_key :: "env \<Rightarrow> key \<Rightarrow> bool \<Rightarrow> (string + json) handler" where
  "test_key ev k inference =
     (case en_decrypt ev (k_encrypted k) of
        Inl e \<Rightarrow> fail e
      | Inr secret \<Rightarrow> do {
          r \<leftarrow> send (models_call ev secret);
          case r of
            CallFailed e \<Rightarrow> do {
              ignore (mark_checked (k_id k) ''unknown'' ''degraded'' [] e);
              fail e }
          | Reply rs \<Rightarrow>
              if \<not> ok_status (rs_status rs) then do {
                t \<leftarrow> now;
                c \<leftarrow> classify_at ev (rs_status rs) (rs_header rs) (read_some test_limit (rs_body rs)) t;
                (if cl_kind c = ErrorAuth then ignore (mark_invalid (k_id k) (cl_message c))
                 else State_Monad.return ());
                ok (JObj [(''ok'', JBool False), (''stage'', JStr ''models''),
                  (''status'', json_int (rs_status rs)), (''message'', JStr (cl_message c))]) }
              else do {
                ignore (mark_checked (k_id k) ''valid'' ''reachable'' [] []);
                if \<not> inference then
                  ok (JObj [(''ok'', JBool True), (''stage'', JStr ''models''), (''inference_tested'', JBool False)])
                else probe_inference ev k secret } })"

section \<open>The scheduler\<close>

definition probe_due :: "settings \<Rightarrow> time \<Rightarrow> key \<Rightarrow> bool" where
  "probe_due s t k \<longleftrightarrow>
     k_quota k = ''half_open'' \<and> k_enabled k \<and>
     (case k_override k of Some v \<Rightarrow> v | None \<Rightarrow> st_auto_probe s) \<and>
     \<not> (case k_checked k of None \<Rightarrow> False | Some c \<Rightarrow> t - c < wrap64 (st_probe_interval s * second))"

definition scheduler_run :: "env \<Rightarrow> unit handler" where
  "scheduler_run ev = do {
     ignore mark_half_open_due;
     s \<leftarrow> get_settings;
     case s of
       Inl _ \<Rightarrow> State_Monad.return ()
     | Inr v \<Rightarrow> do {
         ks \<leftarrow> list_keys;
         case ks of
           Inl _ \<Rightarrow> State_Monad.return ()
         | Inr keys \<Rightarrow> do {
             t \<leftarrow> now;
             for_each (\<lambda>k. if probe_due v t k then ignore (test_key ev k True) else State_Monad.return ()) keys;
             t2 \<leftarrow> now;
             ignore (purge_before (t2 - en_retention ev)) } } }"

text \<open>Run: once at the start and once per tick.\<close>

fun scheduler_ticks :: "env \<Rightarrow> nat \<Rightarrow> unit handler" where
  "scheduler_ticks ev 0 = scheduler_run ev"
| "scheduler_ticks ev (Suc n) = do { scheduler_ticks ev n; scheduler_run ev }"

section \<open>Invariants\<close>

context handler_invariant
begin

lemma keeps_serve_catalog: "keeps I (serve_catalog rs body)"
  unfolding serve_catalog_def by (intro keep_intros writes)

lemma keeps_serve_stale: "keeps I serve_stale"
  unfolding serve_stale_def by (intro keep_intros steps writes)

end

context call_invariant
begin

lemma keeps_catalog_attempt: "keeps I (catalog_attempt ev k f)"
  unfolding catalog_attempt_def by (intro keep_intros steps at_send keeps_serve_catalog)

lemma keeps_fetch_catalog: "keeps I (fetch_catalog ev)"
  unfolding fetch_catalog_def
  by (intro keep_intros steps keeps_try_each keeps_catalog_attempt keeps_serve_stale)

lemma keeps_handle_models: "keeps I (handle_models ev)"
  unfolding handle_models_def by (intro keep_intros steps writes keeps_fetch_catalog)

lemma keeps_probe_inference: "keeps I (probe_inference ev k secret)"
  unfolding probe_inference_def fail_def ok_def by (intro keep_intros steps keeps_call keeps_failure)

lemma keeps_test_key: "keeps I (test_key ev k inference)"
  unfolding test_key_def fail_def ok_def by (intro keep_intros steps at_send keeps_probe_inference)

end

text \<open>The scheduler also lists the keys and purges requests, which only the store's contract covers.\<close>

context row_invariant
begin

lemma keeps_scheduler_run: "keeps (on_db P) (scheduler_run ev)"
  unfolding scheduler_run_def by (intro keep_intros keeps_store handlers.keeps_test_key)

lemma keeps_scheduler_ticks: "keeps (on_db P) (scheduler_ticks ev n)"
  by (induction n) (auto intro: keep_intros keeps_scheduler_run)

end

end
