(* ===== verification/StoreProps.thy ===== *)
theory StoreProps
  imports Frame
begin

text \<open>
  Properties of the store: the steps of concurrent callers as a relation on databases, what is
  true of every database they reach, and what single methods do.
\<close>

section \<open>Reachable databases\<close>

text \<open>
  The methods that change tables. The store has one connection and every method is one statement
  or one transaction, so concurrent callers interleave whole methods.
\<close>

datatype store_call =
    MCreateKey key
  | MUpdateKey int string int bool "bool option"
  | MDeleteKey int
  | MSetActive int
  | MMarkChecked int string string string string
  | MMarkUsed int
  | MMarkInvalid int string
  | MMarkQuota int string "time option" string
  | MMarkHalfOpenDue
  | MUpdateSettings settings
  | MBeginRequest request_record
  | MAddAttempt attempt_record
  | MFinishRequest request_record usage
  | MRenameRequestClient string string
  | MPurgeBefore time
  | MSaveModelCache string int

definition forget :: "('s, 'e + 'a) state \<Rightarrow> ('s, 'e + unit) state" where
  "forget m = State_Monad.bind m (\<lambda>r. State_Monad.return (case r of Inl e \<Rightarrow> Inl e | Inr _ \<Rightarrow> Inr ()))"

fun run_method :: "store_call \<Rightarrow> (host, db_error + unit) state" where
  "run_method (MCreateKey k) = forget (create_key k)"
| "run_method (MUpdateKey i n p e ov) = forget (update_key i n p e ov)"
| "run_method (MDeleteKey i) = delete_key i"
| "run_method (MSetActive i) = set_active i"
| "run_method (MMarkChecked i a c q e) = mark_checked i a c q e"
| "run_method (MMarkUsed i) = mark_used i"
| "run_method (MMarkInvalid i m) = mark_invalid i m"
| "run_method (MMarkQuota i w r m) = mark_quota i w r m"
| "run_method MMarkHalfOpenDue = mark_half_open_due"
| "run_method (MUpdateSettings v) = update_settings v"
| "run_method (MBeginRequest r) = begin_request r"
| "run_method (MAddAttempt a) = add_attempt a"
| "run_method (MFinishRequest r u) = finish_request r u"
| "run_method (MRenameRequestClient i n) = rename_request_client i n"
| "run_method (MPurgeBefore t) = purge_before t"
| "run_method (MSaveModelCache b i) = save_model_cache b i"

text \<open>One step: some caller runs some method, at any time and with any of its statements failing.\<close>

inductive db_step :: "db \<Rightarrow> db \<Rightarrow> bool" where
  call: "h_db h = d \<Longrightarrow> run_state (run_method m) h = (r, h') \<Longrightarrow> db_step d (h_db h')"

inductive reachable :: "db \<Rightarrow> bool" where
  start: "reachable migrated"
| step: "reachable d \<Longrightarrow> db_step d d' \<Longrightarrow> reachable d'"

inductive_cases db_stepE: "db_step d d'"

context table_invariant
begin

lemma keeps_method: "keeps (on_db P) (run_method m)"
  by (cases m) (auto simp: forget_def intro: keep_intros keeps_store keeps_create_key)

lemma step_invariant:
  assumes "db_step d d'" "P d" shows "P d'"
proof -
  from assms(1) obtain h m r h' where h: "h_db h = d" "run_state (run_method m) h = (r, h')" "d' = h_db h'"
    by (auto elim: db_stepE)
  with assms(2) keepsD [OF keeps_method, of h m] show ?thesis by (simp add: on_db_def)
qed

lemma steps_invariant: "db_step\<^sup>*\<^sup>* d d' \<Longrightarrow> P d \<Longrightarrow> P d'"
  by (induction rule: rtranclp_induct) (auto intro: step_invariant)

end

text \<open>
  C3. In every database that callers reach from the fresh one, whatever methods they run in
  whatever order and whichever statements fail: at most one key has the role active, and a key with
  it is enabled; ids and fingerprints of keys are unique; attempts and quota events refer to
  existing keys and requests, and so do the final key of a request and the source of the catalog.
\<close>

theorem reachable_tables:
  "reachable d \<Longrightarrow>
     length (active_rows (db_keys d)) \<le> 1 \<and>
     (\<forall>r \<in> set (active_rows (db_keys d)). kr_enabled r = 1) \<and>
     distinct (map kr_id (db_keys d)) \<and> distinct (map kr_fingerprint (db_keys d)) \<and>
     (\<forall>a \<in> set (db_attempts d). has_request d (ar_request a) \<and> has_key d (ar_key a)) \<and>
     (\<forall>q \<in> set (db_events d). has_key d (qr_key q)) \<and>
     (\<forall>r \<in> set (db_requests d). key_ref_ok d (pr_final_key r)) \<and>
     (\<forall>c. db_cache d = Some c \<longrightarrow> key_ref_ok d (mc_source c))"
proof -
  assume "reachable d"
  then have "db_ok d"
    by induction (auto intro: migrated_ok tables.step_invariant)
  then show ?thesis
    by (auto simp: db_ok_def rows_ok_def refs_ok_def list_all_iff active_rows_def)
qed

text \<open>A key, and a host without failing statements whose clock stands still.\<close>

definition sample_key :: key where
  "sample_key = \<lparr>k_id = 0, k_name = ''a'', k_encrypted = ''x'', k_fingerprint = ''f'', k_priority = 100,
     k_enabled = True, k_auth = ''unknown'', k_quota = ''unknown'', k_control = ''unknown'', k_role = [],
     k_window = [], k_cooling = None, k_error = [], k_used = None, k_checked = None, k_override = None,
     k_created = 0, k_updated = 0\<rparr>"

definition host_of :: "db \<Rightarrow> host" where
  "host_of d = \<lparr>h_db = d, h_clock = (\<lambda>n. 0), h_ticks = 0, h_faults = []\<rparr>"

definition after_method :: "store_call \<Rightarrow> db \<Rightarrow> db" where
  "after_method m d = h_db (snd (run_state (run_method m) (host_of d)))"

lemma after_method_step: "db_step d (after_method m d)"
  unfolding after_method_def
  by (rule db_step.intros [where h = "host_of d" and m = m and r = "fst (run_state (run_method m) (host_of d))"])
    (simp_all add: host_of_def)

lemmas run_method_simps = after_method_def host_of_def forget_def store_defs transaction_def try_bind_def
  exec_def query_def run_simps

text \<open>The database with this key, and with it active.\<close>

definition epoch_text :: string where
  "epoch_text = format_time 0"

definition one_row :: "string \<Rightarrow> key_row" where
  "one_row role = \<lparr>kr_id = 1, kr_name = ''a'', kr_encrypted = ''x'', kr_fingerprint = ''f'', kr_priority = 100,
     kr_enabled = 1, kr_auth = ''unknown'', kr_quota = ''unknown'', kr_control = ''unknown'', kr_role = role,
     kr_window = [], kr_cooling = None, kr_error = [], kr_used = None, kr_checked = None, kr_override = None,
     kr_created = epoch_text, kr_updated = epoch_text\<rparr>"

definition one_key_db :: "string \<Rightarrow> db" where
  "one_key_db role = migrated\<lparr>db_keys := [one_row role], db_key_seq := 1\<rparr>"

lemma after_create: "after_method (MCreateKey sample_key) migrated = one_key_db ''standby''"
  by (simp add: run_method_simps insert_key_def sample_key_def migrated_def one_key_db_def one_row_def
      epoch_text_def bool_int_def Let_def)

lemma after_activate: "after_method (MSetActive 1) (one_key_db ''standby'') = one_key_db ''active''"
  by (simp add: run_method_simps demote_def promote_def promotable_def update_keys_def one_key_db_def one_row_def
      epoch_text_def migrated_def)

lemma one_key_reachable: "reachable (one_key_db ''active'')"
  using after_method_step [of migrated "MCreateKey sample_key"]
    after_method_step [of "one_key_db ''standby''" "MSetActive 1"]
  unfolding after_create after_activate by (blast intro: reachable.intros)

theorem reachable_tables_witness:
  "active_rows (db_keys (one_key_db ''active'')) \<noteq> [] \<and>
     length (active_rows (db_keys (one_key_db ''active''))) \<le> 1 \<and>
     list_all (\<lambda>r. kr_enabled r = 1) (active_rows (db_keys (one_key_db ''active'')))"
  using reachable_tables [OF one_key_reachable]
  by (simp add: one_key_db_def one_row_def active_rows_def)

section \<open>Failure is atomic\<close>

lemma exec_atomic: "run_state (exec f) h = (Inl e, h') \<Longrightarrow> h_db h' = h_db h"
  by (rule exec_Inl)

lemma set_active_rollback: "run_state (set_active i) h = (Inl e, h') \<Longrightarrow> h_db h' = h_db h"
  unfolding set_active_def by (rule transaction_rollback)

lemma mark_quota_rollback: "run_state (mark_quota i w r m) h = (Inl e, h') \<Longrightarrow> h_db h' = h_db h"
  unfolding mark_quota_def by (rule transaction_rollback)

text \<open>The methods that answer with the row they wrote read it after the statement.\<close>

definition reads_back :: "store_call \<Rightarrow> bool" where
  "reads_back m = (case m of MCreateKey _ \<Rightarrow> True | MUpdateKey _ _ _ _ _ \<Rightarrow> True | _ \<Rightarrow> False)"

text \<open>
  C21. A method that reports an error has changed no table, whichever of its statements failed:
  SetActive and MarkQuota roll their first statement back. (CreateKey and UpdateKey are not of this
  kind: they read the row back after writing it.)
\<close>

theorem method_atomic:
  assumes "run_state (run_method m) h = (Inl e, h')" "\<not> reads_back m"
  shows "h_db h' = h_db h"
  using assms
  by (cases m)
    (auto simp: reads_back_def delete_key_def update_settings_def begin_request_def add_attempt_def
      finish_request_def rename_request_client_def purge_before_def mark_checked_def mark_used_def
      mark_invalid_def mark_half_open_due_def save_model_cache_def run_now_text
      dest!: exec_atomic set_active_rollback mark_quota_rollback)

lemma set_active_missing:
  "fst (run_state (run_method (MSetActive 7)) (host_of (one_key_db ''active''))) = Inl NoRows"
  by (simp add: run_method_simps demote_def promote_def promotable_def update_keys_def one_key_db_def one_row_def
      epoch_text_def migrated_def)

theorem method_atomic_witness:
  "h_db (snd (run_state (run_method (MSetActive 7)) (host_of (one_key_db ''active'')))) = one_key_db ''active''"
proof -
  have "run_state (run_method (MSetActive 7)) (host_of (one_key_db ''active'')) =
      (Inl NoRows, snd (run_state (run_method (MSetActive 7)) (host_of (one_key_db ''active''))))"
    using set_active_missing by (metis prod.collapse)
  from method_atomic [OF this] show ?thesis by (simp add: reads_back_def host_of_def)
qed

section \<open>Which key is active\<close>

lemma promote_ids [simp]: "kr_id (r\<lparr>kr_role := a, kr_updated := b\<rparr>) = kr_id r"
  by simp

text \<open>
  C20. SetActive either fails and changes nothing, or finds exactly one enabled key with the id, and
  then that key and no other has the role active.
\<close>

theorem set_active_exact:
  assumes "run_state (set_active i) h = (r, h')"
  shows "case r of
      Inl _ \<Rightarrow> h_db h' = h_db h
    | Inr _ \<Rightarrow> length (filter (promotable i) (db_keys (h_db h))) = 1 \<and>
        map kr_id (active_rows (db_keys (h_db h'))) = [i]"
proof (cases r)
  case (Inl e)
  with assms show ?thesis by (auto dest: set_active_rollback)
next
  case (Inr u)
  with assms obtain t1 t2 where one: "length (filter (promotable i) (db_keys (h_db h))) = 1"
    and h': "h_db h' = promote i t2 (demote t1 (h_db h))"
    by (auto elim: set_active_Inr)
  have "map kr_id (active_rows (db_keys (h_db h'))) = map kr_id (filter (promotable i) (db_keys (demote t1 (h_db h))))"
    unfolding h' active_rows_promote by (simp add: comp_def)
  also have "\<dots> = replicate (length (filter (promotable i) (db_keys (demote t1 (h_db h))))) i"
    by (rule map_idI [THEN sym, THEN trans])
      (auto simp: promotable_def intro!: replicate_eqI)
  finally show ?thesis using one Inr by simp
qed

theorem set_active_exact_witness:
  "map kr_id (active_rows (db_keys (after_method (MSetActive 1) (one_key_db ''standby'')))) = [1]"
proof -
  have r: "run_state (set_active 1) (host_of (one_key_db ''standby'')) =
      (Inr (), snd (run_state (set_active 1) (host_of (one_key_db ''standby''))))"
    by (simp add: run_method_simps demote_def promote_def promotable_def update_keys_def one_key_db_def one_row_def
        epoch_text_def migrated_def)
  show ?thesis using set_active_exact [OF r] by (simp add: after_method_def)
qed

section \<open>Routing order\<close>

lemma sorted_route: "sorted_wrt (\<lambda>a b. route_rank a \<le> route_rank b) (sort_key route_rank rows)"
  using sorted_sort_key [of route_rank rows] by (simp add: sorted_map)

text \<open>
  C24. EligibleKeys returns the rows that are enabled, not invalid and not cooling, each once, the
  active one before the others and otherwise by priority and then by id; it changes no table.
\<close>

theorem eligible_keys_order:
  assumes "run_state eligible_keys h = (Inr ks, h')"
  shows "mset ks = mset (map scan_key (filter eligible_row (db_keys (h_db h)))) \<and>
    sorted_wrt (\<lambda>a b.
      (k_role a = ''active'' \<and> k_role b \<noteq> ''active'') \<or>
      (k_role a = ''active'') = (k_role b = ''active'') \<and>
        (k_priority a < k_priority b \<or> k_priority a = k_priority b \<and> k_id a \<le> k_id b)) ks \<and>
    h_db h' = h_db h"
proof -
  have ks: "ks = map scan_key (sort_key route_rank (filter eligible_row (db_keys (h_db h))))" "h_db h' = h_db h"
    using query_Inr [OF assms [unfolded eligible_keys_def]] by (simp_all add: route_order_def)
  have "sorted_wrt (\<lambda>a b. route_rank a \<le> route_rank b) (sort_key route_rank (filter eligible_row (db_keys (h_db h))))"
    by (rule sorted_route)
  then show ?thesis unfolding ks(1) sorted_wrt_map mset_map mset_sort
    by (auto simp: ks(2) route_rank_def elim!: sorted_wrt_mono_rel [rotated] split: if_splits)
qed

section \<open>Cooling\<close>

lemma insert_event_Inr:
  "insert_event q d = Inr (u, d') \<Longrightarrow> d' = d\<lparr>db_events := db_events d @ [q]\<rparr> \<and> has_key d (qr_key q)"
  by (auto simp: insert_event_def split: if_splits)

text \<open>
  C23. MarkQuota either fails and changes nothing, or takes the key out of the rotation (cooling, and
  no longer active), remembers until when, leaves every other key as it was, and records one event.
\<close>

theorem mark_quota_exact:
  assumes "run_state (mark_quota i w reset msg) h = (r, h')"
  shows "case r of
      Inl _ \<Rightarrow> h_db h' = h_db h
    | Inr _ \<Rightarrow>
        (\<forall>row \<in> set (db_keys (h_db h')). kr_id row = i \<longrightarrow>
           kr_quota row = ''cooling'' \<and> kr_role row = ''standby'' \<and> kr_window row = w \<and>
           kr_cooling row = map_option format_time reset \<and> kr_error row = truncate_text msg 1000) \<and>
        filter (\<lambda>row. kr_id row \<noteq> i) (db_keys (h_db h')) = filter (\<lambda>row. kr_id row \<noteq> i) (db_keys (h_db h)) \<and>
        i \<notin> k_id ` set (route_order (db_keys (h_db h'))) \<and>
        (\<exists>q. db_events (h_db h') = db_events (h_db h) @ [q] \<and> qr_key q = i \<and> qr_window q = w)"
proof (cases r)
  case (Inl e)
  with assms show ?thesis by (auto dest: mark_quota_rollback)
next
  case (Inr u)
  let ?f = "\<lambda>t1 t2 r. r\<lparr>kr_quota := ''cooling'', kr_role := ''standby'', kr_window := w,
    kr_cooling := map_option format_time reset, kr_error := truncate_text msg 1000,
    kr_checked := Some t1, kr_updated := t2\<rparr>"
  have "\<exists>t1 t2 q. insert_event q (update_keys (\<lambda>r. kr_id r = i) (?f t1 t2) (h_db h)) = Inr ((), h_db h') \<and>
      qr_key q = i \<and> qr_window q = w"
    using assms unfolding mark_quota_def Inr
    by (auto elim!: transaction_commit try_bind_Inr simp: run_now_text dest!: exec_Inr(1)) (metis quota_row.select_convs)
  then obtain t1 t2 q where e: "insert_event q (update_keys (\<lambda>r. kr_id r = i) (?f t1 t2) (h_db h)) = Inr ((), h_db h')"
    and q: "qr_key q = i" "qr_window q = w" by blast
  have keys: "db_keys (h_db h') = map (\<lambda>r. if kr_id r = i then ?f t1 t2 r else r) (db_keys (h_db h))"
    and events: "db_events (h_db h') = db_events (h_db h) @ [q]"
    using insert_event_Inr [OF e] by simp_all
  have "kr_id row = i \<longrightarrow> kr_quota row = ''cooling'' \<and> kr_role row = ''standby'' \<and> kr_window row = w \<and>
      kr_cooling row = map_option format_time reset \<and> kr_error row = truncate_text msg 1000"
    if "row = (if kr_id r = i then ?f t1 t2 r else r)" for row r
    unfolding that by (cases "kr_id r = i") simp_all
  then have rows: "\<forall>row \<in> set (db_keys (h_db h')). kr_id row = i \<longrightarrow>
      kr_quota row = ''cooling'' \<and> kr_role row = ''standby'' \<and> kr_window row = w \<and>
      kr_cooling row = map_option format_time reset \<and> kr_error row = truncate_text msg 1000"
    unfolding keys set_map by blast
  have "filter (\<lambda>row. kr_id row \<noteq> i) (map (\<lambda>r. if kr_id r = i then ?f t1 t2 r else r) rows) =
      filter (\<lambda>row. kr_id row \<noteq> i) rows" for rows
    by (induction rows) auto
  then have others: "filter (\<lambda>row. kr_id row \<noteq> i) (db_keys (h_db h')) = filter (\<lambda>row. kr_id row \<noteq> i) (db_keys (h_db h))"
    unfolding keys .
  have "i \<notin> k_id ` set (route_order (db_keys (h_db h')))"
    using rows by (auto simp: route_order_def eligible_row_def)
  moreover have "\<exists>q. db_events (h_db h') = db_events (h_db h) @ [q] \<and> qr_key q = i \<and> qr_window q = w"
    using events q by blast
  ultimately show ?thesis unfolding Inr sum.case using rows others by blast
qed

lemma quota_event_added:
  "run_state (mark_quota 1 ''5h'' (Some 7) ''limit'') (host_of (one_key_db ''active'')) =
     (Inr (), snd (run_state (mark_quota 1 ''5h'' (Some 7) ''limit'') (host_of (one_key_db ''active''))))"
  by (simp add: run_method_simps insert_event_def has_key_def update_keys_def one_key_db_def one_row_def
      epoch_text_def migrated_def)

theorem mark_quota_exact_witness:
  "1 \<notin> k_id ` set (route_order (db_keys (after_method (MMarkQuota 1 ''5h'' (Some 7) ''limit'') (one_key_db ''active''))))"
  using mark_quota_exact [OF quota_event_added] by (simp add: after_method_def)

theorem eligible_keys_order_witness:
  "map k_id (route_order (db_keys (one_key_db ''active''))) = [1] \<and>
   mset (route_order (db_keys (one_key_db ''active''))) =
     mset (map scan_key (filter eligible_row (db_keys (one_key_db ''active''))))"
proof -
  have "run_state eligible_keys (host_of (one_key_db ''active'')) =
      (Inr (route_order (db_keys (one_key_db ''active''))), host_of (one_key_db ''active''))"
    by (simp add: eligible_keys_def query_def host_of_def run_simps)
  from eligible_keys_order [OF this] show ?thesis
    by (simp add: host_of_def) (simp add: route_order_def one_key_db_def one_row_def eligible_row_def)
qed

text \<open>
  C26. When a cooling key becomes due. The store compares the RFC 3339 texts of the reset time t and
  of the time n of the check: a key is due at the latest one second after its reset time, and never
  a second or more before it.
\<close>

theorem cooling_key_due:
  assumes "kr_quota r = ''cooling''" "kr_cooling r = Some (format_time t)" "text_year t" "text_year n"
  shows "(t + second \<le> n \<longrightarrow> due_row (format_time n) r) \<and> (due_row (format_time n) r \<longrightarrow> t < n + second)"
  using assms format_time_leI [of t n] format_time_le_imp [of t n] by (auto simp: due_row_def)

definition cooling_row :: "time \<Rightarrow> key_row" where
  "cooling_row t = (one_row ''standby'')\<lparr>kr_quota := ''cooling'', kr_cooling := Some (format_time t)\<rparr>"

theorem cooling_key_due_witness:
  "due_row (format_time (3 * second)) (cooling_row second)"
proof -
  have "text_year second" "text_year (3 * second)" by code_simp+
  with cooling_key_due [of "cooling_row second" second "3 * second"] show ?thesis
    by (simp add: cooling_row_def second_def)
qed

text \<open>
  Within a second the texts are not ordered like the times: at 00:00:00 a key that is cooling
  until half a second later counts as due, and at half past a key whose reset time was the full
  second does not.
\<close>

lemma cooling_order_broken:
  "due_row (format_time 0) (cooling_row 500000000) \<and> \<not> due_row (format_time 500000000) (cooling_row 0)"
proof -
  have "format_time 0 = ''1970-01-01T00:00:00Z''" "format_time 500000000 = ''1970-01-01T00:00:00.5Z''"
    by code_simp+
  then show ?thesis by (simp add: cooling_row_def due_row_def one_row_def less_eq_list_code less_eq_char_def less_char_def)
qed

section \<open>Creating and deleting keys\<close>

lemma insert_key_Inr:
  "insert_key t k d = Inr (i, d') \<Longrightarrow> i = db_key_seq d + 1 \<and> db_key_seq d' = i \<and>
     k_fingerprint k \<notin> kr_fingerprint ` set (db_keys d) \<and>
     (\<exists>r. db_keys d' = db_keys d @ [r] \<and> kr_id r = i \<and> kr_fingerprint r = k_fingerprint k \<and> kr_role r = ''standby'')"
  by (auto simp: insert_key_def Let_def list_ex_iff split: if_splits)

text \<open>
  C25. Whatever happens to a database between two moments, the id a key is given at the second is
  greater than every id that any key had at the first: ids are never used again, so attempts and
  statistics of a deleted key are never taken for those of a new one.
\<close>

theorem key_ids_fresh:
  assumes "reachable d" "db_step\<^sup>*\<^sup>* d d'" "insert_key t k d' = Inr (i, d'')"
  shows "\<forall>r \<in> set (db_keys d). kr_id r < i"
proof -
  from assms(1) have "db_ok d"
    by induction (auto intro: migrated_ok tables.step_invariant)
  then have "\<forall>r \<in> set (db_keys d). kr_id r \<le> db_key_seq d" by (simp add: db_ok_def list_all_iff)
  moreover have "db_key_seq d \<le> db_key_seq d'"
    using seq.steps_invariant [OF assms(2), of "db_key_seq d"] by simp
  ultimately show ?thesis using insert_key_Inr [OF assms(3)] by force
qed

definition emptied_db :: db where
  "emptied_db = (one_key_db ''active'')\<lparr>db_keys := []\<rparr>"

lemma after_delete: "after_method (MDeleteKey 1) (one_key_db ''active'') = emptied_db"
  by (simp add: run_method_simps remove_key_def one_key_db_def one_row_def emptied_db_def migrated_def)

theorem key_ids_fresh_witness:
  "\<exists>d''. insert_key epoch_text sample_key emptied_db = Inr (2, d'') \<and>
     (\<forall>r \<in> set (db_keys (one_key_db ''active'')). kr_id r < 2)"
proof -
  have step: "db_step\<^sup>*\<^sup>* (one_key_db ''active'') emptied_db"
    using after_method_step [of "one_key_db ''active''" "MDeleteKey 1"] unfolding after_delete by blast
  obtain d'' where d'': "insert_key epoch_text sample_key emptied_db = Inr (2, d'')"
    by (simp add: insert_key_def emptied_db_def one_key_db_def Let_def)
  with key_ids_fresh [OF one_key_reachable step d''] show ?thesis by blast
qed

lemma remove_key_cache:
  "db_cache (remove_key i d) = map_option (\<lambda>c. if mc_source c = Some i then c\<lparr>mc_source := None\<rparr> else c) (db_cache d)"
  by (simp add: remove_key_def)

text \<open>
  Deleting a key removes its row, its attempts and its quota events; a request or a catalog that
  came from it stays, without the reference; nothing else changes.
\<close>

lemma delete_key_cascade:
  assumes "run_state (delete_key i) h = (Inr u, h')"
  shows "\<not> has_key (h_db h') i \<and>
    filter (\<lambda>r. kr_id r \<noteq> i) (db_keys (h_db h)) = db_keys (h_db h') \<and>
    (\<forall>a \<in> set (db_attempts (h_db h')). ar_key a \<noteq> i) \<and> (\<forall>q \<in> set (db_events (h_db h')). qr_key q \<noteq> i) \<and>
    map pr_id (db_requests (h_db h')) = map pr_id (db_requests (h_db h)) \<and>
    (\<forall>r \<in> set (db_requests (h_db h')). pr_final_key r \<noteq> Some i) \<and>
    map_option mc_body (db_cache (h_db h')) = map_option mc_body (db_cache (h_db h)) \<and>
    (\<forall>c. db_cache (h_db h') = Some c \<longrightarrow> mc_source c \<noteq> Some i)"
proof -
  have h': "h_db h' = remove_key i (h_db h)"
    using exec_Inr(1) [OF assms [unfolded delete_key_def]] by simp
  have cache: "\<forall>c. map_option (\<lambda>c. if mc_source c = Some i then c\<lparr>mc_source := None\<rparr> else c) m = Some c \<longrightarrow>
      mc_source c \<noteq> Some i" for m
    by (cases m) auto
  have body: "map_option mc_body (map_option (\<lambda>c. if mc_source c = Some i then c\<lparr>mc_source := None\<rparr> else c) m) =
      map_option mc_body m" for m
    by (cases m) auto
  have same: "pr_id (if pr_final_key r = Some i then r\<lparr>pr_final_key := None\<rparr> else r) = pr_id r" for r
    by simp
  show ?thesis unfolding h'
  proof (intro conjI)
    show "\<forall>r \<in> set (db_requests (remove_key i (h_db h))). pr_final_key r \<noteq> Some i"
      by (auto simp: remove_key_def)
    show "map pr_id (db_requests (remove_key i (h_db h))) = map pr_id (db_requests (h_db h))"
      using same by (simp add: remove_key_def comp_def del: if_split)
    show "\<forall>c. db_cache (remove_key i (h_db h)) = Some c \<longrightarrow> mc_source c \<noteq> Some i"
      using cache [of "db_cache (h_db h)"] by (simp only: remove_key_cache)
    show "map_option mc_body (db_cache (remove_key i (h_db h))) = map_option mc_body (db_cache (h_db h))"
      using body [of "db_cache (h_db h)"] by (simp only: remove_key_cache)
  qed (auto simp: remove_key_def has_key_iff)
qed

section \<open>Editing keys\<close>




end
