(* ===== verification/ProxyProps.thy ===== *)
theory ProxyProps
  imports Transparency Models StoreProps
begin

text \<open>Properties of the request path: what clients and the upstream see, and what is recorded.\<close>

section \<open>Sample data\<close>

text \<open>Keys are stored in clear, maps are visited in source order, the connection reports one text.\<close>

definition sample_env :: env where
  "sample_env = \<lparr>en_base_url = ''http://up/'', en_max_request = 100, en_retention = 0,
     en_decrypt = Inr, en_order = (\<lambda>n. id), en_read_error = ''unexpected EOF''\<rparr>"

definition sample_incoming :: incoming where
  "sample_incoming = \<lparr>in_header = [(''Authorization'', [''Bearer client'']), (''X-Trace'', [''t''])], in_query = [],
     in_body = \<lparr>bd_data = ''{}'', bd_fails = False\<rparr>, in_client = ''c1'', in_client_name = ''laptop''\<rparr>"

definition sample_job :: job where
  "sample_job = \<lparr>jb_protocol = ''openai'', jb_incoming = sample_incoming, jb_body = ''{}'', jb_stream = False,
     jb_record = request_of ''openai'' ''r1'' sample_incoming no_meta ''{}'' 0, jb_started = 0\<rparr>"

definition sample_response :: "int \<Rightarrow> string \<Rightarrow> response" where
  "sample_response st body = \<lparr>rs_status = st, rs_header = [(''X-A'', [''1''])],
     rs_body = \<lparr>bd_data = body, bd_fails = False\<rparr>\<rparr>"

definition fresh_writer :: writer where
  "fresh_writer = \<lparr>wr_header = [], wr_sent = None, wr_body = [], wr_budget = None\<rparr>"

definition sample_server :: "db \<Rightarrow> (upstream_call \<Rightarrow> reply) \<Rightarrow> server" where
  "sample_server d up = \<lparr>h_db = d, h_clock = (\<lambda>n. 0), h_ticks = 0, h_faults = [],
     sv_upstream = (\<lambda>n. up), sv_calls = [], sv_writer = fresh_writer\<rparr>"

section \<open>Credentials\<close>


section \<open>Which keys are tried\<close>

text \<open>The state a handler starts from, as far as the choice of keys goes.\<close>

definition at_start :: "key_row list \<Rightarrow> upstream_call list \<Rightarrow> server \<Rightarrow> bool" where
  "at_start rows cs s \<longleftrightarrow> db_keys (h_db s) = rows \<and> sv_calls s = cs"

lemma at_start_now: "keeps (at_start rows cs) now"
  by (rule keepsI) (simp add: at_start_def run_now)

lemma at_start_writer_do: "keeps (at_start rows cs) (writer_do f)"
  by (rule keepsI) (simp add: at_start_def writer_do_def)

lemma at_start_db:
  assumes "keeps (on_db (\<lambda>d. db_keys d = rows)) p" "\<And>m. keeps (outside m) p"
  shows "keeps (at_start rows cs) p"
proof (rule keepsI)
  fix s assume "at_start rows cs s"
  with keepsD [OF assms(1), of s] keepsD [OF calls_are_outside [OF assms(2), of cs], of s]
  show "at_start rows cs (snd (run_state p s))" by (simp add: at_start_def on_db_def calls_are_def)
qed

lemma at_start_settings: "keeps (at_start rows cs) get_settings"
  by (rule at_start_db) (auto simp: get_settings_def intro: keep_intros)

lemma at_start_begin: "keeps (at_start rows cs) (ignore (begin_request r))"
  by (rule at_start_db)
    (auto simp: begin_request_def insert_request_def split: if_splits intro!: keep_intros keeps_exec)

text \<open>What the calls of a request are: those of a prefix of the selected keys.\<close>

definition tried :: "env \<Rightarrow> job \<Rightarrow> key_row list \<Rightarrow> upstream_call list \<Rightarrow> server \<Rightarrow> bool" where
  "tried ev j rows cs t \<longleftrightarrow>
     (\<exists>ks n. (selectable rows ks \<or> ks = []) \<and> n \<le> length ks \<and>
        sv_calls t = cs @ concat (map (key_calls ev j) (take n ks)))"

lemma serve_tried: "hoare (at_start rows cs) (serve ev j) (\<lambda>_. tried ev j rows cs)"
  unfolding hoare_def
proof (intro allI impI)
  fix s assume s: "at_start rows cs s"
  have "run_state (serve ev j) s = (fst (run_state (serve ev j) s), snd (run_state (serve ev j) s))"
    by (simp add: prod_eq_iff)
  then obtain ks n where "selectable (db_keys (h_db s)) ks \<or> ks = []" "n \<le> length ks"
    "sv_calls (snd (run_state (serve ev j) s)) = sv_calls s @ concat (map (key_calls ev j) (take n ks))"
    by (rule serve_calls)
  with s show "tried ev j rows cs (snd (run_state (serve ev j) s))"
    unfolding tried_def at_start_def by blast
qed

lemma tried_none: "sv_calls t = cs \<Longrightarrow> tried ev j rows cs t"
  unfolding tried_def by (intro exI [of _ "[]"] exI [of _ 0]) simp

text \<open>
  C6. The calls a request makes to the upstream. Keys are taken from the selection of one moment
  (the eligible keys in routing order, the due ones reopened or not), in its order, from its start
  and without a gap; each key that can be decrypted gets exactly one call, with its own secret and
  the same body: the client's, or the client's with the usage option of a stream.
\<close>

theorem inference_calls:
  assumes "run_state (handle_inference ev protocol rid inc) s = (u, t)"
  shows "\<exists>j ks n. jb_protocol j = protocol \<and> jb_incoming j = inc \<and>
    (\<forall>raw. read_limited (in_body inc) (en_max_request ev) = Inr raw \<longrightarrow>
       jb_body j = raw \<or> protocol = ''openai'' \<and> jb_body j = ensure_stream_usage raw) \<and>
    (selectable (db_keys (h_db s)) ks \<or> ks = []) \<and> n \<le> length ks \<and>
    sv_calls t = sv_calls s @ concat (map (key_calls ev j) (take n ks))"
proof -
  define fits where "fits j \<longleftrightarrow> jb_protocol j = protocol \<and> jb_incoming j = inc \<and>
    (\<forall>raw. read_limited (in_body inc) (en_max_request ev) = Inr raw \<longrightarrow>
       jb_body j = raw \<or> protocol = ''openai'' \<and> jb_body j = ensure_stream_usage raw)" for j :: job
  let ?rows = "db_keys (h_db s)" and ?cs = "sv_calls s"
  have serve: "hoare (at_start ?rows ?cs) (serve ev j) (\<lambda>_ t. \<exists>j. fits j \<and> tried ev j ?rows ?cs t)"
    if "fits j" for j
    by (rule hoare_conseq [OF serve_tried]) (use that in blast)
  have "hoare (at_start ?rows ?cs) (handle_inference ev protocol rid inc)
     (\<lambda>_ t. \<exists>j. fits j \<and> tried ev j ?rows ?cs t)"
  proof (cases "read_limited (in_body inc) (en_max_request ev)")
    case (Inl e)
    have none: "hoare (at_start ?rows ?cs) (write_json st v) (\<lambda>_ t. \<exists>j. fits j \<and> tried ev j ?rows ?cs t)" for st v
    proof -
      have "hoare (calls_are ?cs) (write_json st v) (\<lambda>_. calls_are ?cs)"
        using calls.keeps_write_json by (simp add: keeps_hoare)
      then have "hoare (at_start ?rows ?cs) (write_json st v) (\<lambda>_. calls_are ?cs)"
        by (rule hoare_weaken) (simp add: at_start_def calls_are_def)
      moreover have "fits (sample_job\<lparr>jb_protocol := protocol, jb_incoming := inc\<rparr>)" using Inl by (simp add: fits_def)
      ultimately show ?thesis
        by (elim hoare_conseq) (use tried_none calls_are_def in blast)
    qed
    show ?thesis unfolding handle_inference_def Inl sum.case
      by (intro hoare_keeps_bind at_start_now at_start_writer_do none)
  next
    case (Inr raw)
    show ?thesis unfolding handle_inference_def Inr sum.case Let_def
      by (intro hoare_keeps_bind at_start_now at_start_writer_do at_start_settings at_start_begin serve)
        (simp add: Inr fits_def)
  qed
  from hoareD [OF this _ assms] show ?thesis unfolding fits_def tried_def by (simp add: at_start_def)
qed

definition sample_run :: "int \<Rightarrow> string \<Rightarrow> unit \<times> server" where
  "sample_run st body = run_state (handle_inference sample_env ''openai'' ''r1'' sample_incoming)
     (sample_server (one_key_db ''active'') (\<lambda>c. Reply (sample_response st body)))"

theorem inference_calls_witness:
  "\<exists>j ks n. jb_incoming j = sample_incoming \<and> n \<le> length ks \<and>
     (selectable (db_keys (one_key_db ''active'')) ks \<or> ks = []) \<and>
     sv_calls (snd (sample_run 200 ''{}'')) = concat (map (key_calls sample_env j) (take n ks))"
proof -
  obtain t where t: "sample_run 200 ''{}'' = ((), t)" by (cases "sample_run 200 ''{}''") simp
  from inference_calls [OF t [unfolded sample_run_def]] show ?thesis
    unfolding t snd_conv by (auto simp: sample_server_def)
qed

section \<open>Who answers the client\<close>

text \<open>
  C4. The client is answered by one attempt only. While attempts fail over to the next key, nothing
  of what they got reaches the client; when one answers, it finds the connection as the handler
  left it before the first attempt.
\<close>

theorem one_attempt_answers:
  assumes "run_state (try_each (attempt ev j) (enumerate 1 ks) fo) s = (r, t)"
  shows "case r of
      Some _ \<Rightarrow> sv_writer t = sv_writer s
    | None \<Rightarrow> \<exists>i < length ks. \<exists>u fo'. sv_writer u = sv_writer s \<and>
        run_state (attempt ev j (Suc i, ks ! i) fo') u = (None, t)"
proof (cases r)
  case (Some g)
  with inference.loop_silent [OF assms [unfolded Some]] show ?thesis by simp
next
  case None
  from inference.loop_answered [OF assms [unfolded None]] obtain i fo' u
    where "i < length (enumerate 1 ks)" "sv_writer u = sv_writer s"
      "run_state (attempt ev j (enumerate 1 ks ! i) fo') u = (None, t)"
    by blast
  with None show ?thesis by (auto simp: nth_enumerate_eq)
qed

lemma network_down:
  "fst (run_state (attempt sample_env sample_job (1, scan_key (one_row ''active'')) no_failover)
     (sample_server (one_key_db ''active'') (\<lambda>c. CallFailed ''down''))) = None"
proof -
  obtain s where "run_state (attempt sample_env sample_job (1, scan_key (one_row ''active'')) no_failover)
      (sample_server (one_key_db ''active'') (\<lambda>c. CallFailed ''down'')) =
      run_state (network_failed sample_job \<lparr>ti_key = scan_key (one_row ''active''), ti_no = 1, ti_start = 0\<rparr>) s"
    by (simp add: attempt_def sample_env_def one_row_def call_upstream_def send_def sample_server_def run_now
        run_simps Let_def)
  then show ?thesis using network_failed_None unfolding always_def by metis
qed

theorem one_attempt_answers_witness:
  "\<exists>u fo t. sv_writer u = fresh_writer \<and>
     run_state (attempt sample_env sample_job (1, scan_key (one_row ''active'')) fo) u = (None, t)"
proof -
  let ?s = "sample_server (one_key_db ''active'') (\<lambda>c. CallFailed ''down'')"
  let ?k = "scan_key (one_row ''active'')"
  obtain t where t: "run_state (attempt sample_env sample_job (1, ?k) no_failover) ?s = (None, t)"
    using network_down by (metis prod.collapse)
  then have "run_state (try_each (attempt sample_env sample_job) (enumerate 1 [?k]) no_failover) ?s = (None, t)"
    by (simp add: run_simps)
  from one_attempt_answers [OF this] show ?thesis by (auto simp: sample_server_def)
qed

section \<open>What the client gets\<close>

text \<open>
  C5. A forwarded event stream is the upstream's, byte for byte. If the first event blames the key,
  nothing is sent. Otherwise what is sent is a prefix of the upstream's body, and all of it when no
  error is reported, behind the upstream's status and its headers.
\<close>

theorem stream_exact:
  assumes "run_state (forward_stream ev rs protocol started) s = (r, t)"
  shows "if sf_first_error r \<noteq> None then sv_writer t = sv_writer s
    else (\<exists>bs. prefix bs (bd_data (rs_body rs)) \<and> wr_body (sv_writer t) = wr_body (sv_writer s) @ bs \<and>
      (\<not> sf_copy_err r \<longrightarrow> bs = bd_data (rs_body rs) \<and>
         (wr_sent (sv_writer s) = None \<longrightarrow> wr_sent (sv_writer t) =
            Some (rs_status rs, copy_response_headers (wr_header (sv_writer s)) (rs_header rs)))))"
  using forward_stream_effect [OF assms]
  by (auto simp: stream_effect_def forwarded_def adds_def head_sent_def)

text \<open>A stream of one comment, which holds no data to classify.\<close>

definition ping_run :: "stream_result \<times> server" where
  "ping_run = run_state (forward_stream sample_env (sample_response 200 ('': ping'' @ [newline, newline])) ''openai'' 0)
     (sample_server migrated (\<lambda>c. CallFailed ''down''))"

lemma ping_events:
  "read_sse_event event_limit \<lparr>bd_data = '': ping'' @ [newline, newline], bd_fails = False\<rparr> =
     ('': ping'' @ [newline, newline], None, \<lparr>bd_data = [], bd_fails = False\<rparr>)"
  "read_sse_event event_limit \<lparr>bd_data = [], bd_fails = False\<rparr> = ([], Some Eof, \<lparr>bd_data = [], bd_fails = False\<rparr>)"
  by (simp_all add: read_sse_event_def read_loop.simps read_line_def blank_line_def newline_def carriage_def
      event_limit_def)

lemma ping_data: "event_data ('': ping'' @ [newline, newline]) = []"
  by (simp add: event_data_def newline_def line_data_def carriage_def trim_suffix_def has_prefix_def)

lemma ping_run_result: "sf_first_error (fst ping_run) = None \<and> \<not> sf_copy_err (fst ping_run)"
  by (simp add: ping_run_def forward_stream_def forward_rest_def sample_response_def ping_events [simplified]
      ping_data [simplified] stream_loop.simps observe_event_def write_event_def write_out_def write_bytes_def
      send_headers_def writer_do_def run_simps Let_def sample_server_def fresh_writer_def stream_done_def
      write_header_def)

theorem stream_exact_witness:
  "wr_body (sv_writer (snd ping_run)) = '': ping'' @ [newline, newline] \<and>
   wr_sent (sv_writer (snd ping_run)) = Some (200, [(''X-A'', [''1''])])"
proof -
  have "copy_response_headers [] [(''X-A'', [''1''])] = [(''X-A'', [''1''])]" by code_simp
  moreover have "run_state (forward_stream sample_env (sample_response 200 ('': ping'' @ [newline, newline])) ''openai'' 0)
     (sample_server migrated (\<lambda>c. CallFailed ''down'')) = (fst ping_run, snd ping_run)"
    by (simp add: ping_run_def)
  from stream_exact [OF this] ping_run_result
  have "wr_body (sv_writer (snd ping_run)) = '': ping'' @ [newline, newline] \<and>
     wr_sent (sv_writer (snd ping_run)) = Some (200, copy_response_headers [] [(''X-A'', [''1''])])"
    by (simp add: sample_server_def fresh_writer_def sample_response_def)
  ultimately show ?thesis by simp
qed

section \<open>A success that is taken for an exhausted quota\<close>

text \<open>The classification reads every string of an answer, whatever its status.\<close>

lemma success_as_quota:
  "cl_kind (classify (\<lambda>xs. xs) 200 [] ''{\"content\":\"quota exceeded\"}'' 0) = ErrorQuota"
  by code_simp

section \<open>What is counted\<close>

lemma observe_event_sound:
  "usage_sound u \<Longrightarrow> usage_sound (fst (fst (run_state (observe_event ev rs protocol event u late) s)))"
  by (auto simp: observe_event_def Let_def run_state_bind usage_sound_json split: prod.split)

lemma stream_loop_sound:
  "usage_sound u \<Longrightarrow> usage_sound (sf_usage (fst (run_state (stream_loop ev rs protocol ttft u late b) s)))"
proof (induction ev rs protocol ttft u late b arbitrary: s rule: stream_loop.induct)
  case (1 ev rs protocol ttft u late b)
  obtain event e b' where ev: "read_sse_event event_limit b = (event, e, b')"
    by (cases "read_sse_event event_limit b")
  obtain u1 late1 s1 where o: "run_state (observe_event ev rs protocol event u late) s = ((u1, late1), s1)"
    by (metis prod.exhaust)
  obtain good s2 where w: "run_state (write_event event) s1 = (good, s2)"
    by (cases "run_state (write_event event) s1")
  from observe_event_sound [OF 1(2), of ev rs protocol event late s] o have u1: "usage_sound u1" by simp
  show ?case
  proof (cases "good \<and> e = None")
    case True
    then have "usage_sound (sf_usage (fst (run_state (stream_loop ev rs protocol ttft u1 late1 b') s2)))"
      by (intro 1(1) [where xd = True, OF ev [symmetric] refl]) (simp_all add: u1)
    with True show ?thesis by (subst stream_loop.simps) (simp add: ev run_state_bind o w)
  next
    case False
    then show ?thesis
      by (subst stream_loop.simps) (auto simp: ev run_state_bind o w u1 stream_done_def split: option.split)
  qed
qed

lemma forward_rest_sound:
  "usage_sound (sf_usage (fst (run_state (forward_rest ev rs protocol started first b) s)))"
  by (auto simp: forward_rest_def Let_def run_state_bind stream_loop_sound usage_sound_json usage_sound_none stream_done_def
      split: prod.split)

text \<open>
  C22. The usage counted in a stream is sound, whatever the upstream sends and wherever it stops: its
  state is unavailable, partial or complete, nothing is counted before the first usage object, a
  complete one has input, output and total input, and every count is a 64-bit number.
\<close>

theorem stream_usage_sound:
  "usage_sound (sf_usage (fst (run_state (forward_stream ev rs protocol started) s)))"
  by (auto simp: forward_stream_def run_state_bind forward_rest_sound usage_sound_none stream_done_def split: prod.split)

end
