(* ===== verification/GoCrypto.thy ===== *)
theory GoCrypto
  imports GoStrings "HOL-Library.Word"
begin

text \<open>
  The parts of Go's crypto packages the program uses: SHA-256 (FIPS 180-4), the block cipher AES
  (FIPS 197) and the authenticated mode GCM with its nonce of 12 and its tag of 16 bytes
  (SP 800-38D). Byte strings are strings; inside the algorithms a byte is an 8-bit word.
\<close>

unbundle bit_operations_syntax

type_synonym byte8 = "8 word"

definition bytes_of :: "string \<Rightarrow> byte8 list" where
  "bytes_of s = map of_char s"

definition text_of :: "byte8 list \<Rightarrow> string" where
  "text_of bs = map (\<lambda>b. char_of (unat b)) bs"

lemma length_bytes_of [simp]: "length (bytes_of s) = length s"
  by (simp add: bytes_of_def)

lemma length_text_of [simp]: "length (text_of bs) = length bs"
  by (simp add: text_of_def)

lemma unat_of_char [simp]: "unat (of_char c :: byte8) = of_char c"
proof -
  have "(of_char c :: byte8) = word_of_nat (of_char c)" by (simp add: of_nat_of_char)
  then show ?thesis by (simp add: unat_word_ariths unat_of_nat)
qed

lemma of_char_of_unat [simp]: "of_char (char_of (unat b)) = (b :: byte8)"
proof -
  have "unat b < 256" using unsigned_less [of b] by simp
  then have "(of_char (char_of (unat b) :: char) :: nat) = unat b" by simp
  then show ?thesis by (metis of_nat_of_char of_nat_unat ucast_id)
qed

lemma text_of_bytes_of [simp]: "text_of (bytes_of s) = s"
  by (simp add: bytes_of_def text_of_def o_def)

lemma bytes_of_text_of [simp]: "bytes_of (text_of bs) = bs"
  by (simp add: bytes_of_def text_of_def o_def)

lemma text_of_append [simp]: "text_of (a @ b) = text_of a @ text_of b"
  by (simp add: text_of_def)

text \<open>A list cut into pieces of a length (the last one may be shorter).\<close>

function chunks :: "nat \<Rightarrow> 'a list \<Rightarrow> 'a list list" where
  "chunks n xs = (if xs = [] then [] else take (Suc n) xs # chunks n (drop (Suc n) xs))"
  by pat_completeness auto
termination
  by (relation "measure (\<lambda>(n, xs). length xs)") auto

declare chunks.simps [simp del]

text \<open>Big-endian numbers of bytes, and back.\<close>

definition word_of_bytes :: "byte8 list \<Rightarrow> 'a::len word" where
  "word_of_bytes bs = foldl (\<lambda>w b. push_bit 8 w OR ucast b) 0 bs"

definition bytes_of_word :: "nat \<Rightarrow> 'a::len word \<Rightarrow> byte8 list" where
  "bytes_of_word n w = map (\<lambda>i. ucast (drop_bit (8 * (n - 1 - i)) w)) [0..<n]"

lemma length_bytes_of_word [simp]: "length (bytes_of_word n w) = n"
  by (simp add: bytes_of_word_def)

section \<open>SHA-256\<close>

text \<open>The first 32 bits of the fractional parts of the cube roots of the first 64 primes.\<close>

definition sha_constants :: "32 word list" where
  "sha_constants =
    [1116352408, 1899447441, 3049323471, 3921009573, 961987163, 1508970993, 2453635748, 2870763221,
     3624381080, 310598401, 607225278, 1426881987, 1925078388, 2162078206, 2614888103, 3248222580,
     3835390401, 4022224774, 264347078, 604807628, 770255983, 1249150122, 1555081692, 1996064986,
     2554220882, 2821834349, 2952996808, 3210313671, 3336571891, 3584528711, 113926993, 338241895,
     666307205, 773529912, 1294757372, 1396182291, 1695183700, 1986661051, 2177026350, 2456956037,
     2730485921, 2820302411, 3259730800, 3345764771, 3516065817, 3600352804, 4094571909, 275423344,
     430227734, 506948616, 659060556, 883997877, 958139571, 1322822218, 1537002063, 1747873779,
     1955562222, 2024104815, 2227730452, 2361852424, 2428436474, 2756734187, 3204031479, 3329325298]"

record sha_state =
  sh_a :: "32 word"
  sh_b :: "32 word"
  sh_c :: "32 word"
  sh_d :: "32 word"
  sh_e :: "32 word"
  sh_f :: "32 word"
  sh_g :: "32 word"
  sh_h :: "32 word"

definition sha_init :: sha_state where
  "sha_init = \<lparr>sh_a = 0x6a09e667, sh_b = 0xbb67ae85, sh_c = 0x3c6ef372, sh_d = 0xa54ff53a,
     sh_e = 0x510e527f, sh_f = 0x9b05688c, sh_g = 0x1f83d9ab, sh_h = 0x5be0cd19\<rparr>"

definition sha_round :: "32 word \<times> 32 word \<Rightarrow> sha_state \<Rightarrow> sha_state" where
  "sha_round kw s =
     (let e = sh_e s; a = sh_a s;
          s1 = word_rotr 6 e XOR word_rotr 11 e XOR word_rotr 25 e;
          ch = (e AND sh_f s) XOR (NOT e AND sh_g s);
          t1 = sh_h s + s1 + ch + fst kw + snd kw;
          s0 = word_rotr 2 a XOR word_rotr 13 a XOR word_rotr 22 a;
          maj = (a AND sh_b s) XOR (a AND sh_c s) XOR (sh_b s AND sh_c s)
      in \<lparr>sh_a = t1 + (s0 + maj), sh_b = a, sh_c = sh_b s, sh_d = sh_c s,
          sh_e = sh_d s + t1, sh_f = e, sh_g = sh_f s, sh_h = sh_g s\<rparr>)"

text \<open>The message schedule: from the last 16 words, the next n.\<close>

fun sha_extend :: "nat \<Rightarrow> 32 word list \<Rightarrow> 32 word list" where
  "sha_extend 0 ws = []"
| "sha_extend (Suc n) ws =
     (let x = ws ! 1; y = ws ! 14;
          s0 = word_rotr 7 x XOR word_rotr 18 x XOR drop_bit 3 x;
          s1 = word_rotr 17 y XOR word_rotr 19 y XOR drop_bit 10 y;
          w = ws ! 0 + s0 + ws ! 9 + s1
      in w # sha_extend n (drop 1 ws @ [w]))"

definition sha_block :: "sha_state \<Rightarrow> byte8 list \<Rightarrow> sha_state" where
  "sha_block s bs =
     (let ws = map word_of_bytes (chunks 3 bs);
          t = fold sha_round (zip sha_constants (ws @ sha_extend 48 ws)) s
      in \<lparr>sh_a = sh_a s + sh_a t, sh_b = sh_b s + sh_b t, sh_c = sh_c s + sh_c t, sh_d = sh_d s + sh_d t,
          sh_e = sh_e s + sh_e t, sh_f = sh_f s + sh_f t, sh_g = sh_g s + sh_g t, sh_h = sh_h s + sh_h t\<rparr>)"

definition sha_pad :: "byte8 list \<Rightarrow> byte8 list" where
  "sha_pad bs =
     bs @ [0x80] @ replicate ((119 - length bs mod 64) mod 64) 0
     @ bytes_of_word 8 (word_of_nat (8 * length bs) :: 64 word)"

text \<open>sha256.Sum256\<close>

definition sha256 :: "string \<Rightarrow> string" where
  "sha256 s =
     (let t = foldl sha_block sha_init (chunks 63 (sha_pad (bytes_of s)))
      in text_of (concat (map (bytes_of_word 4)
           [sh_a t, sh_b t, sh_c t, sh_d t, sh_e t, sh_f t, sh_g t, sh_h t])))"

lemma length_sha256 [simp]: "length (sha256 s) = 32"
  by (simp add: sha256_def Let_def)

section \<open>AES\<close>

definition xtime :: "byte8 \<Rightarrow> byte8" where
  "xtime b = push_bit 1 b XOR (if bit b 7 then 0x1b else 0)"

fun gf_mul :: "nat \<Rightarrow> byte8 \<Rightarrow> byte8 \<Rightarrow> byte8" where
  "gf_mul 0 a b = 0"
| "gf_mul (Suc n) a b = (if bit b 0 then a else 0) XOR gf_mul n (xtime a) (drop_bit 1 b)"

definition gf_times :: "byte8 \<Rightarrow> byte8 \<Rightarrow> byte8" where
  "gf_times a b = gf_mul 8 a b"

text \<open>The inverse of a byte is its power 254 = 2 + 4 + 8 + 16 + 32 + 64 + 128.\<close>

fun gf_powers :: "nat \<Rightarrow> byte8 \<Rightarrow> byte8" where
  "gf_powers 0 a = 1"
| "gf_powers (Suc n) a = (let s = gf_times a a in gf_times s (gf_powers n s))"

definition sub_byte :: "byte8 \<Rightarrow> byte8" where
  "sub_byte b =
     (let i = gf_powers 7 b
      in i XOR word_rotl 1 i XOR word_rotl 2 i XOR word_rotl 3 i XOR word_rotl 4 i XOR 0x63)"

definition xor_bytes :: "byte8 list \<Rightarrow> byte8 list \<Rightarrow> byte8 list" where
  "xor_bytes a b = map2 (\<lambda>x y. x XOR y) a b"

text \<open>The key schedule: from the last words, the words number i to i + n - 1.\<close>

fun aes_expand :: "nat \<Rightarrow> nat \<Rightarrow> nat \<Rightarrow> byte8 \<Rightarrow> byte8 list list \<Rightarrow> byte8 list list" where
  "aes_expand nk 0 i rcon ws = []"
| "aes_expand nk (Suc n) i rcon ws =
     (let w = last ws;
          x = (if i mod nk = 0 then xor_bytes (map sub_byte (rotate1 w)) [rcon, 0, 0, 0]
               else if 6 < nk \<and> i mod nk = 4 then map sub_byte w else w);
          v = xor_bytes (hd ws) x
      in v # aes_expand nk n (Suc i) (if i mod nk = 0 then xtime rcon else rcon) (tl ws @ [v]))"

definition aes_keys :: "byte8 list \<Rightarrow> byte8 list list" where
  "aes_keys key =
     (let ws = chunks 3 key; nk = length ws
      in map concat (chunks 3 (ws @ aes_expand nk (4 * (nk + 7) - nk) nk 1 ws)))"

definition shift_rows :: "byte8 list \<Rightarrow> byte8 list" where
  "shift_rows s = map ((!) s) [0, 5, 10, 15, 4, 9, 14, 3, 8, 13, 2, 7, 12, 1, 6, 11]"

definition mix_column :: "byte8 list \<Rightarrow> byte8 list" where
  "mix_column c =
     map (\<lambda>i. gf_times (c ! i) 2 XOR gf_times (c ! ((i + 1) mod 4)) 3 XOR c ! ((i + 2) mod 4) XOR
              c ! ((i + 3) mod 4)) [0..<4]"

definition aes_round :: "byte8 list \<Rightarrow> byte8 list \<Rightarrow> byte8 list" where
  "aes_round s k = xor_bytes (concat (map mix_column (chunks 3 (shift_rows (map sub_byte s))))) k"

definition aes_block :: "byte8 list \<Rightarrow> byte8 list \<Rightarrow> byte8 list" where
  "aes_block key s =
     (let ks = aes_keys key
      in xor_bytes (shift_rows (map sub_byte
           (foldl aes_round (xor_bytes s (hd ks)) (butlast (tl ks))))) (last ks))"

section \<open>GCM\<close>

fun ghash_mul :: "nat \<Rightarrow> 128 word \<Rightarrow> 128 word \<Rightarrow> 128 word \<Rightarrow> 128 word" where
  "ghash_mul 0 x v z = z"
| "ghash_mul (Suc n) x v z =
     ghash_mul n x (if bit v 0 then drop_bit 1 v XOR push_bit 120 0xe1 else drop_bit 1 v)
       (if bit x n then z XOR v else z)"

definition ghash :: "128 word \<Rightarrow> byte8 list list \<Rightarrow> 128 word" where
  "ghash h blocks =
     foldl (\<lambda>y b. ghash_mul 128 (y XOR word_of_bytes (b @ replicate (16 - length b) 0)) h 0) 0 blocks"

definition counter_block :: "byte8 list \<Rightarrow> nat \<Rightarrow> byte8 list" where
  "counter_block nonce n = nonce @ bytes_of_word 4 (word_of_nat n :: 32 word)"

definition key_stream :: "byte8 list \<Rightarrow> byte8 list \<Rightarrow> nat \<Rightarrow> byte8 list" where
  "key_stream key nonce n =
     take n (concat (map (\<lambda>i. aes_block key (counter_block nonce (i + 2))) [0..<n div 16 + 1]))"

definition gcm_tag :: "byte8 list \<Rightarrow> byte8 list \<Rightarrow> byte8 list \<Rightarrow> byte8 list" where
  "gcm_tag key nonce c =
     (let h = word_of_bytes (aes_block key (replicate 16 0));
          sizes = replicate 8 0 @ bytes_of_word 8 (word_of_nat (8 * length c) :: 64 word)
      in xor_bytes (bytes_of_word 16 (ghash h (chunks 15 c @ [sizes])))
           (aes_block key (counter_block nonce 1)))"

text \<open>Seal and Open of cipher.NewGCM, without additional data.\<close>

definition gcm_seal :: "string \<Rightarrow> string \<Rightarrow> string \<Rightarrow> string" where
  "gcm_seal key nonce plain =
     (let k = bytes_of key; n = bytes_of nonce; p = bytes_of plain;
          c = xor_bytes p (key_stream k n (length p))
      in text_of (c @ gcm_tag k n c))"

definition gcm_open :: "string \<Rightarrow> string \<Rightarrow> string \<Rightarrow> string option" where
  "gcm_open key nonce sealed =
     (if length sealed < 16 then None
      else
        let k = bytes_of key; n = bytes_of nonce;
            c = bytes_of (take (length sealed - 16) sealed);
            tag = bytes_of (drop (length sealed - 16) sealed)
        in if gcm_tag k n c = tag then Some (text_of (xor_bytes c (key_stream k n (length c)))) else None)"

lemma bytes_of_take: "bytes_of (take n s) = take n (bytes_of s)"
  by (simp add: bytes_of_def take_map)

lemma bytes_of_drop: "bytes_of (drop n s) = drop n (bytes_of s)"
  by (simp add: bytes_of_def drop_map)

lemma length_xor_bytes [simp]: "length (xor_bytes a b) = min (length a) (length b)"
  by (simp add: xor_bytes_def)

lemma xor_bytes_twice: "length a \<le> length k \<Longrightarrow> xor_bytes (xor_bytes a k) k = a"
  by (rule nth_equalityI) (auto simp: xor_bytes_def xor.assoc)

subsection \<open>Lengths\<close>

lemma chunks_even:
  "length xs = m * Suc n \<Longrightarrow> length (chunks n xs) = m \<and> (\<forall>c \<in> set (chunks n xs). length c = Suc n)"
proof (induction m arbitrary: xs)
  case 0
  then show ?case by (simp add: chunks.simps)
next
  case (Suc m)
  then have "xs \<noteq> []" "length (drop (Suc n) xs) = m * Suc n" by auto
  with Suc.IH [of "drop (Suc n) xs"] Suc.prems show ?case
    by (subst chunks.simps, subst (2) chunks.simps) simp
qed

lemma set_chunks: "c \<in> set (chunks n xs) \<Longrightarrow> set c \<subseteq> set xs"
proof (induction n xs rule: chunks.induct)
  case (1 n xs)
  then show ?case
    by (subst (asm) (2) chunks.simps) (auto split: if_splits dest: in_set_takeD in_set_dropD)
qed

lemma sum_list_const: "(\<forall>c \<in> set cs. length c = n) \<Longrightarrow> length (concat cs) = length cs * n"
  by (induction cs) auto

lemma length_mix_column [simp]: "length (mix_column c) = 4"
  by (simp add: mix_column_def)

lemma length_shift_rows [simp]: "length (shift_rows s) = 16"
  by (simp add: shift_rows_def)

lemma length_aes_round: "length k = 16 \<Longrightarrow> length (aes_round s k) = 16"
proof -
  assume k: "length k = 16"
  have "length (chunks 3 (shift_rows (map sub_byte s))) = 4"
    using chunks_even [of "shift_rows (map sub_byte s)" 4 3] by simp
  moreover have "length (concat (map mix_column cs)) = length cs * 4" for cs
    by (induction cs) auto
  ultimately show ?thesis using k by (simp add: aes_round_def)
qed

lemma aes_expand_words:
  "(\<forall>w \<in> set ws. length w = 4) \<Longrightarrow> ws \<noteq> [] \<Longrightarrow>
     length (aes_expand nk n i rcon ws) = n \<and> (\<forall>w \<in> set (aes_expand nk n i rcon ws). length w = 4)"
proof (induction n arbitrary: i rcon ws)
  case (Suc n)
  have hl: "length (last ws) = 4" "length (hd ws) = 4" using Suc.prems by simp_all
  have tl: "\<forall>w \<in> set (tl ws). length w = 4" using Suc.prems by (auto dest: list.set_sel(2))
  have step: "length (aes_expand nk n (Suc i) r (tl ws @ [v])) = n \<and>
      (\<forall>w \<in> set (aes_expand nk n (Suc i) r (tl ws @ [v])). length w = 4)" if "length v = 4" for r v
    using tl that by (intro Suc.IH) auto
  obtain v r where v: "aes_expand nk (Suc n) i rcon ws = v # aes_expand nk n (Suc i) r (tl ws @ [v])" "length v = 4"
    using hl by (simp add: Let_def)
  show ?case unfolding v(1) using step [OF v(2)] v(2) by simp
qed simp

lemma aes_keys_rounds:
  assumes "length key = 32"
  shows "length (aes_keys key) = 15 \<and> (\<forall>k \<in> set (aes_keys key). length k = 16)"
proof -
  let ?ws = "chunks 3 key"
  have ws: "length ?ws = 8" "\<forall>w \<in> set ?ws. length w = 4"
    using chunks_even [of key 8 3] assms by simp_all
  then have "?ws \<noteq> []" by auto
  with ws have e: "length (aes_expand 8 52 8 1 ?ws) = 52" "\<forall>w \<in> set (aes_expand 8 52 8 1 ?ws). length w = 4"
    using aes_expand_words [of ?ws 8 52 8 1] by simp_all
  then have "length (?ws @ aes_expand 8 52 8 1 ?ws) = 15 * Suc 3" using ws by simp
  from chunks_even [OF this] have c: "length (chunks 3 (?ws @ aes_expand 8 52 8 1 ?ws)) = 15"
    "\<forall>c \<in> set (chunks 3 (?ws @ aes_expand 8 52 8 1 ?ws)). length c = 4" by simp_all
  have w: "\<forall>c \<in> set (chunks 3 (?ws @ aes_expand 8 52 8 1 ?ws)). \<forall>w \<in> set c. length w = 4"
    using ws(2) e(2) set_chunks by fastforce
  have "length (concat x) = 16" if "x \<in> set (chunks 3 (?ws @ aes_expand 8 52 8 1 ?ws))" for x
    using sum_list_const [of x 4] c(2) w that by simp
  then show ?thesis using c(1) ws(1) by (simp add: aes_keys_def Let_def)
qed

lemma length_aes_block:
  assumes "length key = 32" "length s = 16"
  shows "length (aes_block key s) = 16"
proof -
  have "aes_keys key \<noteq> []" using aes_keys_rounds [OF assms(1)] by auto
  then have "length (last (aes_keys key)) = 16" using aes_keys_rounds [OF assms(1)] by simp
  then show ?thesis by (simp add: aes_block_def Let_def)
qed

lemma length_counter_block: "length nonce = 12 \<Longrightarrow> length (counter_block nonce n) = 16"
  by (simp add: counter_block_def)

lemma length_key_stream:
  assumes "length key = 32" "length nonce = 12"
  shows "length (key_stream key nonce n) = n"
proof -
  have "length (concat (map (\<lambda>i. aes_block key (counter_block nonce (i + 2))) [0..<m])) = m * 16" for m
    by (induction m) (simp_all add: length_aes_block assms length_counter_block)
  moreover have "n \<le> (n div 16 + 1) * 16" by presburger
  ultimately show ?thesis unfolding key_stream_def by (simp only: length_take)
qed

lemma length_gcm_tag:
  "length key = 32 \<Longrightarrow> length nonce = 12 \<Longrightarrow> length (gcm_tag key nonce c) = 16"
  by (simp add: gcm_tag_def Let_def length_aes_block length_counter_block)

text \<open>What Seal has made, Open with the same key and nonce gives back.\<close>

lemma gcm_open_seal:
  assumes "length key = 32" "length nonce = 12"
  shows "gcm_open key nonce (gcm_seal key nonce plain) = Some plain"
proof -
  let ?k = "bytes_of key" and ?n = "bytes_of nonce" and ?p = "bytes_of plain"
  let ?c = "xor_bytes ?p (key_stream ?k ?n (length ?p))"
  have l: "length ?c = length plain" "length (gcm_tag ?k ?n ?c) = 16"
    using assms by (simp_all add: length_key_stream length_gcm_tag)
  then have "gcm_open key nonce (gcm_seal key nonce plain) =
      Some (text_of (xor_bytes ?c (key_stream ?k ?n (length ?c))))"
    by (simp add: gcm_open_def gcm_seal_def Let_def bytes_of_take bytes_of_drop)
  also have "xor_bytes ?c (key_stream ?k ?n (length ?c)) = ?p"
    using l assms by (simp add: xor_bytes_twice length_key_stream)
  finally show ?thesis by simp
qed

end
