(* ===== verification/GoBytes.thy ===== *)
theory GoBytes
  imports GoJson
begin

text \<open>
  The texts of byte strings: encoding/hex, and encoding/base64 with the standard and the URL
  alphabet, with and without padding, as encoders and as the decoders of DecodeString.
\<close>

section \<open>Hexadecimal\<close>

fun hex_encode :: "string \<Rightarrow> string" where
  "hex_encode [] = []"
| "hex_encode (c # s) = hex_digit (of_char c div 16) # hex_digit (of_char c mod 16) # hex_encode s"

fun hex_decode :: "string \<Rightarrow> string option" where
  "hex_decode [] = Some []"
| "hex_decode [c] = None"
| "hex_decode (c # d # s) =
     (case (hex_val c, hex_val d) of
        (Some m, Some n) \<Rightarrow> map_option ((#) (byte (16 * m + n))) (hex_decode s)
      | _ \<Rightarrow> None)"

lemma length_hex_encode [simp]: "length (hex_encode s) = 2 * length s"
  by (induction s) auto

lemma of_char_nat: "(of_char c :: nat) < 256"
  by (rule nat_of_char_less_256)

lemma of_char_int: "(of_char c :: int) = int (of_char c)"
  by (rule of_nat_of_char [symmetric])

lemma byte_range: "(0 :: int) \<le> of_char c" "(of_char c :: int) < 256"
  using of_char_nat [of c] by (simp_all add: of_char_int)

lemma byte_of_char [simp]: "byte (of_char c) = c"
  by (simp add: byte_def of_char_int)

lemma hex_val_digit: "0 \<le> n \<Longrightarrow> n < 16 \<Longrightarrow> hex_val (hex_digit n) = Some n"
proof (cases "n < 10")
  case False
  assume "n < 16"
  with False have "(of_char (hex_digit n) :: nat) = 87 + nat n"
    by (simp add: hex_digit_def)
  with False have "(of_char (hex_digit n) :: nat) = 87 + nat n" "(of_char (hex_digit n) :: int) = 87 + n"
    by (simp_all add: of_char_int)
  with False \<open>n < 16\<close> show ?thesis
    by (simp add: hex_val_def is_digit_def less_eq_char_def le_nat_iff nat_le_iff)
qed (simp add: hex_val_def hex_digit_def digit_val_digit)

lemma hex_digits_byte: "byte (16 * (of_char c div 16) + of_char c mod 16) = c"
  by simp

lemma hex_decode_encode [simp]: "hex_decode (hex_encode s) = Some s"
proof (induction s)
  case (Cons c s)
  have "hex_val (hex_digit (of_char c div 16)) = Some (of_char c div 16)"
    "hex_val (hex_digit (of_char c mod 16)) = Some (of_char c mod 16)"
    using byte_range [of c] by (simp_all add: hex_val_digit)
  with Cons show ?case by simp
qed simp

section \<open>Base64\<close>

definition b64_alphabet :: "bool \<Rightarrow> string" where
  "b64_alphabet url =
     ''ABCDEFGHIJKLMNOPQRSTUVWXYZabcdefghijklmnopqrstuvwxyz0123456789'' @ (if url then ''-_'' else ''+/'')"

definition b64_char :: "bool \<Rightarrow> nat \<Rightarrow> char" where
  "b64_char url n = b64_alphabet url ! n"

definition b64_val :: "bool \<Rightarrow> char \<Rightarrow> nat option" where
  "b64_val url c = map_of (zip (b64_alphabet url) [0..<64]) c"

definition pad_char :: char where
  "pad_char = CHR ''=''"

fun b64_encode :: "bool \<Rightarrow> bool \<Rightarrow> string \<Rightarrow> string" where
  "b64_encode url pad [] = []"
| "b64_encode url pad [a] =
     [b64_char url (of_char a div 4), b64_char url (of_char a mod 4 * 16)]
     @ (if pad then [pad_char, pad_char] else [])"
| "b64_encode url pad [a, b] =
     [b64_char url (of_char a div 4), b64_char url (of_char a mod 4 * 16 + of_char b div 16),
      b64_char url (of_char b mod 16 * 4)]
     @ (if pad then [pad_char] else [])"
| "b64_encode url pad (a # b # c # s) =
     b64_char url (of_char a div 4) # b64_char url (of_char a mod 4 * 16 + of_char b div 16)
     # b64_char url (of_char b mod 16 * 4 + of_char c div 64) # b64_char url (of_char c mod 64)
     # b64_encode url pad s"

text \<open>The bytes of a group of four, three or two digits.\<close>

definition byte1 :: "nat \<Rightarrow> nat \<Rightarrow> char" where "byte1 x y = char_of (x * 4 + y div 16)"
definition byte2 :: "nat \<Rightarrow> nat \<Rightarrow> char" where "byte2 y z = char_of (y * 16 + z div 4)"
definition byte3 :: "nat \<Rightarrow> nat \<Rightarrow> char" where "byte3 z w = char_of (z * 64 + w)"

fun b64_groups :: "bool \<Rightarrow> bool \<Rightarrow> string \<Rightarrow> string option" where
  "b64_groups url pad [] = Some []"
| "b64_groups url pad [x] = None"
| "b64_groups url pad [x, y] =
     (case (b64_val url x, b64_val url y) of
        (Some i, Some j) \<Rightarrow> if pad then None else Some [byte1 i j]
      | _ \<Rightarrow> None)"
| "b64_groups url pad [x, y, z] =
     (case (b64_val url x, b64_val url y, b64_val url z) of
        (Some i, Some j, Some k) \<Rightarrow> if pad then None else Some [byte1 i j, byte2 j k]
      | _ \<Rightarrow> None)"
| "b64_groups url pad (x # y # z # w # s) =
     (case (b64_val url x, b64_val url y) of
        (Some i, Some j) \<Rightarrow>
          (case (b64_val url z, b64_val url w) of
             (Some k, Some l) \<Rightarrow>
               map_option (\<lambda>t. byte1 i j # byte2 j k # byte3 k l # t) (b64_groups url pad s)
           | (Some k, None) \<Rightarrow>
               if pad \<and> w = pad_char \<and> s = [] then Some [byte1 i j, byte2 j k] else None
           | (None, _) \<Rightarrow>
               if pad \<and> z = pad_char \<and> w = pad_char \<and> s = [] then Some [byte1 i j] else None)
      | _ \<Rightarrow> None)"

text \<open>Line ends are skipped wherever they are; the unused bits of the last digit are not checked.\<close>

definition b64_decode :: "bool \<Rightarrow> bool \<Rightarrow> string \<Rightarrow> string option" where
  "b64_decode url pad s = b64_groups url pad (filter (\<lambda>c. c \<noteq> CHR 0x0A \<and> c \<noteq> CHR 0x0D) s)"

lemma b64_alphabet_props:
  "length (b64_alphabet url) = 64" "distinct (b64_alphabet url)"
  "set (b64_alphabet url) \<inter> {CHR 0x0A, CHR 0x0D, CHR ''$'', pad_char} = {}"
  by (simp_all add: b64_alphabet_def pad_char_def)

lemma b64_char_set: "n < 64 \<Longrightarrow> b64_char url n \<in> set (b64_alphabet url)"
  by (simp add: b64_char_def b64_alphabet_props)

lemma b64_val_char: "n < 64 \<Longrightarrow> b64_val url (b64_char url n) = Some n"
  using map_of_zip_nth [of "b64_alphabet url" "[0..<64]" n]
  by (simp add: b64_val_def b64_char_def b64_alphabet_props)

lemma b64_val_pad [simp]: "b64_val url pad_char = None"
  using b64_alphabet_props(3) [of url] by (auto simp: b64_val_def map_of_eq_None_iff dest: set_zip_leftD)

text \<open>The numbers of the digits, and the bytes put together again.\<close>

lemma digit_bounds_nat:
  fixes a b c :: nat
  assumes "a < 256" "b < 256" "c < 256"
  shows "a div 4 < 64" "a mod 4 * 16 < 64" "a mod 4 * 16 + b div 16 < 64" "b mod 16 * 4 < 64"
    "b mod 16 * 4 + c div 64 < 64" "c mod 64 < 64"
proof -
  have "a mod 4 < 4" "b mod 16 < 16" "b div 16 < 16" "c div 64 < 4" using assms by simp_all
  then show "a div 4 < 64" "a mod 4 * 16 < 64" "a mod 4 * 16 + b div 16 < 64" "b mod 16 * 4 < 64"
    "b mod 16 * 4 + c div 64 < 64" "c mod 64 < 64"
    using assms by simp_all
qed

lemmas digit_bounds = digit_bounds_nat [OF of_char_nat of_char_nat of_char_nat]

lemma byte_parts:
  fixes a b c :: nat
  assumes "a < 256" "b < 256" "c < 256"
  shows "a div 4 * 4 + (a mod 4 * 16 + b div 16) div 16 = a" "a div 4 * 4 + a mod 4 * 16 div 16 = a"
    "((a mod 4 * 16 + b div 16) * 16 + (b mod 16 * 4 + c div 64) div 4) mod 256 = b"
    "((a mod 4 * 16 + b div 16) * 16 + b mod 16 * 4 div 4) mod 256 = b"
    "((b mod 16 * 4 + c div 64) * 64 + c mod 64) mod 256 = c"
proof -
  have small: "b div 16 div 16 = 0" "c div 64 div 4 = 0" using assms by simp_all
  have whole: "b div 16 * 16 + b mod 16 = b" "c div 64 * 64 + c mod 64 = c" by simp_all
  show "a div 4 * 4 + (a mod 4 * 16 + b div 16) div 16 = a" "a div 4 * 4 + a mod 4 * 16 div 16 = a"
    using small by (simp_all add: div_add1_eq)
  have "(a mod 4 * 16 + b div 16) * 16 + (b mod 16 * 4 + c div 64) div 4 = a mod 4 * 256 + b"
    "(a mod 4 * 16 + b div 16) * 16 + b mod 16 * 4 div 4 = a mod 4 * 256 + b"
    "(b mod 16 * 4 + c div 64) * 64 + c mod 64 = b mod 16 * 256 + c"
    using whole small by (simp_all add: div_add1_eq algebra_simps)
  then show "((a mod 4 * 16 + b div 16) * 16 + (b mod 16 * 4 + c div 64) div 4) mod 256 = b"
    "((a mod 4 * 16 + b div 16) * 16 + b mod 16 * 4 div 4) mod 256 = b"
    "((b mod 16 * 4 + c div 64) * 64 + c mod 64) mod 256 = c"
    using assms by simp_all
qed

lemma char_of_eq: "n mod 256 = of_char x \<Longrightarrow> char_of (n :: nat) = x"
  by (rule of_char_eqI [where ?'a = nat]) simp

lemma byte_groups:
  "byte1 (of_char a div 4) (of_char a mod 4 * 16 + of_char b div 16) = a"
  "byte1 (of_char a div 4) (of_char a mod 4 * 16) = a"
  "byte2 (of_char a mod 4 * 16 + of_char b div 16) (of_char b mod 16 * 4 + of_char c div 64) = b"
  "byte2 (of_char a mod 4 * 16 + of_char b div 16) (of_char b mod 16 * 4) = b"
  "byte3 (of_char b mod 16 * 4 + of_char c div 64) (of_char c mod 64) = c"
  using byte_parts [OF of_char_nat [of a] of_char_nat [of b] of_char_nat [of c]]
  by (simp_all only: byte1_def byte2_def byte3_def char_of_char char_of_eq)

lemma set_b64_encode: "set (b64_encode url pad s) \<subseteq> insert pad_char (set (b64_alphabet url))"
  by (induction url pad s rule: b64_encode.induct) (auto simp: b64_char_set digit_bounds)

lemma b64_groups_encode: "b64_groups url pad (b64_encode url pad s) = Some s"
  by (induction url pad s rule: b64_encode.induct)
    (simp_all add: b64_val_char digit_bounds byte_groups)

lemma b64_decode_encode [simp]: "b64_decode url pad (b64_encode url pad s) = Some s"
proof -
  have "c \<noteq> CHR 0x0A \<and> c \<noteq> CHR 0x0D" if "c \<in> set (b64_encode url pad s)" for c
    using that set_b64_encode [of url pad s] b64_alphabet_props(3) [of url] by (auto simp: pad_char_def)
  then show ?thesis
    by (simp add: b64_decode_def b64_groups_encode cong: filter_cong)
qed

text \<open>The character that separates the fields of a password hash is no digit.\<close>

lemma b64_no_dollar: "CHR ''$'' \<notin> set (b64_encode url pad s)"
  using set_b64_encode [of url pad s] b64_alphabet_props(3) [of url] by (auto simp: pad_char_def)

end
