(* ===== verification/GoStruct.thy ===== *)
theory GoStruct
  imports GoBytes GoHttp GoTimeParse
begin

text \<open>
  Structs in encoding/json: Encode and MarshalIndent, which keep the order of the members, and
  Unmarshal and Decoder.Decode into a struct, member by member. A document is a value of type
  json whose number literals are the texts of integers.
\<close>

section \<open>Encoding\<close>

text \<open>Encode: structs with their members in the order of the fields.\<close>

fun render :: "json \<Rightarrow> string" where
  "render JNull = ''null''"
| "render (JBool b) = (if b then ''true'' else ''false'')"
| "render (JNum lit) = lit"
| "render (JStr s) = quote s"
| "render (JArr vs) = ''['' @ join '','' (map render vs) @ '']''"
| "render (JObj kvs) =
     [CHR 0x7B] @ join '','' (map (\<lambda>kv. quote (fst kv) @ '':'' @ render (snd kv)) kvs) @ [CHR 0x7D]"

text \<open>A map: its members sorted by name.\<close>

definition map_obj :: "(string \<times> json) list \<Rightarrow> json" where
  "map_obj kvs = JObj (sort_key fst kvs)"

text \<open>A time, an optional one, and a member that is left out when it is absent.\<close>

definition json_time :: "time \<Rightarrow> json" where
  "json_time t = JStr (format_time t)"

definition json_opt :: "('a \<Rightarrow> json) \<Rightarrow> 'a option \<Rightarrow> json" where
  "json_opt f v = (case v of None \<Rightarrow> JNull | Some a \<Rightarrow> f a)"

definition omit_empty :: "string \<Rightarrow> bool \<Rightarrow> json \<Rightarrow> (string \<times> json) list" where
  "omit_empty k gone v = (if gone then [] else [(k, v)])"

text \<open>MarshalIndent with the indentation of two blanks; n is the depth.\<close>

definition new_line :: "nat \<Rightarrow> string" where
  "new_line n = CHR 0x0A # replicate (2 * n) (CHR '' '')"

fun pretty :: "nat \<Rightarrow> json \<Rightarrow> string" where
  "pretty n JNull = ''null''"
| "pretty n (JBool b) = (if b then ''true'' else ''false'')"
| "pretty n (JNum lit) = lit"
| "pretty n (JStr s) = quote s"
| "pretty n (JArr vs) =
     (if vs = [] then ''[]''
      else ''['' @ new_line (n + 1) @ join ('','' @ new_line (n + 1)) (map (pretty (n + 1)) vs)
        @ new_line n @ '']'')"
| "pretty n (JObj kvs) =
     (if kvs = [] then [CHR 0x7B, CHR 0x7D]
      else [CHR 0x7B] @ new_line (n + 1)
        @ join ('','' @ new_line (n + 1))
            (map (\<lambda>kv. quote (fst kv) @ '': '' @ pretty (n + 1) (snd kv)) kvs)
        @ new_line n @ [CHR 0x7D])"

section \<open>Decoding into a struct\<close>

text \<open>
  A field: its name, and what a value does to the struct. The flag tells whether the value had the
  field's type; null leaves a field as it is.
\<close>

type_synonym 'r field = "string \<times> (json \<Rightarrow> 'r \<Rightarrow> 'r \<times> bool)"

definition fd_str :: "(string \<Rightarrow> 'r \<Rightarrow> 'r) \<Rightarrow> json \<Rightarrow> 'r \<Rightarrow> 'r \<times> bool" where
  "fd_str f v r = (case v of JStr s \<Rightarrow> (f s r, True) | JNull \<Rightarrow> (r, True) | _ \<Rightarrow> (r, False))"

definition fd_bool :: "(bool \<Rightarrow> 'r \<Rightarrow> 'r) \<Rightarrow> json \<Rightarrow> 'r \<Rightarrow> 'r \<times> bool" where
  "fd_bool f v r = (case v of JBool b \<Rightarrow> (f b r, True) | JNull \<Rightarrow> (r, True) | _ \<Rightarrow> (r, False))"

definition fd_int :: "(int \<Rightarrow> 'r \<Rightarrow> 'r) \<Rightarrow> json \<Rightarrow> 'r \<Rightarrow> 'r \<times> bool" where
  "fd_int f v r =
     (case v of
        JNum lit \<Rightarrow> (case atoi lit of Some n \<Rightarrow> (f n r, True) | None \<Rightarrow> (r, False))
      | JNull \<Rightarrow> (r, True) | _ \<Rightarrow> (r, False))"

text \<open>A pointer: null is nil, anything else a new value of the type.\<close>

definition fd_ptr ::
    "(('a \<Rightarrow> 'a option \<Rightarrow> 'a option) \<Rightarrow> json \<Rightarrow> 'a option \<Rightarrow> 'a option \<times> bool) \<Rightarrow>
       ('a option \<Rightarrow> 'r \<Rightarrow> 'r) \<Rightarrow> json \<Rightarrow> 'r \<Rightarrow> 'r \<times> bool" where
  "fd_ptr rd f v r =
     (if v = JNull then (f None r, True)
      else case rd (\<lambda>a _. Some a) v None of (p, good) \<Rightarrow> (if good then f p r else r, good))"

text \<open>A time.Time, of the strict form of RFC 3339: neither a comma nor an offset of 24 hours.\<close>

definition parse_strict :: "string \<Rightarrow> time option" where
  "parse_strict s = (if drop (length s - 6) s \<in> {''+24:00'', ''-24:00''} then None else parse_rfc3339 s)"

definition fd_time :: "(time \<Rightarrow> 'r \<Rightarrow> 'r) \<Rightarrow> json \<Rightarrow> 'r \<Rightarrow> 'r \<times> bool" where
  "fd_time f v r =
     (case v of
        JStr s \<Rightarrow> (case parse_strict s of Some t \<Rightarrow> (f t r, True) | None \<Rightarrow> (r, False))
      | JNull \<Rightarrow> (r, True) | _ \<Rightarrow> (r, False))"

text \<open>A slice: null is the nil slice; an element starts from the zero value.\<close>

fun fd_elems :: "'a \<Rightarrow> (json \<Rightarrow> 'a \<Rightarrow> 'a \<times> bool) \<Rightarrow> json list \<Rightarrow> 'a list \<times> bool" where
  "fd_elems z d [] = ([], True)"
| "fd_elems z d (v # vs) =
     (case (d v z, fd_elems z d vs) of ((a, ok1), (bs, ok2)) \<Rightarrow> (a # bs, ok1 \<and> ok2))"

definition fd_list ::
    "'a \<Rightarrow> (json \<Rightarrow> 'a \<Rightarrow> 'a \<times> bool) \<Rightarrow> ('a list \<Rightarrow> 'r \<Rightarrow> 'r) \<Rightarrow> json \<Rightarrow> 'r \<Rightarrow> 'r \<times> bool" where
  "fd_list z d f v r =
     (case v of
        JArr vs \<Rightarrow> (case fd_elems z d vs of (bs, good) \<Rightarrow> (f bs r, good))
      | JNull \<Rightarrow> (f [] r, True) | _ \<Rightarrow> (r, False))"

text \<open>The field of a member: by its exact name, or else by its name in any case.\<close>

definition find_field :: "'r field list \<Rightarrow> string \<Rightarrow> 'r field option" where
  "find_field fs k =
     (case find (\<lambda>f. fst f = k) fs of Some f \<Rightarrow> Some f | None \<Rightarrow> find (\<lambda>f. equal_fold (fst f) k) fs)"

fun decode_members :: "'r field list \<Rightarrow> (string \<times> json) list \<Rightarrow> 'r \<Rightarrow> 'r \<times> bool" where
  "decode_members fs [] r = (r, True)"
| "decode_members fs ((k, v) # kvs) r =
     (case (case find_field fs k of None \<Rightarrow> (r, True) | Some f \<Rightarrow> snd f v r) of
        (r1, ok1) \<Rightarrow> (case decode_members fs kvs r1 of (r2, ok2) \<Rightarrow> (r2, ok1 \<and> ok2)))"

definition decode_struct :: "'r field list \<Rightarrow> json \<Rightarrow> 'r \<Rightarrow> 'r \<times> bool" where
  "decode_struct fs v r =
     (case v of JObj kvs \<Rightarrow> decode_members fs kvs r | JNull \<Rightarrow> (r, True) | _ \<Rightarrow> (r, False))"

text \<open>
  Decoder.Decode of a request body, behind a MaxBytesReader or not: the first value of the stream,
  which has to end within the bytes that can be read; what follows it does not matter.
\<close>

definition closed_value :: "json \<Rightarrow> bool" where
  "closed_value v \<longleftrightarrow> (case v of JObj _ \<Rightarrow> True | JArr _ \<Rightarrow> True | _ \<Rightarrow> False)"

definition first_value :: "nat option \<Rightarrow> http_body \<Rightarrow> json option" where
  "first_value lim b =
     (let d = (case lim of None \<Rightarrow> bd_data b | Some n \<Rightarrow> take n (bd_data b));
          ended = (\<not> bd_fails b \<and> length d = length (bd_data b))
      in case parse_value (Suc (length d)) max_depth d of
           Some (v, rest) \<Rightarrow> if ended \<or> rest \<noteq> [] \<or> closed_value v then Some v else None
         | None \<Rightarrow> None)"

definition decode_body :: "nat option \<Rightarrow> 'r field list \<Rightarrow> http_body \<Rightarrow> 'r \<Rightarrow> 'r \<times> bool" where
  "decode_body lim fs b r =
     (case first_value lim b of None \<Rightarrow> (r, False) | Some v \<Rightarrow> decode_struct fs v r)"

text \<open>Unmarshal of a whole document.\<close>

definition unmarshal_struct :: "'r field list \<Rightarrow> string \<Rightarrow> 'r \<Rightarrow> 'r \<times> bool" where
  "unmarshal_struct fs s r =
     (case parse_json s of None \<Rightarrow> (r, False) | Some v \<Rightarrow> decode_struct fs v r)"

end
