(* ===== verification/Cryptox.thy ===== *)
theory Cryptox
  imports Server GoCrypto GoStruct
begin

text \<open>
  internal/cryptox: the cipher of the upstream keys and the hashes of secrets. Random bytes come
  from a source that is part of the state; crypto/rand.Read of the Go version of go.mod always
  fills its slice (or ends the process), so that drawing cannot fail.
\<close>

section \<open>Random bytes\<close>

record chance = server +
  ch_random :: "nat \<Rightarrow> char"
  ch_drawn :: nat

definition draw :: "nat \<Rightarrow> ('z chance_scheme, string) state" where
  "draw n = State (\<lambda>s. (map (ch_random s) [ch_drawn s..<ch_drawn s + n], s\<lparr>ch_drawn := ch_drawn s + n\<rparr>))"

lemma run_draw [run_simps]:
  "run_state (draw n) s = (map (ch_random s) [ch_drawn s..<ch_drawn s + n], s\<lparr>ch_drawn := ch_drawn s + n\<rparr>)"
  by (simp add: draw_def)

section \<open>The cipher\<close>

text \<open>A cipher is its AES key.\<close>

definition cipher_new :: "string \<Rightarrow> string option" where
  "cipher_new k = (if length k \<in> {16, 24, 32} then Some k else None)"

definition nonce_size :: nat where
  "nonce_size = 12"

definition encrypt :: "string \<Rightarrow> string \<Rightarrow> ('z chance_scheme, string) state" where
  "encrypt k plain = do {
     nonce \<leftarrow> draw nonce_size;
     State_Monad.return (nonce @ gcm_seal k nonce plain) }"

definition decrypt :: "string \<Rightarrow> string \<Rightarrow> string + string" where
  "decrypt k c =
     (if length c < nonce_size then Inl ''ciphertext is too short''
      else case gcm_open k (take nonce_size c) (drop nonce_size c) of
          None \<Rightarrow> Inl ''cipher: message authentication failed''
        | Some plain \<Rightarrow> Inr plain)"

definition fingerprint :: "string \<Rightarrow> string" where
  "fingerprint secret = hex_encode (take 6 (sha256 secret))"

definition token_hash :: "string \<Rightarrow> string" where
  "token_hash token = hex_encode (sha256 token)"

lemma length_fingerprint [simp]: "length (fingerprint s) = 12"
  by (simp add: fingerprint_def)

lemma decrypt_encrypt:
  assumes "length k = 32" "run_state (encrypt k plain) s = (c, t)"
  shows "decrypt k c = Inr plain"
proof -
  obtain nonce where "c = nonce @ gcm_seal k nonce plain" "length nonce = 12"
    using assms(2) by (auto simp: encrypt_def run_simps nonce_size_def)
  with assms(1) show ?thesis by (simp add: decrypt_def nonce_size_def gcm_open_seal)
qed

end
