(* ===== verification/GoJsonRound.thy ===== *)
theory GoJsonRound
  imports GoStruct
begin

text \<open>
  What MarshalIndent has written, Unmarshal reads back: for the strings of valid UTF-8, the
  integers, and the documents made of them.
\<close>

section \<open>Strings\<close>

function utf8_ok :: "string \<Rightarrow> bool" where
  "utf8_ok [] \<longleftrightarrow> True"
| "utf8_ok (c # s) \<longleftrightarrow> utf8_len c s \<noteq> 0 \<and> utf8_ok (drop (utf8_len c s - 1) s)"
  by pat_completeness auto
termination
  by (relation "measure length") auto

lemma utf8_len_prefix:
  assumes "utf8_len c s \<noteq> 0"
  shows "utf8_len c (take (utf8_len c s - 1) s @ u) = utf8_len c s \<and> utf8_len c s - 1 \<le> length s"
proof (cases "c < CHR 0x80")
  case False
  note wide = False
  with assms obtain d s2 where s: "s = d # s2" by (cases s) (auto simp: utf8_len_def)
  show ?thesis
  proof (cases "CHR 0xC2 \<le> c \<and> c \<le> CHR 0xDF")
    case True
    with wide assms show ?thesis by (simp only: s utf8_len_def) (simp split: if_split_asm)
  next
    case False
    note no2 = False
    with wide assms s obtain e s3 where s2: "s2 = e # s3" by (cases s2) (auto simp: utf8_len_def)
    show ?thesis
    proof (cases "CHR 0xE0 \<le> c \<and> c \<le> CHR 0xEF")
      case True
      define good where "good \<longleftrightarrow> cont d \<and> cont e \<and> (c = CHR 0xE0 \<longrightarrow> CHR 0xA0 \<le> d) \<and> (c = CHR 0xED \<longrightarrow> d \<le> CHR 0x9F)"
      have "utf8_len c (d # e # v) = (if good then 3 else 0)" for v
        by (simp only: utf8_len_def list.case wide no2 True if_False if_True good_def simp_thms)
      with assms show ?thesis by (simp add: s s2 split: if_split_asm)
    next
      case False
      with wide no2 assms s s2 obtain f s4 where s3: "s3 = f # s4" by (cases s3) (auto simp: utf8_len_def)
      define good where "good \<longleftrightarrow> CHR 0xF0 \<le> c \<and> c \<le> CHR 0xF4 \<and> cont d \<and> cont e \<and> cont f \<and>
        (c = CHR 0xF0 \<longrightarrow> CHR 0x90 \<le> d) \<and> (c = CHR 0xF4 \<longrightarrow> d \<le> CHR 0x8F)"
      have "utf8_len c (d # e # f # v) = (if good then 4 else 0)" for v
        by (simp only: utf8_len_def list.case wide no2 False if_False if_True good_def simp_thms)
      with assms show ?thesis by (simp add: s s2 s3 split: if_split_asm)
    qed
  qed
qed (simp add: utf8_len_def)

lemma utf8_len_same:
  assumes "utf8_len c s \<noteq> 0"
  shows "utf8_len c (take (utf8_len c s - 1) s @ u) = utf8_len c s"
    "length (take (utf8_len c s - 1) s) = utf8_len c s - 1"
  using utf8_len_prefix [OF assms] by auto

lemma utf8_len_ascii: "c < CHR 0x80 \<Longrightarrow> utf8_len c s = 1"
  by (simp add: utf8_len_def)

lemma parse_str_raw:
  assumes "\<not> c < CHR 0x80" "utf8_len c s \<noteq> 0"
  shows "parse_str (c # take (utf8_len c s - 1) s @ u) =
    map_option (map_prod ((@) (c # take (utf8_len c s - 1) s)) id) (parse_str u)"
proof -
  have "c \<noteq> dquote" "\<not> c < CHR 0x20" "c \<noteq> backslash"
    using assms(1) by (auto simp: dquote_def backslash_def less_char_def)
  then have "parse_str (c # w @ u) =
      (let n = utf8_len c (w @ u) in
        map_option (map_prod ((@) (if n = 0 then utf8_bad else c # take (n - 1) (w @ u))) id)
          (parse_str (drop (n - 1) (w @ u))))" for w
    by (subst parse_str.simps) simp
  moreover have "take (utf8_len c s - 1) (take (utf8_len c s - 1) s @ u) = take (utf8_len c s - 1) s"
    "drop (utf8_len c s - 1) (take (utf8_len c s - 1) s @ u) = u"
    using utf8_len_same(2) [OF assms(2)] by simp_all
  ultimately show ?thesis
    using assms(2) by (simp only: utf8_len_same(1) [OF assms(2)] Let_def if_False)
qed

lemma hex_val_zero: "hex_val (CHR ''0'') = Some 0"
  by (simp add: hex_val_def is_digit_def digit_val_def)

lemma parse_str_unicode:
  "parse_str (backslash # CHR ''u'' # v) =
     (case unicode_escape v of
        None \<Rightarrow> None
      | Some (n, t) \<Rightarrow> map_option (map_prod ((@) (utf8_enc n)) id) (parse_str t))"
  by (subst parse_str.simps) (simp add: dquote_def backslash_def less_char_def)

lemma unicode_escape_byte:
  assumes "c < CHR 0x80"
  shows "unicode_escape (CHR ''0'' # CHR ''0'' # hex_digit (of_char c div 16) # hex_digit (of_char c mod 16) # t) =
    Some (of_char c, t)" (is "unicode_escape ?v = _")
proof -
  have "hex_val (hex_digit (of_char c div 16)) = Some (of_char c div 16)"
    "hex_val (hex_digit (of_char c mod 16)) = Some (of_char c mod 16)"
    using byte_range [of c] by (simp_all add: hex_val_digit)
  then have "hex_digits 4 0 ?v = Some (of_char c)"
    by (simp add: numeral_eq_Suc hex_val_zero)
  moreover have "(of_char c :: int) < 0xD800" using byte_range [of c] by simp
  ultimately show ?thesis by (simp add: unicode_escape_def Let_def)
qed

lemma utf8_enc_byte: "c < CHR 0x80 \<Longrightarrow> utf8_enc (of_char c) = [c]"
  by (simp add: utf8_enc_def less_char_def of_char_int byte_def)

lemma parse_str_escape_char:
  assumes "c < CHR 0x80"
  shows "parse_str (escape_char c @ u) = map_option (map_prod ((#) c) id) (parse_str u)"
proof -
  have short: "parse_str (backslash # e # u) = map_option (map_prod ((#) x) id) (parse_str u)"
    if "escape_val e = Some x" "e \<noteq> CHR ''u''" for e x
    using that by (subst parse_str.simps) (simp add: dquote_def backslash_def less_char_def)
  have vals: "escape_val dquote = Some dquote" "escape_val backslash = Some backslash"
    "escape_val (CHR ''b'') = Some (CHR 0x08)" "escape_val (CHR ''f'') = Some (CHR 0x0C)"
    "escape_val (CHR ''n'') = Some (CHR 0x0A)" "escape_val (CHR ''r'') = Some (CHR 0x0D)"
    "escape_val (CHR ''t'') = Some (CHR 0x09)"
    by (simp_all add: escape_val_def dquote_def backslash_def)
  have cons: "(@) [c] = (#) c" by (simp add: fun_eq_iff)
  consider "c \<in> {dquote, backslash, CHR 0x08, CHR 0x0C, CHR 0x0A, CHR 0x0D, CHR 0x09}"
    | "c \<notin> {dquote, backslash, CHR 0x08, CHR 0x0C, CHR 0x0A, CHR 0x0D, CHR 0x09}"
      "c < CHR 0x20 \<or> c \<in> {CHR ''<'', CHR ''>'', CHR ''&''}"
    | "c \<notin> {dquote, backslash}" "\<not> c < CHR 0x20" "c \<notin> {CHR ''<'', CHR ''>'', CHR ''&''}"
    by blast
  then show ?thesis
  proof cases
    case 1
    then show ?thesis
      by (elim insertE emptyE) (simp_all add: escape_char_def short [unfolded backslash_def] vals [unfolded dquote_def backslash_def]
          dquote_def backslash_def)
  next
    case 2
    then have "escape_char c = backslash # ''u00'' @ [hex_digit (of_char c div 16), hex_digit (of_char c mod 16)]"
      by (auto simp: escape_char_def)
    then have "parse_str (escape_char c @ u) = map_option (map_prod ((@) [c]) id) (parse_str u)"
      by (simp only: append.simps parse_str_unicode unicode_escape_byte [OF assms] option.case prod.case
          utf8_enc_byte [OF assms])
    then show ?thesis by (simp only: cons)
  next
    case 3
    have "x < CHR 0x20" if "x \<in> {CHR 0x08, CHR 0x0C, CHR 0x0A, CHR 0x0D, CHR 0x09}" for x
      using that by (elim insertE emptyE) simp_all
    with 3(2) have "c \<notin> {CHR 0x08, CHR 0x0C, CHR 0x0A, CHR 0x0D, CHR 0x09}" by blast
    with 3 have "escape_char c = [c]" by (simp add: escape_char_def)
    moreover have "parse_str (c # u) = map_option (map_prod ((@) [c]) id) (parse_str u)"
      using 3 assms by (subst parse_str.simps) (simp add: utf8_len_ascii)
    ultimately show ?thesis by (simp add: cons)
  qed
qed

lemma parse_str_separator:
  "parse_str (backslash # ''u2028'' @ u) = map_option (map_prod ((@) [CHR 0xE2, CHR 0x80, CHR 0xA8]) id) (parse_str u)"
  "parse_str (backslash # ''u2029'' @ u) = map_option (map_prod ((@) [CHR 0xE2, CHR 0x80, CHR 0xA9]) id) (parse_str u)"
proof -
  have v: "hex_val (CHR ''2'') = Some 2" "hex_val (CHR ''8'') = Some 8" "hex_val (CHR ''9'') = Some 9"
    by (simp_all add: hex_val_def is_digit_def digit_val_def)
  then have "unicode_escape (''2028'' @ u) = Some (0x2028, u)" "unicode_escape (''2029'' @ u) = Some (0x2029, u)"
    by (simp_all add: unicode_escape_def Let_def numeral_eq_Suc hex_val_zero)
  moreover have "utf8_enc 0x2028 = [CHR 0xE2, CHR 0x80, CHR 0xA8]" "utf8_enc 0x2029 = [CHR 0xE2, CHR 0x80, CHR 0xA9]"
    by (simp_all add: utf8_enc_def byte_def) (simp_all add: char_of_eq)
  ultimately show
    "parse_str (backslash # ''u2028'' @ u) = map_option (map_prod ((@) [CHR 0xE2, CHR 0x80, CHR 0xA8]) id) (parse_str u)"
    "parse_str (backslash # ''u2029'' @ u) = map_option (map_prod ((@) [CHR 0xE2, CHR 0x80, CHR 0xA9]) id) (parse_str u)"
    by (simp_all add: parse_str_unicode)
qed

lemma utf8_len_separator: "prefix [CHR 0x80, x] s \<Longrightarrow> cont x \<Longrightarrow> utf8_len (CHR 0xE2) s = 3"
  by (auto simp: prefix_def utf8_len_def cont_def)

lemma parse_str_escape:
  "utf8_ok s \<Longrightarrow> parse_str (escape_str s @ dquote # t) = Some (s, t)"
proof (induction s rule: utf8_ok.induct)
  case 1
  show ?case by (subst parse_str.simps) simp
next
  case (2 c s)
  let ?n = "utf8_len c s"
  have n: "?n \<noteq> 0" and IH: "parse_str (escape_str (drop (?n - 1) s) @ dquote # t) = Some (drop (?n - 1) s, t)"
    using 2 by auto
  show ?case
  proof (cases "c < CHR 0x80")
    case True
    then have "?n = 1" "\<not> c = CHR 0xE2" by (auto simp: utf8_len_ascii less_char_def)
    with True IH show ?thesis by (simp add: parse_str_escape_char)
  next
    case wide: False
    consider "c = CHR 0xE2 \<and> prefix [CHR 0x80, CHR 0xA8] s" | "c = CHR 0xE2 \<and> prefix [CHR 0x80, CHR 0xA9] s"
      | "\<not> (c = CHR 0xE2 \<and> prefix [CHR 0x80, CHR 0xA8] s)" "\<not> (c = CHR 0xE2 \<and> prefix [CHR 0x80, CHR 0xA9] s)" by blast
    then show ?thesis
    proof cases
      case 1
      moreover from 1 have "?n = 3" by (auto intro: utf8_len_separator simp: cont_def)
      ultimately show ?thesis
        using IH n parse_str_separator(1) by (auto simp: prefix_def)
    next
      case 2
      moreover from 2 have "?n = 3" by (auto intro: utf8_len_separator simp: cont_def)
      ultimately show ?thesis
        using IH n parse_str_separator(2) by (auto simp: prefix_def)
    next
      case 3
      then have "escape_str (c # s) = c # take (?n - 1) s @ escape_str (drop (?n - 1) s)"
        using n wide by (simp only: escape_str.simps if_False)
      then show ?thesis
        using parse_str_raw [OF wide n, of "escape_str (drop (?n - 1) s) @ dquote # t"] IH by simp
    qed
  qed
qed

section \<open>Numbers\<close>

definition int_lit :: "string \<Rightarrow> bool" where
  "int_lit lit \<longleftrightarrow>
     (let ds = (if prefix ''-'' lit then drop 1 lit else lit)
      in all_digits ds \<and> (hd ds = CHR ''0'' \<longrightarrow> ds = ''0''))"

definition num_ends :: "string \<Rightarrow> bool" where
  "num_ends t \<longleftrightarrow> (case t of [] \<Rightarrow> True | c # _ \<Rightarrow> \<not> is_digit c \<and> c \<notin> {CHR ''.'', CHR ''e'', CHR ''E''})"

lemma digit_not_minus: "is_digit c \<Longrightarrow> c \<noteq> CHR ''-''"
  by (auto simp: is_digit_def less_eq_char_def)

lemma takeWhile_digits:
  "list_all is_digit ds \<Longrightarrow> num_ends t \<Longrightarrow> takeWhile is_digit (ds @ t) = ds"
  by (induction ds) (auto simp: num_ends_def split: list.splits)

lemma int_part:
  assumes "all_digits ds" "hd ds = CHR ''0'' \<longrightarrow> ds = ''0''" "num_ends t"
  shows "(case ds @ t of c # u \<Rightarrow> if c = CHR ''0'' then [c] else takeWhile is_digit (ds @ t) | [] \<Rightarrow> []) = ds"
  using assms takeWhile_digits [of ds t] by (cases ds) (auto simp: all_digits_def)

lemma parse_num_int:
  assumes "int_lit lit" "num_ends t"
  shows "parse_num (lit @ t) = Some (lit, t)"
proof -
  have digits: "parse_num (sg @ ds @ t) = Some (sg @ ds, t)"
    if "all_digits ds" "hd ds = CHR ''0'' \<longrightarrow> ds = ''0''" "sg = [] \<or> sg = ''-''" for sg ds
  proof -
    have minus: "(case sg @ ds @ t of [] \<Rightarrow> ([], sg @ ds @ t)
          | c # v \<Rightarrow> if c = CHR ''-'' then ([c], v) else ([], sg @ ds @ t)) = (sg, ds @ t)"
      using that digit_not_minus by (cases ds) (auto simp: all_digits_def)
    have nonempty: "ds \<noteq> []" using that(1) by (simp add: all_digits_def)
    have rest: "drop (length ds) (ds @ t) = t" by simp
    show ?thesis
      using assms(2) nonempty unfolding parse_num_def Let_def minus prod.case int_part [OF that(1,2) assms(2)] rest
      by (cases t) (simp_all add: num_ends_def)
  qed
  show ?thesis
  proof (cases "prefix ''-'' lit")
    case True
    then obtain ds where "lit = CHR ''-'' # ds" by (auto simp: prefix_def)
    with assms(1) digits [of ds "''-''"] show ?thesis by (simp add: int_lit_def Let_def)
  next
    case False
    with assms(1) digits [of lit "[]"] show ?thesis by (simp add: int_lit_def Let_def)
  qed
qed

lemma dec_small: "n < 10 \<Longrightarrow> dec n = [digit n]"
  by (subst dec.simps) simp

lemma dec_big: "\<not> n < 10 \<Longrightarrow> dec n = dec (n div 10) @ [digit (n mod 10)]"
  by (subst dec.simps) simp

lemma digit_zero: "0 \<le> n \<Longrightarrow> n \<le> 9 \<Longrightarrow> digit n = CHR ''0'' \<longleftrightarrow> n = 0"
proof -
  have z: "CHR ''0'' = digit 0" using char_of_eq [of 48 "CHR ''0''"] by (simp add: digit_def)
  assume "0 \<le> n" "n \<le> 9"
  then show ?thesis unfolding z using digit_less [of 0 n] by (cases "n = 0") auto
qed

lemma dec_digits:
  "0 \<le> n \<Longrightarrow> list_all is_digit (dec n) \<and> dec n \<noteq> [] \<and> digits_val 0 (dec n) = n \<and>
     (hd (dec n) = CHR ''0'' \<longrightarrow> n = 0)"
proof (induction n rule: dec.induct)
  case (1 n)
  show ?case
  proof (cases "n < 10")
    case True
    with 1 show ?thesis by (simp add: dec_small digit_val_digit digit_zero)
  next
    case False
    with 1 have IH: "list_all is_digit (dec (n div 10))" "dec (n div 10) \<noteq> []" "digits_val 0 (dec (n div 10)) = n div 10"
      "hd (dec (n div 10)) = CHR ''0'' \<longrightarrow> n div 10 = 0" by simp_all
    from False have "n div 10 \<noteq> 0" by simp
    moreover have "digit_val (digit (n mod 10)) = n mod 10" "is_digit (digit (n mod 10))"
      using digit_val_digit [of "n mod 10"] by simp_all
    ultimately show ?thesis using False IH by (simp add: dec_big digits_val_append)
  qed
qed

lemma dec_zero: "dec 0 = ''0''"
  using char_of_eq [of 48 "CHR ''0''"] by (simp add: dec_small digit_def)

lemma minus_not_dec: "0 \<le> n \<Longrightarrow> \<not> prefix ''-'' (dec n)"
  using dec_digits [of n] digit_not_minus by (cases "dec n") auto

lemma int_lit_text: "int_lit (int_text n)"
proof (cases "n < 0")
  case True
  then have "int_text n = CHR ''-'' # dec (- n)" by (simp add: int_text_def)
  with True dec_digits [of "- n"] show ?thesis by (auto simp: int_lit_def all_digits_def)
next
  case False
  then have "int_text n = dec n" by (simp add: int_text_def)
  with False dec_digits [of n] minus_not_dec [of n] dec_zero show ?thesis
    by (auto simp: int_lit_def all_digits_def)
qed

lemma atoi_int_text: "in_int64 n \<Longrightarrow> atoi (int_text n) = Some n"
proof (cases "n < 0")
  case True
  assume "in_int64 n"
  with True dec_digits [of "- n"] show ?thesis by (simp add: int_text_def atoi_def all_digits_def)
next
  case False
  assume "in_int64 n"
  from False obtain c t where ct: "dec n = c # t" "is_digit c" using dec_digits [of n] by (cases "dec n") auto
  then have "c \<noteq> CHR ''-''" "c \<noteq> CHR ''+''" by (auto simp: is_digit_def less_eq_char_def)
  with False ct dec_digits [of n] \<open>in_int64 n\<close> show ?thesis
    by (simp add: int_text_def atoi_def all_digits_def)
qed

section \<open>Documents\<close>

text \<open>A document of valid strings and integers, nested less deep than d.\<close>

fun clean :: "nat \<Rightarrow> json \<Rightarrow> bool" where
  "clean d JNull \<longleftrightarrow> True"
| "clean d (JBool b) \<longleftrightarrow> True"
| "clean d (JNum lit) \<longleftrightarrow> int_lit lit"
| "clean d (JStr s) \<longleftrightarrow> utf8_ok s"
| "clean d (JArr vs) \<longleftrightarrow> 0 < d \<and> list_all (clean (d - 1)) vs"
| "clean d (JObj kvs) \<longleftrightarrow> 0 < d \<and> list_all (\<lambda>kv. utf8_ok (fst kv) \<and> clean (d - 1) (snd kv)) kvs"

text \<open>The units of fuel the parser takes.\<close>

fun fuel :: "json \<Rightarrow> nat" where
  "fuel (JArr vs) = Suc (sum_list (map (\<lambda>v. Suc (fuel v)) vs))"
| "fuel (JObj kvs) = Suc (sum_list (map (\<lambda>kv. Suc (fuel (snd kv))) kvs))"
| "fuel v = 1"

definition blank :: "string \<Rightarrow> bool" where
  "blank w \<longleftrightarrow> list_all json_ws w"

lemma skip_blank: "blank w \<Longrightarrow> skip_ws (w @ s) = skip_ws s"
  by (induction w) (auto simp: blank_def skip_ws_def)

lemma blank_new_line [simp]: "blank (new_line n)"
  by (simp add: blank_def new_line_def json_ws_def list_all_iff)

lemma num_ends_new_line [simp]: "num_ends (new_line n @ s)"
  by (simp add: num_ends_def new_line_def is_digit_def)

lemma skip_ws_new_line [simp]: "skip_ws (new_line n @ s) = skip_ws s"
  by (rule skip_blank) simp

lemma parse_value_blank: "blank w \<Longrightarrow> parse_value (Suc n) d (w @ s) = parse_value (Suc n) d s"
  by (simp add: skip_blank)

text \<open>What a document begins with: no blank, and no closing bracket.\<close>

definition opens :: "string \<Rightarrow> bool" where
  "opens s \<longleftrightarrow> (case s of [] \<Rightarrow> False | c # _ \<Rightarrow> \<not> json_ws c \<and> c \<noteq> CHR '']'' \<and> c \<noteq> CHR 0x7D)"

lemma opens_skip: "opens s \<Longrightarrow> skip_ws (s @ t) = s @ t"
  by (cases s) (auto simp: opens_def skip_ws_def)

lemma int_lit_head:
  assumes "int_lit lit"
  obtains c r where "lit = c # r" "c = CHR ''-'' \<or> is_digit c"
proof (cases lit)
  case (Cons c r)
  with assms have "c = CHR ''-'' \<or> is_digit c"
    by (cases "c = CHR ''-''") (simp_all add: int_lit_def all_digits_def)
  with Cons that show ?thesis by blast
qed (use assms in \<open>simp add: int_lit_def all_digits_def Let_def\<close>)

lemma opens_digit: "c = CHR ''-'' \<or> is_digit c \<Longrightarrow> opens (c # r)"
  by (auto simp: opens_def json_ws_def is_digit_def less_eq_char_def)

lemma opens_quote: "opens (quote s)"
  by (simp add: quote_def opens_def json_ws_def dquote_def)

lemma opens_char: "\<not> json_ws c \<Longrightarrow> c \<noteq> CHR '']'' \<Longrightarrow> c \<noteq> CHR 0x7D \<Longrightarrow> opens (c # s)"
  by (simp add: opens_def)

lemma opens_marks:
  "opens (CHR ''['' # s)" "opens (CHR 0x7B # s)" "opens (CHR ''n'' # s)" "opens (CHR ''t'' # s)" "opens (CHR ''f'' # s)"
  by (rule opens_char; simp add: json_ws_def)+

lemma opens_pretty:
  assumes "clean d v"
  shows "opens (pretty k v)"
proof (cases v)
  case (JNum lit)
  with assms have "int_lit lit" by simp
  then obtain c r where "lit = c # r" "c = CHR ''-'' \<or> is_digit c" by (rule int_lit_head)
  with JNum opens_digit show ?thesis by (simp only: pretty.simps)
next
  case (JArr vs)
  then show ?thesis by (cases "vs = []") (simp_all add: opens_marks)
next
  case (JObj kvs)
  then show ?thesis by (cases "kvs = []") (simp_all add: opens_marks)
qed (simp_all add: opens_quote opens_marks)

definition reads :: "json \<Rightarrow> bool" where
  "reads v \<longleftrightarrow> (\<forall>n d k t. clean d v \<longrightarrow> fuel v \<le> n \<longrightarrow> num_ends t \<longrightarrow>
     parse_value n d (pretty k v @ t) = Some (v, t))"

lemma readsD:
  "reads v \<Longrightarrow> clean d v \<Longrightarrow> fuel v \<le> n \<Longrightarrow> num_ends t \<Longrightarrow> blank w \<Longrightarrow>
     parse_value n d (w @ pretty k v @ t) = Some (v, t)"
proof -
  assume "reads v" "clean d v" "fuel v \<le> n" "num_ends t" "blank w"
  moreover from this have "n \<noteq> 0" by (cases v) auto
  ultimately show ?thesis unfolding reads_def by (cases n) (auto simp del: parse_value.simps simp: parse_value_blank)
qed

lemma num_ends_marks [simp]:
  "num_ends (CHR '','' # s)" "num_ends (CHR '']'' # s)" "num_ends (CHR 0x7D # s)" "num_ends []"
  by (simp_all add: num_ends_def is_digit_def)

lemma skip_marks [simp]:
  "skip_ws (CHR '','' # s) = CHR '','' # s" "skip_ws (CHR '']'' # s) = CHR '']'' # s"
  "skip_ws (CHR 0x7D # s) = CHR 0x7D # s" "skip_ws (CHR '':'' # s) = CHR '':'' # s"
  "skip_ws (dquote # s) = dquote # s"
  by (simp_all add: skip_ws_def json_ws_def dquote_def)

lemma parse_elems_pretty:
  assumes "\<forall>v \<in> set vs. reads v" "vs \<noteq> []" "list_all (clean d) vs" "sum_list (map (\<lambda>v. Suc (fuel v)) vs) \<le> n"
  shows "parse_elems n d (new_line k @ join ('','' @ new_line k) (map (pretty k) vs) @ new_line m @ CHR '']'' # t) =
    Some (vs, t)"
  using assms
proof (induction vs arbitrary: n)
  case (Cons v vs)
  then obtain n' where n: "n = Suc n'" "fuel v \<le> n'" "sum_list (map (\<lambda>v. Suc (fuel v)) vs) \<le> n'"
    by (cases n) auto
  have v: "parse_value n' d (new_line k @ pretty k v @ u) = Some (v, u)" if "num_ends u" for u
    using Cons.prems n that by (intro readsD) simp_all
  show ?case
  proof (cases "vs = []")
    case True
    then show ?thesis using v [of "new_line m @ CHR '']'' # t"] by (simp add: n(1) join_cons)
  next
    case False
    with Cons n have "parse_elems n' d (new_line k @ join ('','' @ new_line k) (map (pretty k) vs) @ new_line m @ CHR '']'' # t)
      = Some (vs, t)" by simp
    with False show ?thesis
      using v [of "CHR '','' # new_line k @ join ('','' @ new_line k) (map (pretty k) vs) @ new_line m @ CHR '']'' # t"]
      by (simp add: n(1) join_cons)
  qed
qed simp

lemma parse_members_pretty:
  assumes "\<forall>kv \<in> set kvs. reads (snd kv)" "kvs \<noteq> []"
    "list_all (\<lambda>kv. utf8_ok (fst kv) \<and> clean d (snd kv)) kvs"
    "sum_list (map (\<lambda>kv. Suc (fuel (snd kv))) kvs) \<le> n"
  shows "parse_members n d (new_line k
      @ join ('','' @ new_line k) (map (\<lambda>kv. quote (fst kv) @ '': '' @ pretty k (snd kv)) kvs)
      @ new_line m @ CHR 0x7D # t) = Some (kvs, t)"
  using assms
proof (induction kvs arbitrary: n)
  case (Cons kv kvs)
  obtain a v where kv: "kv = (a, v)" by (cases kv)
  from Cons kv obtain n' where n: "n = Suc n'" "fuel v \<le> n'" "sum_list (map (\<lambda>kv. Suc (fuel (snd kv))) kvs) \<le> n'"
    by (cases n) auto
  have v: "parse_value n' d (CHR '' '' # pretty k v @ u) = Some (v, u)" if "num_ends u" for u
    using readsD [of v d n' u "'' ''" k] Cons.prems n kv that by (simp add: blank_def json_ws_def)
  have name: "parse_str (escape_str a @ dquote # u) = Some (a, u)" for u
    using Cons.prems kv by (simp add: parse_str_escape)
  show ?case
  proof (cases "kvs = []")
    case True
    then show ?thesis using v [of "new_line m @ CHR 0x7D # t"] name
      by (simp add: n(1) join_cons kv quote_def)
  next
    case False
    let ?rest = "new_line k @ join ('','' @ new_line k) (map (\<lambda>kv. quote (fst kv) @ '': '' @ pretty k (snd kv)) kvs)
        @ new_line m @ CHR 0x7D # t"
    from False Cons n have "parse_members n' d ?rest = Some (kvs, t)" by simp
    with False show ?thesis using v [of "CHR '','' # ?rest"] name
      by (simp add: n(1) join_cons kv quote_def)
  qed
qed simp

lemma reads_all: "reads v"
proof (induction v)
  case (JNum lit)
  show ?case unfolding reads_def
  proof (intro allI impI)
    fix n d k t assume a: "clean d (JNum lit)" "fuel (JNum lit) \<le> n" "num_ends t"
    then obtain n' where n: "n = Suc n'" by (cases n) auto
    from a have lit: "int_lit lit" by simp
    from int_lit_head [OF lit] obtain c r where c: "lit = c # r" "c = CHR ''-'' \<or> is_digit c" .
    then have "skip_ws (lit @ t) = lit @ t" using opens_skip opens_digit by blast
    moreover have "c \<notin> {dquote, CHR ''['', CHR 0x7B, CHR ''n'', CHR ''t'', CHR ''f''}"
      using c(2) by (auto simp: is_digit_def less_eq_char_def dquote_def)
    ultimately show "parse_value n d (pretty k (JNum lit) @ t) = Some (JNum lit, t)"
      using parse_num_int [OF lit a(3)] by (simp add: n c(1)) blast
  qed
next
  case (JStr s)
  show ?case unfolding reads_def
  proof (intro allI impI)
    fix n d k t assume a: "clean d (JStr s)" "fuel (JStr s) \<le> n" "num_ends t"
    then obtain n' where n: "n = Suc n'" by (cases n) auto
    show "parse_value n d (pretty k (JStr s) @ t) = Some (JStr s, t)"
      using a parse_str_escape [of s t] by (simp add: n quote_def)
  qed
next
  case (JArr vs)
  show ?case unfolding reads_def
  proof (intro allI impI)
    fix n d k t assume a: "clean d (JArr vs)" "fuel (JArr vs) \<le> n" "num_ends t"
    then obtain n' where n: "n = Suc n'" by (cases n) auto
    show "parse_value n d (pretty k (JArr vs) @ t) = Some (JArr vs, t)"
    proof (cases "vs = []")
      case True
      with a n show ?thesis by (simp add: skip_ws_def json_ws_def dquote_def)
    next
      case False
      let ?body = "new_line (k + 1) @ join ('','' @ new_line (k + 1)) (map (pretty (k + 1)) vs) @ new_line k @ CHR '']'' # t"
      from False a have "clean (d - 1) (hd vs)" by (cases vs) auto
      then have "opens (pretty (k + 1) (hd vs))" by (rule opens_pretty)
      then have "\<not> prefix [CHR '']''] (skip_ws ?body)"
        using False by (cases vs) (auto simp: join_cons opens_skip opens_def split: list.splits)
      moreover have "parse_elems n' (d - 1) ?body = Some (vs, t)"
        using a n False JArr by (intro parse_elems_pretty) auto
      moreover have "pretty k (JArr vs) @ t = CHR ''['' # ?body" using False by simp
      ultimately show ?thesis
        using a n False by (simp only: parse_value.simps n) (simp add: skip_ws_def json_ws_def dquote_def)
    qed
  qed
next
  case (JObj kvs)
  show ?case unfolding reads_def
  proof (intro allI impI)
    fix n d k t assume a: "clean d (JObj kvs)" "fuel (JObj kvs) \<le> n" "num_ends t"
    then obtain n' where n: "n = Suc n'" by (cases n) auto
    show "parse_value n d (pretty k (JObj kvs) @ t) = Some (JObj kvs, t)"
    proof (cases "kvs = []")
      case True
      with a n show ?thesis by (simp add: skip_ws_def json_ws_def dquote_def)
    next
      case False
      let ?body = "new_line (k + 1)
        @ join ('','' @ new_line (k + 1)) (map (\<lambda>kv. quote (fst kv) @ '': '' @ pretty (k + 1) (snd kv)) kvs)
        @ new_line k @ CHR 0x7D # t"
      have "\<not> prefix [CHR 0x7D] (skip_ws ?body)"
        using False by (cases kvs) (auto simp: join_cons quote_def, simp_all add: dquote_def)
      moreover have "parse_members n' (d - 1) ?body = Some (kvs, t)"
        using a n False JObj by (intro parse_members_pretty) (auto simp: snds.simps)
      moreover have "pretty k (JObj kvs) @ t = CHR 0x7B # ?body" using False by simp
      ultimately show ?thesis
        using a n False by (simp only: parse_value.simps n) (simp add: skip_ws_def json_ws_def dquote_def)
    qed
  qed
qed (auto simp: reads_def skip_ws_def json_ws_def dquote_def gr0_conv_Suc Suc_le_eq)

text \<open>The fuel and the depth that Unmarshal has are enough.\<close>

lemma sum_join_le:
  "(\<And>v. v \<in> set vs \<Longrightarrow> g v \<le> length (f v)) \<Longrightarrow> vs \<noteq> [] \<Longrightarrow>
     sum_list (map (\<lambda>v. Suc (g v)) vs) \<le> Suc (length (join (c # w) (map f vs)))"
proof (induction vs)
  case (Cons v vs)
  show ?case
  proof (cases "vs = []")
    case True
    with Cons.prems(1) [of v] show ?thesis by (simp add: join_cons)
  next
    case False
    with Cons.IH Cons.prems(1) have "sum_list (map (\<lambda>v. Suc (g v)) vs) \<le> Suc (length (join (c # w) (map f vs)))"
      by simp
    with False Cons.prems(1) [of v] show ?thesis by (simp add: join_cons)
  qed
qed simp

lemma fuel_length: "clean d v \<Longrightarrow> fuel v \<le> length (pretty k v)"
proof (induction v arbitrary: d k)
  case (JNum lit)
  then show ?case by (cases lit) (simp_all add: int_lit_def all_digits_def)
next
  case (JArr vs)
  then have "fuel v \<le> length (pretty (k + 1) v)" if "v \<in> set vs" for v
    using that by (auto simp: list_all_iff)
  from sum_join_le [of vs fuel, OF this, of "CHR '',''" "new_line (k + 1)"] show ?case
    by (cases "vs = []") simp_all
next
  case (JObj kvs)
  have "fuel (snd kv) \<le> length (quote (fst kv) @ '': '' @ pretty (k + 1) (snd kv))" if "kv \<in> set kvs" for kv
  proof -
    have "fuel (snd kv) \<le> length (pretty (k + 1) (snd kv))"
      using JObj.IH [of kv "snd kv" "d - 1"] JObj.prems that by (cases kv) (auto simp: list_all_iff)
    then show ?thesis by simp
  qed
  from sum_join_le [of kvs "\<lambda>kv. fuel (snd kv)", OF this, of "CHR '',''" "new_line (k + 1)"] show ?case
    by (cases "kvs = []") simp_all
qed (simp_all add: quote_def)

theorem parse_pretty:
  assumes "clean max_depth v"
  shows "parse_json (pretty k v) = Some v"
proof -
  have "parse_value (Suc (length (pretty k v))) max_depth (pretty k v @ []) = Some (v, [])"
    using readsD [OF reads_all assms, of "Suc (length (pretty k v))" "[]" "[]" k] fuel_length [OF assms, of k]
    by (simp add: blank_def del: parse_value.simps)
  then show ?thesis by (simp add: parse_json_def skip_ws_def del: parse_value.simps)
qed

declare utf8_ok.simps(2) [simp del]

end
