(* ===== verification/Identity.thy ===== *)
theory Identity
  imports Cryptox GoJsonRound
begin

text \<open>
  internal/identity/manager.go: the access key, the client tokens and the file that keeps them.
  The manager's memory, the file and the random source are the state; Argon2 is a parameter (its
  package is not part of the repository). A nil dereference is the error \<open>Panicked\<close>.
\<close>

section \<open>Data\<close>

record token_state =
  ts_id :: string
  ts_name :: string
  ts_hash :: string
  ts_created :: time

record disk_state =
  ds_version :: int
  ds_master :: string
  ds_admin :: string
  ds_proxy :: string
  ds_unified :: bool
  ds_tokens :: "token_state list"
  ds_created :: time
  ds_updated :: time

record secrets =
  sc_access :: string
  sc_recovery :: string

record client_token =
  ct_id :: string
  ct_name :: string
  ct_created :: time

record principal =
  pp_id :: string
  pp_name :: string
  pp_kind :: string

definition master_principal :: principal where
  "master_principal = \<lparr>pp_id = ''master'', pp_name = master_name, pp_kind = ''master''\<rparr>"

definition client_of :: "token_state \<Rightarrow> client_token" where
  "client_of c = \<lparr>ct_id = ts_id c, ct_name = ts_name c, ct_created = ts_created c\<rparr>"

definition principal_of :: "token_state \<Rightarrow> principal" where
  "principal_of c = \<lparr>pp_id = ts_id c, pp_name = ts_name c, pp_kind = ''client''\<rparr>"

datatype identity_error =
    AlreadyInitialized
  | SetupRequired
  | LegacyIncomplete
  | BadDocument
  | BadMasterKey
  | BadKeySize
  | TokenLimit
  | KeyLength
  | NameLength
  | NotExist
  | BadTime
  | DiskFault
  | Panicked

section \<open>The identity file\<close>

text \<open>The file at the manager's path and a temporary one beside it, with contents and permissions.\<close>

record disk_file =
  fl_data :: string
  fl_mode :: int

record disk =
  dk_file :: "disk_file option"
  dk_temp :: "disk_file option"

record vault = chance +
  vt_disk :: disk
  vt_state :: "disk_state option"
  vt_cipher :: "string option"

type_synonym ('z, 'a) manager = "('z vault_scheme, identity_error + 'a) state"

definition private_mode :: int where
  "private_mode = 384"

subsection \<open>The document\<close>

definition token_json :: "token_state \<Rightarrow> json" where
  "token_json c = JObj
     [(''id'', JStr (ts_id c)), (''name'', JStr (ts_name c)), (''token_hash'', JStr (ts_hash c)),
      (''created_at'', json_time (ts_created c))]"

definition state_json :: "disk_state \<Rightarrow> json" where
  "state_json st = JObj
     ([(''version'', json_int (ds_version st)), (''master_key'', JStr (ds_master st)),
       (''admin_password_hash'', JStr (ds_admin st)), (''proxy_token_hash'', JStr (ds_proxy st))]
      @ omit_empty ''unified_access'' (\<not> ds_unified st) (JBool (ds_unified st))
      @ omit_empty ''client_tokens'' (ds_tokens st = []) (JArr (map token_json (ds_tokens st)))
      @ [(''created_at'', json_time (ds_created st)), (''updated_at'', json_time (ds_updated st))])"

text \<open>MarshalIndent; a time whose year has no four digits is an error.\<close>

definition times_ok :: "disk_state \<Rightarrow> bool" where
  "times_ok st \<longleftrightarrow>
     text_year (ds_created st) \<and> text_year (ds_updated st) \<and>
     list_all (\<lambda>c. text_year (ts_created c)) (ds_tokens st)"

definition document :: "disk_state \<Rightarrow> string option" where
  "document st = (if times_ok st then Some (pretty 0 (state_json st)) else None)"

definition zero_token :: token_state where
  "zero_token = \<lparr>ts_id = [], ts_name = [], ts_hash = [], ts_created = zero_time\<rparr>"

definition token_fields :: "token_state field list" where
  "token_fields =
     [(''id'', fd_str (\<lambda>v r. r\<lparr>ts_id := v\<rparr>)), (''name'', fd_str (\<lambda>v r. r\<lparr>ts_name := v\<rparr>)),
      (''token_hash'', fd_str (\<lambda>v r. r\<lparr>ts_hash := v\<rparr>)), (''created_at'', fd_time (\<lambda>v r. r\<lparr>ts_created := v\<rparr>))]"

definition zero_state :: disk_state where
  "zero_state = \<lparr>ds_version = 0, ds_master = [], ds_admin = [], ds_proxy = [], ds_unified = False,
     ds_tokens = [], ds_created = zero_time, ds_updated = zero_time\<rparr>"

definition state_fields :: "disk_state field list" where
  "state_fields =
     [(''version'', fd_int (\<lambda>v r. r\<lparr>ds_version := v\<rparr>)), (''master_key'', fd_str (\<lambda>v r. r\<lparr>ds_master := v\<rparr>)),
      (''admin_password_hash'', fd_str (\<lambda>v r. r\<lparr>ds_admin := v\<rparr>)),
      (''proxy_token_hash'', fd_str (\<lambda>v r. r\<lparr>ds_proxy := v\<rparr>)),
      (''unified_access'', fd_bool (\<lambda>v r. r\<lparr>ds_unified := v\<rparr>)),
      (''client_tokens'', fd_list zero_token (decode_struct token_fields) (\<lambda>v r. r\<lparr>ds_tokens := v\<rparr>)),
      (''created_at'', fd_time (\<lambda>v r. r\<lparr>ds_created := v\<rparr>)),
      (''updated_at'', fd_time (\<lambda>v r. r\<lparr>ds_updated := v\<rparr>))]"

text \<open>Unmarshal into the pointer m.state: null leaves it nil.\<close>

definition read_document :: "string \<Rightarrow> disk_state option option" where
  "read_document s =
     (case parse_json s of
        None \<Rightarrow> None
      | Some JNull \<Rightarrow> Some None
      | Some v \<Rightarrow> (case decode_struct state_fields v zero_state of (st, good) \<Rightarrow> if good then Some (Some st) else None))"

subsection \<open>Writing it\<close>

text \<open>
  The steps of persistLocked on the disk, in their order: a new temporary file, its permissions,
  its contents, Sync and Close, the rename onto the path, the permissions of the file. Each of
  them can fail, and none is taken after one that has failed; the temporary file is removed at the
  end.
\<close>

definition set_file :: "disk_file option \<Rightarrow> disk \<Rightarrow> disk" where
  "set_file f d = d\<lparr>dk_file := f\<rparr>"

definition set_temp :: "disk_file option \<Rightarrow> disk \<Rightarrow> disk" where
  "set_temp f d = d\<lparr>dk_temp := f\<rparr>"

definition write_steps :: "string \<Rightarrow> (disk \<Rightarrow> disk) list" where
  "write_steps data =
     [set_temp (Some \<lparr>fl_data = [], fl_mode = private_mode\<rparr>),
      (\<lambda>d. set_temp (map_option (\<lambda>f. f\<lparr>fl_mode := private_mode\<rparr>) (dk_temp d)) d),
      (\<lambda>d. set_temp (map_option (\<lambda>f. f\<lparr>fl_data := data\<rparr>) (dk_temp d)) d),
      id, id,
      (\<lambda>d. set_temp None (set_file (dk_temp d) d)),
      (\<lambda>d. set_file (map_option (\<lambda>f. f\<lparr>fl_mode := private_mode\<rparr>) (dk_file d)) d)]"

definition disk_do :: "(disk \<Rightarrow> disk) \<Rightarrow> ('z vault_scheme, unit) state" where
  "disk_do f = modify (\<lambda>s. s\<lparr>vt_disk := f (vt_disk s)\<rparr>)"

fun run_steps :: "(disk \<Rightarrow> disk) list \<Rightarrow> ('z, unit) manager" where
  "run_steps [] = ok ()"
| "run_steps (f # fs) = do {
     bad \<leftarrow> fault;
     if bad then fail DiskFault else do { disk_do f; run_steps fs } }"

definition persist :: "disk_state \<Rightarrow> ('z, unit) manager" where
  "persist st =
     try_bind (run_steps [id]) (\<lambda>_.
       case document st of
         None \<Rightarrow> fail BadTime
       | Some data \<Rightarrow> do {
           r \<leftarrow> run_steps (write_steps data);
           disk_do (set_temp None);
           State_Monad.return r })"

section \<open>Passwords\<close>

text \<open>argon2.IDKey: password, salt, iterations, memory, parallelism, length of the key.\<close>

type_synonym kdf = "string \<Rightarrow> string \<Rightarrow> int \<Rightarrow> int \<Rightarrow> int \<Rightarrow> int \<Rightarrow> string"

definition argon_version :: int where
  "argon_version = 19"

definition hash_text :: "kdf \<Rightarrow> string \<Rightarrow> string \<Rightarrow> string" where
  "hash_text kdf password salt =
     ''$argon2id$v='' @ int_text argon_version @ ''$m=65536,t=3,p=1$'' @ b64_encode False False salt @ ''$''
     @ b64_encode False False (kdf password salt 3 65536 1 32)"

definition hash_password :: "kdf \<Rightarrow> string \<Rightarrow> ('z chance_scheme, string) state" where
  "hash_password kdf password = do { salt \<leftarrow> draw 16; State_Monad.return (hash_text kdf password salt) }"

text \<open>Sscanf with the format v=%d: the blanks before the number are skipped, what follows it is not read.\<close>

definition scan_version :: "string \<Rightarrow> int option" where
  "scan_version s =
     (if \<not> prefix ''v='' s then None
      else
        let r = drop 2 s; t = trim_left r; skipped = take (length r - length t) r;
            sg = (case t of c # _ \<Rightarrow> if c = CHR ''+'' \<or> c = CHR ''-'' then [c] else [] | [] \<Rightarrow> []);
            ds = takeWhile is_digit (drop (length sg) t)
        in if CHR 0x0A \<in> set skipped then None else atoi (sg @ ds))"

definition parse_uint :: "nat \<Rightarrow> string \<Rightarrow> int option" where
  "parse_uint bits s = (if all_digits s \<and> digits_val 0 s < 2 ^ bits then Some (digits_val 0 s) else None)"

definition verify_password :: "kdf \<Rightarrow> string \<Rightarrow> string \<Rightarrow> bool" where
  "verify_password kdf password encoded =
     (case split_on (CHR ''$'') encoded of
        [_, alg, ver, par, salt64, hash64] \<Rightarrow>
          alg = ''argon2id'' \<and> scan_version ver = Some argon_version \<and>
          (case split_on (CHR '','') par of
             [m, t, p] \<Rightarrow>
               (case (parse_uint 32 (trim_prefix m ''m=''), parse_uint 32 (trim_prefix t ''t=''),
                      parse_uint 8 (trim_prefix p ''p=''), b64_decode False False salt64,
                      b64_decode False False hash64) of
                  (Some mem, Some iter, Some par, Some salt, Some want) \<Rightarrow>
                    want \<noteq> [] \<and> kdf password salt iter mem par (int (length want)) = want
                | _ \<Rightarrow> False)
           | _ \<Rightarrow> False)
      | _ \<Rightarrow> False)"

end
