(* ===== verification/Manager.thy ===== *)
theory Manager
  imports Identity
begin

text \<open>
  The operations of the identity manager. Each runs under its mutex, so that operations follow one
  another; an operation that could not save the file restores what it had changed in memory.
\<close>

section \<open>Opening\<close>

text \<open>loadCipher\<close>

definition load_cipher :: "disk_state \<Rightarrow> identity_error + string" where
  "load_cipher st =
     (case b64_decode False True (ds_master st) of
        None \<Rightarrow> Inl BadMasterKey
      | Some k \<Rightarrow> if length k \<noteq> 32 then Inl BadMasterKey
                  else case cipher_new k of None \<Rightarrow> Inl BadKeySize | Some c \<Rightarrow> Inr c)"

definition install :: "disk_state option \<Rightarrow> string option \<Rightarrow> ('z vault_scheme, unit) state" where
  "install st c = modify (\<lambda>s. s\<lparr>vt_state := st, vt_cipher := c\<rparr>)"

definition open_document :: "string \<Rightarrow> ('z, unit) manager" where
  "open_document s =
     (case read_document s of
        None \<Rightarrow> fail BadDocument
      | Some None \<Rightarrow> fail Panicked
      | Some (Some st) \<Rightarrow>
          (case load_cipher st of
             Inl e \<Rightarrow> fail e
           | Inr c \<Rightarrow> do { install (Some st) (Some c); ok () }))"

definition fresh_state :: "string \<Rightarrow> string \<Rightarrow> string \<Rightarrow> bool \<Rightarrow> time \<Rightarrow> disk_state" where
  "fresh_state master admin proxy unified t =
     \<lparr>ds_version = 1, ds_master = b64_encode False True master, ds_admin = admin,
      ds_proxy = token_hash proxy, ds_unified = unified, ds_tokens = [], ds_created = t, ds_updated = t\<rparr>"

definition open_legacy :: "kdf \<Rightarrow> string \<Rightarrow> string \<Rightarrow> string \<Rightarrow> ('z, unit) manager" where
  "open_legacy kdf master admin token =
     (if master = [] \<and> admin = [] \<and> token = [] then ok ()
      else if length master \<noteq> 32 \<or> admin = [] \<or> token = [] then fail LegacyIncomplete
      else do {
        h \<leftarrow> hash_password kdf admin;
        t \<leftarrow> now;
        let st = fresh_state master h token (admin = token) t;
        case load_cipher st of
          Inl e \<Rightarrow> fail e
        | Inr c \<Rightarrow> do { install (Some st) (Some c); persist st } })"

definition open_manager :: "kdf \<Rightarrow> string \<Rightarrow> string \<Rightarrow> string \<Rightarrow> ('z, unit) manager" where
  "open_manager kdf master admin token = do {
     install None None;
     bad \<leftarrow> fault;
     d \<leftarrow> gets vt_disk;
     if bad then fail DiskFault
     else case dk_file d of
         Some f \<Rightarrow> open_document (fl_data f)
       | None \<Rightarrow> open_legacy kdf master admin token }"

section \<open>Setting up\<close>

definition initialized :: "'z vault_scheme \<Rightarrow> bool" where
  "initialized s \<longleftrightarrow> vt_state s \<noteq> None \<and> vt_cipher s \<noteq> None"

definition access_key_of :: "string \<Rightarrow> string" where
  "access_key_of raw = ''opm_'' @ b64_encode True False raw"

definition finish_setup :: "string \<Rightarrow> string \<Rightarrow> disk_state \<Rightarrow> ('z, secrets) manager" where
  "finish_setup master access st =
     (case cipher_new master of
        None \<Rightarrow> fail BadKeySize
      | Some c \<Rightarrow> do {
          install (Some st) (Some c);
          r \<leftarrow> persist st;
          case r of
            Inl e \<Rightarrow> do { install None None; fail e }
          | Inr _ \<Rightarrow> ok \<lparr>sc_access = access, sc_recovery = ds_master st\<rparr> })"

definition initialize :: "kdf \<Rightarrow> ('z, secrets) manager" where
  "initialize kdf = do {
     old \<leftarrow> gets vt_state;
     if old \<noteq> None then fail AlreadyInitialized
     else do {
       master \<leftarrow> draw 32;
       raw \<leftarrow> draw 32;
       let access = access_key_of raw;
       h \<leftarrow> hash_password kdf access;
       t \<leftarrow> now;
       finish_setup master access (fresh_state master h access True t) } }"

section \<open>Checking\<close>

definition verify_admin :: "kdf \<Rightarrow> string \<Rightarrow> 'z vault_scheme \<Rightarrow> bool" where
  "verify_admin kdf password s =
     (case vt_state s of None \<Rightarrow> False | Some st \<Rightarrow> verify_password kdf password (ds_admin st))"

definition hash_matches :: "string \<Rightarrow> string \<Rightarrow> bool" where
  "hash_matches got encoded \<longleftrightarrow> hex_decode encoded = Some got"

definition client_principal :: "string \<Rightarrow> token_state list \<Rightarrow> principal option" where
  "client_principal got cs = map_option principal_of (find (\<lambda>c. hash_matches got (ts_hash c)) cs)"

definition authenticate :: "disk_state \<Rightarrow> string \<Rightarrow> principal option" where
  "authenticate st token =
     (let got = sha256 token in
      if hash_matches got (ds_proxy st) then Some master_principal
      else client_principal got (ds_tokens st))"

definition authenticate_proxy :: "string \<Rightarrow> 'z vault_scheme \<Rightarrow> principal option" where
  "authenticate_proxy token s = (case vt_state s of None \<Rightarrow> None | Some st \<Rightarrow> authenticate st token)"

definition verify_proxy :: "string \<Rightarrow> 'z vault_scheme \<Rightarrow> bool" where
  "verify_proxy token s \<longleftrightarrow> authenticate_proxy token s \<noteq> None"

definition setup_text :: string where
  "setup_text = ''instance setup is required''"

definition vault_encrypt :: "string \<Rightarrow> ('z vault_scheme, string + string) state" where
  "vault_encrypt plain = do {
     c \<leftarrow> gets vt_cipher;
     case c of
       None \<Rightarrow> State_Monad.return (Inl setup_text)
     | Some k \<Rightarrow> do { e \<leftarrow> encrypt k plain; State_Monad.return (Inr e) } }"

definition vault_decrypt :: "string \<Rightarrow> 'z vault_scheme \<Rightarrow> string + string" where
  "vault_decrypt c s = (case vt_cipher s of None \<Rightarrow> Inl setup_text | Some k \<Rightarrow> decrypt k c)"

section \<open>Changing the keys and tokens\<close>

definition with_state :: "(disk_state \<Rightarrow> ('z, 'a) manager) \<Rightarrow> ('z, 'a) manager" where
  "with_state f = do {
     s \<leftarrow> gets vt_state;
     case s of None \<Rightarrow> fail SetupRequired | Some st \<Rightarrow> f st }"

definition put_state :: "disk_state \<Rightarrow> ('z vault_scheme, unit) state" where
  "put_state st = modify (\<lambda>s. s\<lparr>vt_state := Some st\<rparr>)"

text \<open>A new state: kept when it is saved, taken back when it cannot be.\<close>

definition save :: "disk_state \<Rightarrow> disk_state \<Rightarrow> 'a \<Rightarrow> ('z, 'a) manager" where
  "save old st v = do {
     put_state st;
     r \<leftarrow> persist st;
     case r of Inl e \<Rightarrow> do { put_state old; fail e } | Inr _ \<Rightarrow> ok v }"

definition key_length_ok :: "string \<Rightarrow> bool" where
  "key_length_ok s \<longleftrightarrow> 16 \<le> rune_count s \<and> rune_count s \<le> 256"

definition requested_key :: "string \<Rightarrow> ('z chance_scheme, string) state" where
  "requested_key s =
     (if trim_space s = [] then do { raw \<leftarrow> draw 32; State_Monad.return (access_key_of raw) }
      else State_Monad.return (trim_space s))"

definition rotate_access_key :: "kdf \<Rightarrow> string \<Rightarrow> ('z, string) manager" where
  "rotate_access_key kdf requested = with_state (\<lambda>st. do {
     k \<leftarrow> requested_key requested;
     if \<not> key_length_ok k then fail KeyLength
     else do {
       h \<leftarrow> hash_password kdf k;
       t \<leftarrow> now;
       save st (st\<lparr>ds_admin := h, ds_proxy := token_hash k, ds_unified := True, ds_updated := t\<rparr>) k } })"

definition unified_access :: "'z vault_scheme \<Rightarrow> bool" where
  "unified_access s = (case vt_state s of None \<Rightarrow> False | Some st \<Rightarrow> ds_unified st)"

definition max_tokens :: nat where
  "max_tokens = 100"

text \<open>The first n runes of a text as a text again.\<close>

fun rune_take :: "nat \<Rightarrow> string \<Rightarrow> string" where
  "rune_take 0 s = []"
| "rune_take (Suc n) [] = []"
| "rune_take (Suc n) (c # s) =
     (let k = utf8_len c s
      in (if k = 0 then utf8_bad else c # take (k - 1) s) @ rune_take n (drop (k - 1) s))"

definition client_name :: "string \<Rightarrow> string" where
  "client_name name =
     (let n = (if trim_space name = [] then ''OpenCode client'' else trim_space name)
      in if 80 < rune_count n then rune_take 80 n else n)"

definition client_token_text :: "string \<Rightarrow> string" where
  "client_token_text raw = ''opc_'' @ b64_encode True False raw"

definition new_token :: "string \<Rightarrow> string \<Rightarrow> string \<Rightarrow> time \<Rightarrow> token_state" where
  "new_token name token i t =
     \<lparr>ts_id = hex_encode i, ts_name = client_name name, ts_hash = token_hash token, ts_created = t\<rparr>"

definition issue_client_token :: "string \<Rightarrow> ('z, client_token \<times> string) manager" where
  "issue_client_token name = with_state (\<lambda>st.
     if max_tokens \<le> length (ds_tokens st) then fail TokenLimit
     else do {
       raw \<leftarrow> draw 32;
       i \<leftarrow> draw 12;
       let token = client_token_text raw;
       t \<leftarrow> now;
       let c = new_token name token i t;
       save st (st\<lparr>ds_tokens := ds_tokens st @ [c], ds_updated := t\<rparr>) (client_of c, token) })"

definition list_client_tokens :: "'z vault_scheme \<Rightarrow> client_token list" where
  "list_client_tokens s = (case vt_state s of None \<Rightarrow> [] | Some st \<Rightarrow> map client_of (ds_tokens st))"

text \<open>The first token with an id, replaced or taken out.\<close>

fun map_first :: "('a \<Rightarrow> bool) \<Rightarrow> ('a \<Rightarrow> 'a list) \<Rightarrow> 'a list \<Rightarrow> 'a list" where
  "map_first P f [] = []"
| "map_first P f (x # xs) = (if P x then f x @ xs else x # map_first P f xs)"

definition rename_client_token :: "string \<Rightarrow> string \<Rightarrow> ('z, client_token) manager" where
  "rename_client_token i name =
     (let n = trim_space name in
      if n = [] \<or> 80 < rune_count n then fail NameLength
      else do {
        s \<leftarrow> gets vt_state;
        case s of
          None \<Rightarrow> fail Panicked
        | Some st \<Rightarrow>
            (case find (\<lambda>c. ts_id c = i) (ds_tokens st) of
               None \<Rightarrow> fail NotExist
             | Some c \<Rightarrow> do {
                 t \<leftarrow> now;
                 save st (st\<lparr>ds_tokens := map_first (\<lambda>c. ts_id c = i) (\<lambda>c. [c\<lparr>ts_name := n\<rparr>]) (ds_tokens st),
                             ds_updated := t\<rparr>)
                   (client_of (c\<lparr>ts_name := n\<rparr>)) }) })"

definition revoke_client_token :: "string \<Rightarrow> ('z, unit) manager" where
  "revoke_client_token i = with_state (\<lambda>st.
     if find (\<lambda>c. ts_id c = i) (ds_tokens st) = None then fail NotExist
     else do {
       t \<leftarrow> now;
       save st (st\<lparr>ds_tokens := map_first (\<lambda>c. ts_id c = i) (\<lambda>_. []) (ds_tokens st), ds_updated := t\<rparr>) () })"

end
