(* ===== verification/IdentityFile.thy ===== *)
theory IdentityFile
  imports Manager
begin

text \<open>
  The identity file: a document is read back as the state it was written from, a crash between two
  steps of writing it leaves the old file or the new one, and a password is accepted by the hash
  made of it.
\<close>

section \<open>ASCII texts\<close>

definition ascii :: "string \<Rightarrow> bool" where
  "ascii s \<longleftrightarrow> list_all (\<lambda>c. c < CHR 0x80) s"

lemma ascii_simps [simp]:
  "ascii []" "ascii (c # s) \<longleftrightarrow> c < CHR 0x80 \<and> ascii s" "ascii (s @ t) \<longleftrightarrow> ascii s \<and> ascii t"
  by (auto simp: ascii_def)

lemma utf8_ok_ascii: "ascii s \<Longrightarrow> utf8_ok s"
  by (induction s) (simp_all add: utf8_len_ascii utf8_ok.simps)

lemma ascii_set: "(\<And>c. c \<in> set s \<Longrightarrow> c < CHR 0x80) \<Longrightarrow> ascii s"
  by (simp add: ascii_def list_all_iff)

lemma hex_digit_ascii: "0 \<le> n \<Longrightarrow> n < 16 \<Longrightarrow> hex_digit n < CHR 0x80"
  by (auto simp: hex_digit_def digit_def less_char_def)

lemma ascii_hex [simp]: "ascii (hex_encode s)"
proof (induction s)
  case (Cons c s)
  have "hex_digit (of_char c div 16) < CHR 0x80" "hex_digit (of_char c mod 16) < CHR 0x80"
    using byte_range [of c] by (simp_all add: hex_digit_ascii)
  with Cons show ?case by simp
qed simp

lemma ascii_b64 [simp]: "ascii (b64_encode url pad s)"
proof (rule ascii_set)
  have "list_all (\<lambda>c. c < CHR 0x80) (pad_char # b64_alphabet url)"
    by (simp add: b64_alphabet_def pad_char_def)
  moreover fix c assume "c \<in> set (b64_encode url pad s)"
  ultimately show "c < CHR 0x80" using set_b64_encode [of url pad s] by (auto simp: list_all_iff)
qed

lemma ascii_digit: "0 \<le> n \<Longrightarrow> n \<le> 9 \<Longrightarrow> digit n < CHR 0x80"
  by (simp add: digit_def less_char_def)

lemma ascii_digits: "list_all is_digit s \<Longrightarrow> ascii s"
  by (auto simp: ascii_def list_all_iff is_digit_def less_eq_char_def less_char_def)

section \<open>Reading the document back\<close>

definition token_ok :: "token_state \<Rightarrow> bool" where
  "token_ok c \<longleftrightarrow> utf8_ok (ts_id c) \<and> utf8_ok (ts_name c) \<and> utf8_ok (ts_hash c) \<and> text_year (ts_created c)"

definition state_ok :: "disk_state \<Rightarrow> bool" where
  "state_ok st \<longleftrightarrow>
     in_int64 (ds_version st) \<and> utf8_ok (ds_master st) \<and> utf8_ok (ds_admin st) \<and> utf8_ok (ds_proxy st) \<and>
     list_all token_ok (ds_tokens st) \<and> text_year (ds_created st) \<and> text_year (ds_updated st)"

lemma ascii_pad_dec [simp]: "ascii (pad_dec w n)"
  by (simp add: ascii_digits pad_dec_digits)

lemma ascii_dec [simp]: "0 \<le> n \<Longrightarrow> ascii (dec n)"
  using dec_digits [of n] by (simp add: ascii_digits)

lemma ascii_frac_text: "ascii (frac_text n)"
proof -
  have "c < CHR 0x80" if "c \<in> set (rev (dropWhile (\<lambda>c. c = CHR ''0'') (rev (pad_dec 9 n))))" for c
    using that ascii_pad_dec [of 9 n] by (auto simp: ascii_def list_all_iff dest: set_dropWhileD)
  then have "ascii (rev (dropWhile (\<lambda>c. c = CHR ''0'') (rev (pad_dec 9 n))))" by (rule ascii_set)
  then show ?thesis by (simp add: frac_text_def less_char_def del: rev_rev_ident)
qed

lemma ascii_marks: "CHR ''-'' < CHR 0x80" "CHR '':'' < CHR 0x80" "CHR ''T'' < CHR 0x80" "CHR ''Z'' < CHR 0x80"
  by (simp_all add: less_char_def)

lemma ascii_format_time: "ascii (format_time t)"
  by (simp add: format_time_def year_text_def clock_text_def ascii_frac_text ascii_marks split: prod.split)

lemma last_format_time: "last (format_time t) = CHR ''Z''"
  by (simp add: format_time_def split: prod.split)

lemma strict_format_time: "text_year t \<Longrightarrow> parse_strict (format_time t) = Some t"
proof -
  assume t: "text_year t"
  let ?s = "format_time t"
  have "drop (length ?s - 6) ?s \<noteq> x" if "last x = CHR ''0''" "x \<noteq> []" for x
  proof
    assume x: "drop (length ?s - 6) ?s = x"
    with that(2) have "last x = last ?s" by (metis drop_eq_Nil last_drop not_le)
    with that(1) last_format_time [of t] show False by simp
  qed
  then show ?thesis using parse_format_time [OF t] by (simp add: parse_strict_def)
qed

lemma utf8_ok_names:
  "utf8_ok ''id''" "utf8_ok ''name''" "utf8_ok ''token_hash''" "utf8_ok ''created_at''" "utf8_ok ''version''"
  "utf8_ok ''master_key''" "utf8_ok ''admin_password_hash''" "utf8_ok ''proxy_token_hash''"
  "utf8_ok ''unified_access''" "utf8_ok ''client_tokens''" "utf8_ok ''updated_at''"
  by (rule utf8_ok_ascii; simp add: less_char_def)+

lemma clean_token: "token_ok c \<Longrightarrow> clean (Suc d) (token_json c)"
  by (simp add: token_json_def token_ok_def utf8_ok_names json_time_def utf8_ok_ascii ascii_format_time)

lemma clean_state: "state_ok st \<Longrightarrow> clean (Suc (Suc (Suc d))) (state_json st)"
  by (auto simp: state_json_def state_ok_def utf8_ok_names json_time_def utf8_ok_ascii ascii_format_time
      omit_empty_def json_int_def int_lit_text clean_token list_all_iff)

lemma token_field:
  "find_field token_fields ''id'' = Some (''id'', fd_str (\<lambda>v r. r\<lparr>ts_id := v\<rparr>))"
  "find_field token_fields ''name'' = Some (''name'', fd_str (\<lambda>v r. r\<lparr>ts_name := v\<rparr>))"
  "find_field token_fields ''token_hash'' = Some (''token_hash'', fd_str (\<lambda>v r. r\<lparr>ts_hash := v\<rparr>))"
  "find_field token_fields ''created_at'' = Some (''created_at'', fd_time (\<lambda>v r. r\<lparr>ts_created := v\<rparr>))"
  by (simp_all add: find_field_def token_fields_def)

lemma decode_token: "token_ok c \<Longrightarrow> decode_struct token_fields (token_json c) zero_token = (c, True)"
  by (cases c) (simp add: token_ok_def decode_struct_def token_json_def token_field fd_str_def fd_time_def
      json_time_def strict_format_time zero_token_def)

lemma decode_tokens:
  "list_all token_ok cs \<Longrightarrow> fd_elems zero_token (decode_struct token_fields) (map token_json cs) = (cs, True)"
  by (induction cs) (simp_all add: decode_token)

lemma state_field:
  "find_field state_fields ''version'' = Some (''version'', fd_int (\<lambda>v r. r\<lparr>ds_version := v\<rparr>))"
  "find_field state_fields ''master_key'' = Some (''master_key'', fd_str (\<lambda>v r. r\<lparr>ds_master := v\<rparr>))"
  "find_field state_fields ''admin_password_hash'' = Some (''admin_password_hash'', fd_str (\<lambda>v r. r\<lparr>ds_admin := v\<rparr>))"
  "find_field state_fields ''proxy_token_hash'' = Some (''proxy_token_hash'', fd_str (\<lambda>v r. r\<lparr>ds_proxy := v\<rparr>))"
  "find_field state_fields ''unified_access'' = Some (''unified_access'', fd_bool (\<lambda>v r. r\<lparr>ds_unified := v\<rparr>))"
  "find_field state_fields ''client_tokens'' = Some (''client_tokens'',
     fd_list zero_token (decode_struct token_fields) (\<lambda>v r. r\<lparr>ds_tokens := v\<rparr>))"
  "find_field state_fields ''created_at'' = Some (''created_at'', fd_time (\<lambda>v r. r\<lparr>ds_created := v\<rparr>))"
  "find_field state_fields ''updated_at'' = Some (''updated_at'', fd_time (\<lambda>v r. r\<lparr>ds_updated := v\<rparr>))"
  by (simp_all add: find_field_def state_fields_def)

lemma decode_state: "state_ok st \<Longrightarrow> decode_struct state_fields (state_json st) zero_state = (st, True)"
  by (cases st) (auto simp: state_ok_def decode_struct_def state_json_def state_field fd_str_def fd_time_def
      fd_int_def fd_bool_def fd_list_def json_time_def json_int_def strict_format_time zero_state_def
      omit_empty_def atoi_int_text decode_tokens)

lemma read_document_json: "state_ok st \<Longrightarrow> read_document (pretty 0 (state_json st)) = Some (Some st)"
proof -
  assume st: "state_ok st"
  then have "clean max_depth (state_json st)"
    using clean_state [OF st, of 9997] by (simp add: max_depth_def numeral_eq_Suc)
  then have "parse_json (pretty 0 (state_json st)) = Some (state_json st)" by (rule parse_pretty)
  then show ?thesis
    using decode_state [OF st] by (simp add: read_document_def) (simp add: state_json_def)
qed

section \<open>Password hashes\<close>

lemma split_on_part: "c \<notin> set a \<Longrightarrow> split_on c (a @ c # b) = a # split_on c b"
  by (induction a) auto

lemma split_on_whole: "c \<notin> set a \<Longrightarrow> split_on c a = [a]"
  by (induction a) auto

lemma version_text: "int_text argon_version = ''19''"
  by (simp add: argon_version_def int_text_def dec_big dec_small digit_def char_of_eq)

lemma hash_text_parts:
  "split_on (CHR ''$'') (hash_text kdf password salt) =
     [[], ''argon2id'', ''v=19'', ''m=65536,t=3,p=1'', b64_encode False False salt,
      b64_encode False False (kdf password salt 3 65536 1 32)]"
proof -
  have "hash_text kdf password salt = [] @ CHR ''$'' # ''argon2id'' @ CHR ''$'' # ''v=19'' @ CHR ''$''
      # ''m=65536,t=3,p=1'' @ CHR ''$'' # b64_encode False False salt @ CHR ''$''
      # b64_encode False False (kdf password salt 3 65536 1 32)"
    by (simp add: hash_text_def version_text)
  then show ?thesis
    using b64_no_dollar by (simp only: split_on_part split_on_whole list.set) (simp add: split_on_part split_on_whole)
qed

lemma scan_version_19: "scan_version ''v=19'' = Some 19"
  by code_simp

lemma uint_params:
  "parse_uint 32 (trim_prefix ''m=65536'' ''m='') = Some 65536" "parse_uint 32 (trim_prefix ''t=3'' ''t='') = Some 3"
  "parse_uint 8 (trim_prefix ''p=1'' ''p='') = Some 1"
  by code_simp+

lemma verify_hash_text:
  assumes "length (kdf p salt 3 65536 1 32) = 32"
  shows "verify_password kdf q (hash_text kdf p salt) \<longleftrightarrow> kdf q salt 3 65536 1 32 = kdf p salt 3 65536 1 32"
proof -
  have "split_on (CHR '','') ''m=65536,t=3,p=1'' = [''m=65536'', ''t=3'', ''p=1'']" by simp
  moreover have "kdf p salt 3 65536 1 32 \<noteq> []" using assms by auto
  ultimately show ?thesis
    using assms by (simp add: verify_password_def hash_text_parts scan_version_19 uint_params argon_version_def)
qed

section \<open>Writing the file\<close>

text \<open>The file after some of the steps.\<close>

definition after_steps :: "nat \<Rightarrow> string \<Rightarrow> disk \<Rightarrow> disk" where
  "after_steps n data d = fold (\<lambda>f. f) (take n (write_steps data)) d"

lemma after_steps_file:
  "dk_file (after_steps n data d) =
     (if n < 6 then dk_file d else Some \<lparr>fl_data = data, fl_mode = private_mode\<rparr>)"
proof -
  have "n \<in> {0, 1, 2, 3, 4, 5, 6} \<or> 7 \<le> n" by auto
  then show ?thesis
    by (auto simp: after_steps_def write_steps_def set_file_def set_temp_def numeral_eq_Suc)
qed

text \<open>What writing leaves alone: everything but the disk and the faults still to come.\<close>

definition disk_only :: "'z vault_scheme \<Rightarrow> 'z vault_scheme \<Rightarrow> bool" where
  "disk_only s t \<longleftrightarrow> (\<exists>fs d. t = s\<lparr>h_faults := fs, vt_disk := d\<rparr>)"

lemma disk_only_refl [simp]: "disk_only s s"
  unfolding disk_only_def by (intro exI [of _ "h_faults s"] exI [of _ "vt_disk s"]) simp

lemma disk_only_trans: "disk_only s t \<Longrightarrow> disk_only t u \<Longrightarrow> disk_only s u"
  by (fastforce simp: disk_only_def)

lemma disk_only_simps:
  assumes "disk_only s t"
  shows "vt_state t = vt_state s" "vt_cipher t = vt_cipher s" "ch_random t = ch_random s"
    "ch_drawn t = ch_drawn s" "h_clock t = h_clock s" "h_ticks t = h_ticks s" "h_db t = h_db s"
    "vault.more t = vault.more s"
  using assms by (auto simp: disk_only_def)

lemma disk_only_fault: "run_state fault s = (b, t) \<Longrightarrow> disk_only s t \<and> vt_disk t = vt_disk s"
proof (cases "h_faults s")
  case (Cons c cs)
  assume "run_state fault s = (b, t)"
  with Cons have t: "t = s\<lparr>h_faults := cs, vt_disk := vt_disk s\<rparr>" by (auto simp: run_simps)
  then have "disk_only s t" unfolding disk_only_def by blast
  with t show ?thesis by simp
qed (simp add: run_simps)

lemma disk_only_do: "run_state (disk_do f) s = (u, t) \<Longrightarrow> disk_only s t \<and> vt_disk t = f (vt_disk s)"
proof -
  assume "run_state (disk_do f) s = (u, t)"
  then have t: "t = s\<lparr>h_faults := h_faults s, vt_disk := f (vt_disk s)\<rparr>" by (simp add: disk_do_def)
  then have "disk_only s t" unfolding disk_only_def by blast
  with t show ?thesis by simp
qed

lemma run_steps_effect:
  "run_state (run_steps fs) s = (r, t) \<Longrightarrow>
     disk_only s t \<and> (\<exists>n \<le> length fs. vt_disk t = fold (\<lambda>f. f) (take n fs) (vt_disk s) \<and>
       (r = Inr () \<longrightarrow> n = length fs))"
proof (induction fs arbitrary: s)
  case Nil
  then show ?case by (simp add: ok_def)
next
  case (Cons f fs)
  obtain b u where u: "run_state fault s = (b, u)" by (cases "run_state fault s")
  note du = disk_only_fault [OF u]
  show ?case
  proof (cases b)
    case True
    with Cons.prems u have "r = Inl DiskFault" "t = u" by (simp_all add: run_state_bind fail_def)
    with du show ?thesis by (intro conjI exI [of _ 0]) simp_all
  next
    case False
    obtain x v where v: "run_state (disk_do f) u = (x, v)" by (cases "run_state (disk_do f) u")
    from False Cons.prems u v have "run_state (run_steps fs) v = (r, t)" by (simp add: run_state_bind)
    from Cons.IH [OF this] obtain n where n: "disk_only v t" "n \<le> length fs"
      "vt_disk t = fold (\<lambda>f. f) (take n fs) (vt_disk v)" "r = Inr () \<longrightarrow> n = length fs" by blast
    have "disk_only s t" using du disk_only_do [OF v] n(1) disk_only_trans by blast
    with n du disk_only_do [OF v] show ?thesis by (intro conjI exI [of _ "Suc n"]) simp_all
  qed
qed

definition written :: "disk_state \<Rightarrow> disk_file option \<Rightarrow> bool" where
  "written st f \<longleftrightarrow> (\<exists>data. document st = Some data \<and> f = Some \<lparr>fl_data = data, fl_mode = private_mode\<rparr>)"

lemma persist_effect:
  assumes "run_state (persist st) s = (r, t)"
  shows "disk_only s t" "r = Inr () \<Longrightarrow> written st (dk_file (vt_disk t))"
    "dk_file (vt_disk t) = dk_file (vt_disk s) \<or> written st (dk_file (vt_disk t))"
proof -
  obtain a u where u: "run_state (run_steps [id]) s = (a, u)" by (cases "run_state (run_steps [id]) s")
  have du: "disk_only s u" "vt_disk u = vt_disk s"
    using run_steps_effect [OF u] by (auto simp: take_Cons')
  have "disk_only s t \<and> (r = Inr () \<longrightarrow> written st (dk_file (vt_disk t))) \<and>
    (dk_file (vt_disk t) = dk_file (vt_disk s) \<or> written st (dk_file (vt_disk t)))"
  proof (cases a)
    case (Inl e)
    with assms u have "r = Inl e" "t = u" by (simp_all add: persist_def try_bind_def run_state_bind del: run_steps.simps)
    with du show ?thesis by simp
  next
    case (Inr b)
    show ?thesis
    proof (cases "document st")
      case None
      with Inr assms u have "r = Inl BadTime" "t = u" by (simp_all add: persist_def try_bind_def run_state_bind fail_def del: run_steps.simps)
      with du show ?thesis by simp
    next
      case (Some data)
      obtain c v where v: "run_state (run_steps (write_steps data)) u = (c, v)"
        by (cases "run_state (run_steps (write_steps data)) u")
      obtain x w where w: "run_state (disk_do (set_temp None)) v = (x, w)"
        by (cases "run_state (disk_do (set_temp None)) v")
      from Inr Some assms u v w have rt: "r = c" "t = w"
        by (simp_all add: persist_def try_bind_def run_state_bind del: run_steps.simps)
      from run_steps_effect [OF v] obtain n where n: "disk_only u v" "n \<le> length (write_steps data)"
        "vt_disk v = after_steps n data (vt_disk u)" "c = Inr () \<longrightarrow> n = length (write_steps data)"
        by (auto simp: after_steps_def)
      have "disk_only s t" using du(1) n(1) disk_only_do [OF w] disk_only_trans rt by blast
      moreover have "dk_file (vt_disk t) = dk_file (after_steps n data (vt_disk s))"
        using disk_only_do [OF w] n(3) du(2) rt by (simp add: set_temp_def)
      ultimately show ?thesis
        using n(4) rt Some by (auto simp: after_steps_file written_def write_steps_def)
    qed
  qed
  then show "disk_only s t" "r = Inr () \<Longrightarrow> written st (dk_file (vt_disk t))"
    "dk_file (vt_disk t) = dk_file (vt_disk s) \<or> written st (dk_file (vt_disk t))" by blast+
qed

end
