(* ===== verification/ManagerLaws.thy ===== *)
theory ManagerLaws
  imports IdentityFile
begin

text \<open>
  What every operation of the identity manager does to its memory and its file, and the steps of
  its callers: operations in any order, restarts of the process, and whatever else happens.
\<close>

section \<open>Saving\<close>

lemma save_effect:
  assumes "run_state (save old new v) s = (r, t)" "vt_state s = Some old"
  shows "case r of Inl e \<Rightarrow> vt_state t = Some old
      | Inr w \<Rightarrow> w = v \<and> vt_state t = Some new \<and> written new (dk_file (vt_disk t))"
    "vt_cipher t = vt_cipher s"
    "dk_file (vt_disk t) = dk_file (vt_disk s) \<or> written new (dk_file (vt_disk t))"
proof -
  obtain a u where u: "run_state (persist new) (s\<lparr>vt_state := Some new\<rparr>) = (a, u)"
    by (cases "run_state (persist new) (s\<lparr>vt_state := Some new\<rparr>)")
  note p = persist_effect [OF u]
  have "vt_state u = Some new" "vt_cipher u = vt_cipher s" using disk_only_simps [OF p(1)] by simp_all
  with assms u p(2,3)
  show "case r of Inl e \<Rightarrow> vt_state t = Some old
      | Inr w \<Rightarrow> w = v \<and> vt_state t = Some new \<and> written new (dk_file (vt_disk t))"
    "vt_cipher t = vt_cipher s"
    "dk_file (vt_disk t) = dk_file (vt_disk s) \<or> written new (dk_file (vt_disk t))"
    by (auto simp: save_def put_state_def run_state_bind fail_def ok_def split: sum.splits)
qed

section \<open>The operations as calls\<close>

datatype manager_call =
    CInitialize
  | CRotate string
  | CIssue string
  | CRename string string
  | CRevoke string

definition drop_result :: "('s, 'e + 'a) state \<Rightarrow> ('s, 'e + unit) state" where
  "drop_result m = State_Monad.bind m (\<lambda>r. State_Monad.return (map_sum id (\<lambda>_. ()) r))"

fun run_call :: "kdf \<Rightarrow> manager_call \<Rightarrow> ('z, unit) manager" where
  "run_call kdf CInitialize = drop_result (initialize kdf)"
| "run_call kdf (CRotate k) = drop_result (rotate_access_key kdf k)"
| "run_call kdf (CIssue n) = drop_result (issue_client_token n)"
| "run_call kdf (CRename i n) = drop_result (rename_client_token i n)"
| "run_call kdf (CRevoke i) = revoke_client_token i"

text \<open>Names come out of JSON documents, so that they are valid UTF-8.\<close>

fun names_ok :: "manager_call \<Rightarrow> bool" where
  "names_ok (CIssue n) \<longleftrightarrow> utf8_ok (client_name n)"
| "names_ok (CRename i n) \<longleftrightarrow> utf8_ok (trim_space n)"
| "names_ok c \<longleftrightarrow> True"

lemma drop_result_run:
  assumes "run_state (drop_result m) s = (r, t)"
  obtains q where "run_state m s = (q, t)" "r = map_sum id (\<lambda>_. ()) q"
  using assms by (auto simp: drop_result_def run_state_bind split: prod.splits)

section \<open>The contract of an operation\<close>

text \<open>
  An operation fails and the memory is as before, or it has put a new state into memory and into
  the file, related by R to its result and the old state; the file is the old one or holds a new
  state. The cipher does not change.
\<close>

type_synonym 'a change = "'a \<Rightarrow> disk_state \<Rightarrow> disk_state \<Rightarrow> bool"

definition changes ::
    "'a change \<Rightarrow> disk_state \<Rightarrow> 'z vault_scheme \<Rightarrow> (identity_error + 'a) \<Rightarrow> 'z vault_scheme \<Rightarrow> bool" where
  "changes R old s r t \<longleftrightarrow>
     vt_cipher t = vt_cipher s \<and>
     (case r of
        Inl _ \<Rightarrow> vt_state t = Some old \<and>
          (dk_file (vt_disk t) = dk_file (vt_disk s) \<or> (\<exists>v new. R v old new \<and> written new (dk_file (vt_disk t))))
      | Inr v \<Rightarrow> (\<exists>new. R v old new \<and> vt_state t = Some new \<and> written new (dk_file (vt_disk t))))"

definition effect :: "'a change \<Rightarrow> disk_state \<Rightarrow> ('z, 'a) manager \<Rightarrow> bool" where
  "effect R old m \<longleftrightarrow> (\<forall>s r t. vt_state s = Some old \<longrightarrow> run_state m s = (r, t) \<longrightarrow> changes R old s r t)"

named_theorems effect_intros

lemma effect_save [effect_intros]: "R v old new \<Longrightarrow> effect R old (save old new v)"
  unfolding effect_def
proof (intro allI impI)
  fix s r t assume "R v old new" "vt_state s = Some old" "run_state (save old new v) s = (r, t)"
  with save_effect [OF this(3,2)] show "changes R old s r t" by (auto simp: changes_def split: sum.splits)
qed

lemma effect_fail [effect_intros]: "effect R old (fail e)"
  by (simp add: effect_def changes_def fail_def)

definition same_vault :: "'z vault_scheme \<Rightarrow> 'z vault_scheme \<Rightarrow> bool" where
  "same_vault s t \<longleftrightarrow> vt_state t = vt_state s \<and> vt_cipher t = vt_cipher s \<and> vt_disk t = vt_disk s"

definition quiet :: "('a \<Rightarrow> bool) \<Rightarrow> ('z vault_scheme, 'a) state \<Rightarrow> bool" where
  "quiet P m \<longleftrightarrow> (\<forall>s a t. run_state m s = (a, t) \<longrightarrow> same_vault s t \<and> P a)"

lemma quiet_bind:
  assumes "quiet P m" "run_state (State_Monad.bind m f) s = (r, t)"
  shows "\<exists>a u. P a \<and> same_vault s u \<and> run_state (f a) u = (r, t)"
proof -
  obtain a u where u: "run_state m s = (a, u)" by (cases "run_state m s")
  with assms have "P a" "same_vault s u" "run_state (f a) u = (r, t)"
    by (auto simp: quiet_def run_state_bind)
  then show ?thesis by blast
qed

lemma quiet_draw: "quiet (\<lambda>a. length a = n) (draw n)"
  by (auto simp: quiet_def run_draw same_vault_def)

lemma quiet_now: "quiet (\<lambda>_. True) now"
  by (auto simp: quiet_def run_now same_vault_def)

lemma quiet_hash: "quiet (\<lambda>h. \<exists>salt. h = hash_text kdf k salt) (hash_password kdf k)"
  by (auto simp: quiet_def hash_password_def run_state_bind run_draw same_vault_def)

lemma quiet_requested: "quiet (\<lambda>_. True) (requested_key q)"
  by (auto simp: quiet_def requested_key_def run_state_bind run_draw same_vault_def split: if_splits)

lemma effect_quiet:
  assumes "quiet P m" "\<And>a. P a \<Longrightarrow> effect R old (f a)"
  shows "effect R old (State_Monad.bind m f)"
  unfolding effect_def
proof (intro allI impI)
  fix s r t assume s: "vt_state s = Some old" "run_state (State_Monad.bind m f) s = (r, t)"
  from quiet_bind [OF assms(1) s(2)] obtain a u where u: "P a" "same_vault s u" "run_state (f a) u = (r, t)" by blast
  with s assms(2) have "changes R old u r t" unfolding effect_def same_vault_def by simp
  with u(2) show "changes R old s r t" by (simp add: changes_def same_vault_def split: sum.splits)
qed

lemmas effect_draw [effect_intros] = effect_quiet [OF quiet_draw]
lemmas effect_now [effect_intros] = effect_quiet [OF quiet_now]
lemmas effect_requested [effect_intros] = effect_quiet [OF quiet_requested]

lemma effect_hash [effect_intros]:
  "(\<And>salt. effect R old (f (hash_text kdf k salt))) \<Longrightarrow> effect R old (State_Monad.bind (hash_password kdf k) f)"
  by (rule effect_quiet [OF quiet_hash]) blast

lemma effect_if [effect_intros]:
  "(b \<Longrightarrow> effect R old m) \<Longrightarrow> (\<not> b \<Longrightarrow> effect R old n) \<Longrightarrow> effect R old (if b then m else n)"
  by simp

lemma effect_let [effect_intros]: "effect R old (f x) \<Longrightarrow> effect R old (let a = x in f a)"
  by simp

lemma effect_state:
  assumes "\<And>st. effect R st (f st)" "run_state (with_state f) s = (r, t)"
  shows "case vt_state s of None \<Rightarrow> r = Inl SetupRequired \<and> t = s | Some old \<Rightarrow> changes R old s r t"
  using assms by (auto simp: with_state_def run_state_bind fail_def effect_def split: option.splits)

section \<open>The contracts\<close>

definition rotated :: "kdf \<Rightarrow> string change" where
  "rotated kdf k old new \<longleftrightarrow> key_length_ok k \<and>
     (\<exists>salt t. new = old\<lparr>ds_admin := hash_text kdf k salt, ds_proxy := token_hash k, ds_unified := True, ds_updated := t\<rparr>)"

definition issued :: "string \<Rightarrow> (client_token \<times> string) change" where
  "issued name v old new \<longleftrightarrow> length (ds_tokens old) < max_tokens \<and>
     (\<exists>raw i t. length raw = 32 \<and> length i = 12 \<and> snd v = client_token_text raw \<and>
       fst v = client_of (new_token name (snd v) i t) \<and>
       new = old\<lparr>ds_tokens := ds_tokens old @ [new_token name (snd v) i t], ds_updated := t\<rparr>)"

definition renamed :: "string \<Rightarrow> string \<Rightarrow> client_token change" where
  "renamed i name v old new \<longleftrightarrow>
     trim_space name \<noteq> [] \<and> rune_count (trim_space name) \<le> 80 \<and>
     (\<exists>c t. find (\<lambda>c. ts_id c = i) (ds_tokens old) = Some c \<and> v = client_of (c\<lparr>ts_name := trim_space name\<rparr>) \<and>
       new = old\<lparr>ds_tokens := map_first (\<lambda>c. ts_id c = i) (\<lambda>c. [c\<lparr>ts_name := trim_space name\<rparr>]) (ds_tokens old),
                 ds_updated := t\<rparr>)"

definition revoked :: "string \<Rightarrow> unit change" where
  "revoked i v old new \<longleftrightarrow> find (\<lambda>c. ts_id c = i) (ds_tokens old) \<noteq> None \<and>
     (\<exists>t. new = old\<lparr>ds_tokens := map_first (\<lambda>c. ts_id c = i) (\<lambda>_. []) (ds_tokens old), ds_updated := t\<rparr>)"

lemma rotate_effect:
  assumes "run_state (rotate_access_key kdf q) s = (r, t)"
  shows "case vt_state s of None \<Rightarrow> r = Inl SetupRequired \<and> t = s | Some old \<Rightarrow> changes (rotated kdf) old s r t"
  using assms unfolding rotate_access_key_def
  by (rule effect_state [rotated]) (intro effect_intros, auto simp: rotated_def)

lemma revoke_effect:
  assumes "run_state (revoke_client_token i) s = (r, t)"
  shows "case vt_state s of None \<Rightarrow> r = Inl SetupRequired \<and> t = s | Some old \<Rightarrow> changes (revoked i) old s r t"
  using assms unfolding revoke_client_token_def
  by (rule effect_state [rotated]) (intro effect_intros, auto simp: revoked_def)

lemma issue_effect:
  assumes "run_state (issue_client_token n) s = (r, t)"
  shows "case vt_state s of None \<Rightarrow> r = Inl SetupRequired \<and> t = s | Some old \<Rightarrow> changes (issued n) old s r t"
  using assms unfolding issue_client_token_def
  by (rule effect_state [rotated]) (intro effect_intros, unfold issued_def fst_conv snd_conv not_le, blast+)

lemma rename_effect:
  assumes "run_state (rename_client_token i n) s = (r, t)"
  shows "case vt_state s of None \<Rightarrow> (\<exists>e. r = Inl e) \<and> t = s | Some old \<Rightarrow> changes (renamed i n) old s r t"
proof -
  have eff: "effect (renamed i n) st
      (case find (\<lambda>c. ts_id c = i) (ds_tokens st) of
         None \<Rightarrow> fail NotExist
       | Some c \<Rightarrow> do {
           t \<leftarrow> now;
           save st (st\<lparr>ds_tokens := map_first (\<lambda>c. ts_id c = i) (\<lambda>c. [c\<lparr>ts_name := trim_space n\<rparr>]) (ds_tokens st),
                       ds_updated := t\<rparr>)
             (client_of (c\<lparr>ts_name := trim_space n\<rparr>)) })"
    if "trim_space n \<noteq> []" "\<not> 80 < rune_count (trim_space n)" for st
    using that by (cases "find (\<lambda>c. ts_id c = i) (ds_tokens st)") (auto intro!: effect_intros simp: renamed_def)
  show ?thesis
  proof (cases "trim_space n = [] \<or> 80 < rune_count (trim_space n)")
    case True
    with assms have "r = Inl NameLength" "t = s" by (auto simp: rename_client_token_def fail_def)
    then show ?thesis by (simp add: changes_def split: option.split)
  next
    case False
    show ?thesis
    proof (cases "vt_state s")
      case None
      with False assms show ?thesis by (auto simp: rename_client_token_def run_state_bind fail_def Let_def split: if_splits)
    next
      case (Some st)
      with False assms show ?thesis
        using eff [of st] unfolding effect_def
        by (auto simp: rename_client_token_def run_state_bind Let_def split: if_splits)
    qed
  qed
qed

section \<open>The invariant of memory and file\<close>

text \<open>A file with the document of a state whose master key makes a cipher.\<close>

definition holds_state :: "disk_file option \<Rightarrow> disk_state \<Rightarrow> bool" where
  "holds_state f st \<longleftrightarrow> state_ok st \<and> written st f \<and> (\<exists>k. load_cipher st = Inr k)"

text \<open>
  Memory and file agree: without a state there is no cipher, and the file is missing or whole; a
  state in memory has its cipher, and the file is whole and has the same master key.
\<close>

definition vault_ok :: "'z vault_scheme \<Rightarrow> bool" where
  "vault_ok s \<longleftrightarrow>
     (case vt_state s of
        None \<Rightarrow> vt_cipher s = None \<and> (dk_file (vt_disk s) = None \<or> (\<exists>st. holds_state (dk_file (vt_disk s)) st))
      | Some st \<Rightarrow> state_ok st \<and> (\<exists>k. load_cipher st = Inr k \<and> vt_cipher s = Some k) \<and>
          (\<exists>st'. holds_state (dk_file (vt_disk s)) st' \<and> ds_master st' = ds_master st))"

lemma load_cipher_cong: "ds_master a = ds_master b \<Longrightarrow> load_cipher a = load_cipher b"
  by (simp add: load_cipher_def)

lemma written_times: "written st f \<Longrightarrow> text_year (ds_created st) \<and> text_year (ds_updated st) \<and>
    list_all (\<lambda>c. text_year (ts_created c)) (ds_tokens st)"
  by (auto simp: written_def document_def times_ok_def split: if_splits)

text \<open>The texts of a state.\<close>

definition texts_ok :: "disk_state \<Rightarrow> bool" where
  "texts_ok st \<longleftrightarrow>
     in_int64 (ds_version st) \<and> utf8_ok (ds_master st) \<and> utf8_ok (ds_admin st) \<and> utf8_ok (ds_proxy st) \<and>
     list_all (\<lambda>c. utf8_ok (ts_id c) \<and> utf8_ok (ts_name c) \<and> utf8_ok (ts_hash c)) (ds_tokens st)"

lemma state_ok_iff: "state_ok st \<longleftrightarrow> texts_ok st \<and> text_year (ds_created st) \<and> text_year (ds_updated st) \<and>
    list_all (\<lambda>c. text_year (ts_created c)) (ds_tokens st)"
  by (auto simp: state_ok_def texts_ok_def token_ok_def list_all_iff)

lemma state_ok_written: "texts_ok st \<Longrightarrow> written st f \<Longrightarrow> state_ok st"
  using written_times by (simp add: state_ok_iff)

text \<open>The changes that keep the master key and the texts valid keep the invariant.\<close>

locale identity_change =
  fixes R :: "'a change"
  assumes keeps_master: "R v old new \<Longrightarrow> ds_master new = ds_master old"
    and keeps_texts: "R v old new \<Longrightarrow> texts_ok old \<Longrightarrow> texts_ok new"
begin

lemma new_state:
  assumes "R v old new" "written new f" "state_ok old" "load_cipher old = Inr k"
  shows "holds_state f new" "ds_master new = ds_master old" "load_cipher new = Inr k"
  using assms keeps_master [OF assms(1)] keeps_texts [OF assms(1)] load_cipher_cong [of new old] state_ok_written
  by (auto simp: holds_state_def state_ok_iff)

lemma vault_ok_changes:
  assumes "changes R old s r t" "vt_state s = Some old" "vault_ok s"
  shows "vault_ok t"
proof -
  from assms(2,3) obtain k st' where old: "state_ok old" "load_cipher old = Inr k" "vt_cipher s = Some k"
    "holds_state (dk_file (vt_disk s)) st'" "ds_master st' = ds_master old"
    by (auto simp: vault_ok_def)
  have cipher: "vt_cipher t = Some k" using assms(1) old by (simp add: changes_def)
  show ?thesis
  proof (cases r)
    case (Inl e)
    with assms(1) have t: "vt_state t = Some old"
      "dk_file (vt_disk t) = dk_file (vt_disk s) \<or> (\<exists>v new. R v old new \<and> written new (dk_file (vt_disk t)))"
      by (simp_all add: changes_def)
    then have "\<exists>st'. holds_state (dk_file (vt_disk t)) st' \<and> ds_master st' = ds_master old"
      using old new_state [OF _ _ old(1,2)] by metis
    with t old cipher show ?thesis by (simp add: vault_ok_def)
  next
    case (Inr v)
    with assms(1) obtain new where "R v old new" "vt_state t = Some new" "written new (dk_file (vt_disk t))"
      by (auto simp: changes_def)
    with new_state [OF this(1,3) old(1,2)] cipher show ?thesis by (auto simp: vault_ok_def holds_state_def)
  qed
qed

lemma vault_ok_effect:
  assumes "case vt_state s of None \<Rightarrow> X \<and> t = s | Some old \<Rightarrow> changes R old s r t" "vault_ok s"
  shows "vault_ok t"
  using assms by (cases "vt_state s") (auto intro: vault_ok_changes)

end

lemma changes_weaken:
  assumes "changes R old s r t" "\<And>v new. R v old new \<Longrightarrow> Q v old new"
  shows "changes Q old s r t"
  using assms by (fastforce simp: changes_def split: sum.splits)

lemma texts_ok_map_first:
  "list_all P xs \<Longrightarrow> (\<And>x. P x \<Longrightarrow> list_all P (f x)) \<Longrightarrow> list_all P (map_first Q f xs)"
  by (induction xs) auto

lemma utf8_ok_hash_text [simp]: "utf8_ok (hash_text kdf k salt)"
  by (rule utf8_ok_ascii) (simp add: hash_text_def version_text less_char_def)

interpretation rotate: identity_change "rotated kdf"
  by unfold_locales (auto simp: rotated_def texts_ok_def token_hash_def utf8_ok_ascii)

interpretation issue: identity_change "\<lambda>v old new. utf8_ok (client_name n) \<and> issued n v old new"
  by unfold_locales (auto simp: issued_def new_token_def texts_ok_def token_hash_def utf8_ok_ascii)

interpretation rename: identity_change "\<lambda>v old new. utf8_ok (trim_space n) \<and> renamed i n v old new"
  by unfold_locales (auto simp: renamed_def texts_ok_def intro!: texts_ok_map_first)

interpretation revoke: identity_change "revoked i"
  by unfold_locales (auto simp: revoked_def texts_ok_def intro!: texts_ok_map_first)

section \<open>Setting up and opening\<close>

lemma load_fresh: "length master = 32 \<Longrightarrow> load_cipher (fresh_state master h p u t) = Inr master"
  by (simp add: load_cipher_def fresh_state_def cipher_new_def)

lemma texts_ok_fresh: "texts_ok (fresh_state master (hash_text kdf k salt) p u t)"
  by (simp add: texts_ok_def fresh_state_def utf8_ok_ascii token_hash_def in_int64_def)

text \<open>A state that Initialize has made: of random bytes, with one access key for both uses.\<close>

definition set_up :: "kdf \<Rightarrow> string \<Rightarrow> string \<Rightarrow> disk_state \<Rightarrow> bool" where
  "set_up kdf master access st \<longleftrightarrow>
     length master = 32 \<and> (\<exists>raw. length raw = 32 \<and> access = access_key_of raw) \<and>
     (\<exists>salt t. st = fresh_state master (hash_text kdf access salt) access True t)"

lemma finish_setup_effect:
  assumes "run_state (finish_setup master access st) s = (r, t)" "cipher_new master = Some c"
  shows "case r of
      Inl e \<Rightarrow> vt_state t = None \<and> vt_cipher t = None \<and>
        (dk_file (vt_disk t) = dk_file (vt_disk s) \<or> written st (dk_file (vt_disk t)))
    | Inr sc \<Rightarrow> vt_state t = Some st \<and> vt_cipher t = Some c \<and> written st (dk_file (vt_disk t)) \<and>
        sc = \<lparr>sc_access = access, sc_recovery = ds_master st\<rparr>"
proof -
  obtain a u where u: "run_state (persist st) (s\<lparr>vt_state := Some st, vt_cipher := Some c\<rparr>) = (a, u)"
    by (cases "run_state (persist st) (s\<lparr>vt_state := Some st, vt_cipher := Some c\<rparr>)")
  note p = persist_effect [OF u]
  have "vt_state u = Some st" "vt_cipher u = Some c" using disk_only_simps [OF p(1)] by simp_all
  with assms u p(2,3) show ?thesis
    by (auto simp: finish_setup_def install_def run_state_bind fail_def ok_def split: sum.splits)
qed

lemma initialize_effect:
  assumes "run_state (initialize kdf) s = (r, t)"
  shows "if vt_state s \<noteq> None then r = Inl AlreadyInitialized \<and> t = s
    else (\<exists>master access st. set_up kdf master access st \<and>
      (case r of
         Inl e \<Rightarrow> vt_state t = None \<and> vt_cipher t = None \<and>
           (dk_file (vt_disk t) = dk_file (vt_disk s) \<or> written st (dk_file (vt_disk t)))
       | Inr sc \<Rightarrow> vt_state t = Some st \<and> vt_cipher t = Some master \<and> written st (dk_file (vt_disk t)) \<and>
           sc = \<lparr>sc_access = access, sc_recovery = ds_master st\<rparr>))"
proof (cases "vt_state s")
  case (Some st)
  with assms show ?thesis by (auto simp: initialize_def run_state_bind fail_def)
next
  case None
  from assms None obtain u0 where "vt_state u0 = None" "vt_disk u0 = vt_disk s" and u0:
    "run_state (do {
       master \<leftarrow> draw 32; raw \<leftarrow> draw 32; h \<leftarrow> hash_password kdf (access_key_of raw); t \<leftarrow> now;
       finish_setup master (access_key_of raw) (fresh_state master h (access_key_of raw) True t) }) u0 = (r, t)"
    by (simp add: initialize_def run_state_bind Let_def)
  from quiet_bind [OF quiet_draw u0] obtain master u1 where "length master = 32" "same_vault u0 u1" and u1:
    "run_state (do {
       raw \<leftarrow> draw 32; h \<leftarrow> hash_password kdf (access_key_of raw); t \<leftarrow> now;
       finish_setup master (access_key_of raw) (fresh_state master h (access_key_of raw) True t) }) u1 = (r, t)"
    by blast
  from quiet_bind [OF quiet_draw u1] obtain raw u2 where "length raw = 32" "same_vault u1 u2" and u2:
    "run_state (do {
       h \<leftarrow> hash_password kdf (access_key_of raw); t \<leftarrow> now;
       finish_setup master (access_key_of raw) (fresh_state master h (access_key_of raw) True t) }) u2 = (r, t)"
    by blast
  from quiet_bind [OF quiet_hash u2] obtain salt u3 where "same_vault u2 u3" and u3:
    "run_state (do {
       t \<leftarrow> now;
       finish_setup master (access_key_of raw)
         (fresh_state master (hash_text kdf (access_key_of raw) salt) (access_key_of raw) True t) }) u3 = (r, t)"
    by blast
  from quiet_bind [OF quiet_now u3] obtain t0 u4 where "same_vault u3 u4" and u4:
    "run_state (finish_setup master (access_key_of raw)
       (fresh_state master (hash_text kdf (access_key_of raw) salt) (access_key_of raw) True t0)) u4 = (r, t)"
    by blast
  define st where "st = fresh_state master (hash_text kdf (access_key_of raw) salt) (access_key_of raw) True t0"
  have "set_up kdf master (access_key_of raw) st"
    unfolding set_up_def st_def using \<open>length master = 32\<close> \<open>length raw = 32\<close> by blast
  moreover have "cipher_new master = Some master" using \<open>length master = 32\<close> by (simp add: cipher_new_def)
  moreover have "vt_disk u4 = vt_disk s"
    using \<open>same_vault u0 u1\<close> \<open>same_vault u1 u2\<close> \<open>same_vault u2 u3\<close> \<open>same_vault u3 u4\<close> \<open>vt_disk u0 = vt_disk s\<close>
    by (simp add: same_vault_def)
  ultimately show ?thesis
    using None finish_setup_effect [OF u4 [folded st_def]] by (auto split: sum.splits)
qed

section \<open>When nothing fails\<close>

lemma run_steps_ok:
  "h_faults s = [] \<Longrightarrow>
     run_state (run_steps fs) s = (Inr (), s\<lparr>vt_disk := fold (\<lambda>f. f) fs (vt_disk s)\<rparr>)"
proof (induction fs arbitrary: s)
  case (Cons f fs)
  from Cons.IH [of "s\<lparr>vt_disk := f (vt_disk s)\<rparr>"] Cons.prems show ?case
    by (simp add: run_state_bind run_fault disk_do_def)
qed (simp add: ok_def)

lemma persist_ok:
  assumes "h_faults s = []" "document st = Some data"
  shows "run_state (persist st) s =
    (Inr (), s\<lparr>vt_disk := \<lparr>dk_file = Some \<lparr>fl_data = data, fl_mode = private_mode\<rparr>, dk_temp = None\<rparr>\<rparr>)"
proof -
  have steps: "fold (\<lambda>f. f) (write_steps data) d =
      \<lparr>dk_file = Some \<lparr>fl_data = data, fl_mode = private_mode\<rparr>, dk_temp = None\<rparr>" for d
    by (cases d) (simp add: write_steps_def set_file_def set_temp_def)
  from assms show ?thesis
    by (simp add: persist_def try_bind_def run_state_bind run_steps_ok steps disk_do_def set_temp_def
        del: run_steps.simps)
qed

lemma save_ok:
  assumes "h_faults s = []" "times_ok new"
  obtains t where "run_state (save old new v) s = (Inr v, t)" "vt_state t = Some new" "h_faults t = []"
    "vt_cipher t = vt_cipher s" "written new (dk_file (vt_disk t))"
proof -
  obtain data where d: "document new = Some data" using assms(2) by (simp add: document_def)
  let ?t = "s\<lparr>vt_state := Some new, vt_disk := \<lparr>dk_file = Some \<lparr>fl_data = data, fl_mode = private_mode\<rparr>, dk_temp = None\<rparr>\<rparr>"
  have "run_state (save old new v) s = (Inr v, ?t)"
    using persist_ok [of "s\<lparr>vt_state := Some new\<rparr>" new data] assms(1) d
    by (simp add: save_def put_state_def run_state_bind ok_def)
  moreover have "written new (dk_file (vt_disk ?t))" using d by (simp add: written_def)
  ultimately show ?thesis using that [of ?t] assms(1) by simp
qed

text \<open>A disk without faults to come, and a clock within the years that a time can be written in.\<close>

definition healthy :: "'z vault_scheme \<Rightarrow> bool" where
  "healthy s \<longleftrightarrow> h_faults s = [] \<and> (\<forall>n. text_year (h_clock s n))"

definition succeeds :: "'z vault_scheme \<Rightarrow> ('z, 'a) manager \<Rightarrow> bool" where
  "succeeds s m \<longleftrightarrow> (\<exists>v t. run_state m s = (Inr v, t) \<and> healthy t)"

lemma succeeds_save:
  assumes "healthy s" "times_ok new"
  shows "succeeds s (save old new v)"
proof -
  obtain data where d: "document new = Some data" using assms(2) by (simp add: document_def)
  let ?t = "s\<lparr>vt_state := Some new, vt_disk := \<lparr>dk_file = Some \<lparr>fl_data = data, fl_mode = private_mode\<rparr>, dk_temp = None\<rparr>\<rparr>"
  have "run_state (save old new v) s = (Inr v, ?t)"
    using persist_ok [of "s\<lparr>vt_state := Some new\<rparr>" new data] assms(1) d
    by (simp add: save_def put_state_def run_state_bind ok_def healthy_def)
  then show ?thesis using assms(1) unfolding succeeds_def by (intro exI [of _ v] exI [of _ ?t]) (simp add: healthy_def)
qed

lemma succeeds_draw:
  assumes "healthy s" "\<And>a u. healthy u \<Longrightarrow> vt_state u = vt_state s \<Longrightarrow> length a = n \<Longrightarrow> succeeds u (f a)"
  shows "succeeds s (State_Monad.bind (draw n) f)"
proof -
  have "succeeds (s\<lparr>ch_drawn := ch_drawn s + n\<rparr>) (f (map (ch_random s) [ch_drawn s..<ch_drawn s + n]))"
    by (rule assms(2)) (use assms(1) in \<open>simp_all add: healthy_def\<close>)
  then show ?thesis by (simp add: succeeds_def run_state_bind run_draw)
qed

lemma succeeds_now:
  assumes "healthy s" "\<And>a u. healthy u \<Longrightarrow> vt_state u = vt_state s \<Longrightarrow> text_year a \<Longrightarrow> succeeds u (f a)"
  shows "succeeds s (State_Monad.bind now f)"
proof -
  have "succeeds (s\<lparr>h_ticks := Suc (h_ticks s)\<rparr>) (f (h_clock s (h_ticks s)))"
    by (rule assms(2)) (use assms(1) in \<open>simp_all add: healthy_def\<close>)
  then show ?thesis by (simp add: succeeds_def run_state_bind run_now)
qed

lemma succeeds_hash:
  assumes "healthy s" "\<And>a u. healthy u \<Longrightarrow> vt_state u = vt_state s \<Longrightarrow> succeeds u (f a)"
  shows "succeeds s (State_Monad.bind (hash_password kdf k) f)"
proof -
  have "succeeds s (State_Monad.bind (draw 16) (\<lambda>salt. f (hash_text kdf k salt)))"
    by (rule succeeds_draw [OF assms(1)]) (simp add: assms(2))
  then show ?thesis by (simp add: succeeds_def run_state_bind hash_password_def split: prod.splits)
qed

lemma succeeds_state: "vt_state s = Some st \<Longrightarrow> succeeds s (f st) \<Longrightarrow> succeeds s (with_state f)"
  by (simp add: succeeds_def with_state_def run_state_bind)

lemma succeeds_initialize:
  assumes "healthy s" "vt_state s = None"
  shows "succeeds s (initialize kdf)"
proof -
  have "succeeds u (finish_setup master access (fresh_state master h access True t0))"
    if "healthy u" "length master = 32" "text_year t0" for u :: "'a vault_scheme" and master access h t0
  proof -
    let ?st = "fresh_state master h access True t0"
    from \<open>text_year t0\<close> obtain data where "document ?st = Some data"
      by (simp add: document_def times_ok_def fresh_state_def)
    then show ?thesis
      using that persist_ok [of "u\<lparr>vt_state := Some ?st, vt_cipher := Some master\<rparr>" ?st data]
      by (simp add: succeeds_def finish_setup_def cipher_new_def install_def run_state_bind ok_def healthy_def)
  qed
  then have "succeeds s (do {
       master \<leftarrow> draw 32; raw \<leftarrow> draw 32; h \<leftarrow> hash_password kdf (access_key_of raw); t \<leftarrow> now;
       finish_setup master (access_key_of raw) (fresh_state master h (access_key_of raw) True t) })"
    using assms(1) by (intro succeeds_draw succeeds_hash succeeds_now)
  then show ?thesis using assms(2) by (simp add: succeeds_def initialize_def run_state_bind Let_def)
qed

lemma rune_count_ascii: "ascii s \<Longrightarrow> rune_count s = length s"
  by (induction s) (simp_all add: utf8_len_ascii)

lemma length_b64: "length (b64_encode url False s) = (4 * length s + 2) div 3"
  by (induction url "False" s rule: b64_encode.induct) auto

lemma access_key_ok: "length raw = 32 \<Longrightarrow> key_length_ok (access_key_of raw)"
proof -
  assume "length raw = 32"
  moreover have "ascii (access_key_of raw)" by (simp add: access_key_of_def less_char_def)
  ultimately show ?thesis
    unfolding key_length_ok_def rune_count_ascii [OF \<open>ascii (access_key_of raw)\<close>]
    by (simp add: access_key_of_def length_b64)
qed

lemma succeeds_requested:
  assumes "healthy s" "\<And>k u. healthy u \<Longrightarrow> vt_state u = vt_state s \<Longrightarrow> key_length_ok k \<Longrightarrow> succeeds u (f k)"
  shows "succeeds s (State_Monad.bind (requested_key []) f)"
proof -
  have "succeeds s (State_Monad.bind (draw 32) (\<lambda>raw. f (access_key_of raw)))"
    by (rule succeeds_draw [OF assms(1)]) (simp add: assms(2) access_key_ok)
  then show ?thesis
    by (simp add: succeeds_def run_state_bind requested_key_def trim_space_def trim_left_def trim_end_def
        split: prod.splits)
qed

lemma succeeds_rotate:
  assumes "healthy s" "vt_state s = Some st" "times_ok st"
  shows "succeeds s (rotate_access_key kdf [])"
  unfolding rotate_access_key_def
  by (rule succeeds_state [OF assms(2)])
    (use assms in \<open>auto intro!: succeeds_requested succeeds_hash succeeds_now succeeds_save simp: times_ok_def\<close>)

lemma succeeds_issue:
  assumes "healthy s" "vt_state s = Some st" "times_ok st" "length (ds_tokens st) < max_tokens"
  shows "succeeds s (issue_client_token n)"
  unfolding issue_client_token_def
  by (rule succeeds_state [OF assms(2)])
    (use assms in \<open>auto intro!: succeeds_draw succeeds_now succeeds_save simp: times_ok_def new_token_def Let_def\<close>)

lemma times_map_first:
  "list_all (\<lambda>c. text_year (ts_created c)) cs \<Longrightarrow> list_all (\<lambda>c. text_year (ts_created c)) (map_first P (\<lambda>_. []) cs)"
  by (induction cs) auto

lemma succeeds_revoke:
  assumes "healthy s" "vt_state s = Some st" "times_ok st" "i \<in> ts_id ` set (ds_tokens st)"
  shows "succeeds s (revoke_client_token i)"
proof -
  have "find (\<lambda>c. ts_id c = i) (ds_tokens st) \<noteq> None" using assms(4) by (auto simp: find_None_iff)
  then show ?thesis
    unfolding revoke_client_token_def
    by (intro succeeds_state [OF assms(2)])
      (use assms(1,3) times_map_first in \<open>auto intro!: succeeds_now succeeds_save simp: times_ok_def\<close>)
qed

section \<open>A vault to try the properties on\<close>

definition sample_kdf :: kdf where
  "sample_kdf p salt i m n k = take 32 (p @ salt @ replicate 32 (CHR ''0''))"

definition blank_vault :: vault where
  "blank_vault = \<lparr>h_db = migrated, h_clock = (\<lambda>n. 0), h_ticks = 0, h_faults = [],
     sv_upstream = (\<lambda>n c. CallFailed []), sv_calls = [],
     sv_writer = \<lparr>wr_header = [], wr_sent = None, wr_body = [], wr_budget = None\<rparr>,
     ch_random = (\<lambda>n. char_of (n mod 256)), ch_drawn = 0,
     vt_disk = \<lparr>dk_file = None, dk_temp = None\<rparr>, vt_state = None, vt_cipher = None\<rparr>"

lemma text_year_0: "text_year 0"
  by code_simp

lemma blank_healthy: "healthy blank_vault"
  by (simp add: healthy_def blank_vault_def text_year_0)

definition set_up_vault :: vault where
  "set_up_vault = snd (run_state (initialize sample_kdf) blank_vault)"

lemma set_up_run:
  obtains sc st where "run_state (initialize sample_kdf) blank_vault = (Inr sc, set_up_vault)" "healthy set_up_vault"
    "vt_state set_up_vault = Some st" "times_ok st" "ds_tokens st = []"
proof -
  have none: "vt_state blank_vault = None" by (simp add: blank_vault_def)
  from succeeds_initialize [OF blank_healthy none, of sample_kdf] obtain sc where
    sc: "run_state (initialize sample_kdf) blank_vault = (Inr sc, set_up_vault)" "healthy set_up_vault"
    by (auto simp: succeeds_def set_up_vault_def)
  with initialize_effect [OF sc(1)] none obtain master access st where
    "set_up sample_kdf master access st" "vt_state set_up_vault = Some st" "written st (dk_file (vt_disk set_up_vault))"
    by auto
  then show ?thesis using sc that by (auto simp: set_up_def fresh_state_def written_def document_def split: if_splits)
qed

end
