(* ===== verification/ManagerProps.thy ===== *)
theory ManagerProps
  imports ManagerLaws
begin

text \<open>
  Properties of the identity manager: what is true of its memory and its file after any sequence
  of operations and restarts, which tokens it accepts after each operation, and that what it has
  encrypted it can decrypt ever after.
\<close>

section \<open>Steps\<close>

text \<open>
  A step: an operation of a caller, a restart of the process on the file (with whatever the
  configuration supplies, and after any number of starts that failed), or anything that leaves the
  manager alone.
\<close>

definition failed_open :: "kdf \<Rightarrow> 'z vault_scheme \<Rightarrow> 'z vault_scheme \<Rightarrow> bool" where
  "failed_open kdf s t \<longleftrightarrow> (\<exists>master admin token e. run_state (open_manager kdf master admin token) s = (Inl e, t))"

inductive vault_step :: "kdf \<Rightarrow> vault \<Rightarrow> vault \<Rightarrow> bool" for kdf where
  call: "run_state (run_call kdf c) s = (r, t) \<Longrightarrow> names_ok c \<Longrightarrow> vault_step kdf s t"
| restart: "(failed_open kdf)\<^sup>*\<^sup>* s u \<Longrightarrow> run_state (open_manager kdf master admin token) u = (Inr (), t) \<Longrightarrow> vault_step kdf s t"
| other: "same_vault s t \<Longrightarrow> vault_step kdf s t"

inductive vault_reachable :: "kdf \<Rightarrow> vault \<Rightarrow> bool" for kdf where
  start: "vt_state s = None \<Longrightarrow> vt_cipher s = None \<Longrightarrow> dk_file (vt_disk s) = None \<Longrightarrow> vault_reachable kdf s"
| step: "vault_reachable kdf s \<Longrightarrow> vault_step kdf s t \<Longrightarrow> vault_reachable kdf t"

lemma vault_ok_same: "same_vault s t \<Longrightarrow> vault_ok s \<Longrightarrow> vault_ok t"
  by (simp add: same_vault_def vault_ok_def split: option.splits)

lemma vault_ok_none: "vt_state s = None \<Longrightarrow> vault_ok s \<longleftrightarrow>
    vt_cipher s = None \<and> (dk_file (vt_disk s) = None \<or> (\<exists>st. holds_state (dk_file (vt_disk s)) st))"
  by (simp add: vault_ok_def)

lemma holds_fresh:
  "length master = 32 \<Longrightarrow> written (fresh_state master (hash_text kdf k salt) p u t0) f \<Longrightarrow>
     holds_state f (fresh_state master (hash_text kdf k salt) p u t0)"
  using state_ok_written [OF texts_ok_fresh] by (auto simp: holds_state_def load_fresh)

lemma holds_set_up: "set_up kdf master access st \<Longrightarrow> written st f \<Longrightarrow> holds_state f st \<and> load_cipher st = Inr master"
  by (auto simp: set_up_def holds_fresh load_fresh)

lemma vault_ok_initialize:
  assumes "run_state (initialize kdf) s = (r, t)" "vault_ok s"
  shows "vault_ok t"
proof (cases "vt_state s")
  case (Some st)
  with assms initialize_effect [OF assms(1)] show ?thesis by simp
next
  case None
  with initialize_effect [OF assms(1)] obtain master access st where
    st: "set_up kdf master access st" and
    eff: "case r of
         Inl e \<Rightarrow> vt_state t = None \<and> vt_cipher t = None \<and>
           (dk_file (vt_disk t) = dk_file (vt_disk s) \<or> written st (dk_file (vt_disk t)))
       | Inr sc \<Rightarrow> vt_state t = Some st \<and> vt_cipher t = Some master \<and> written st (dk_file (vt_disk t)) \<and>
           sc = \<lparr>sc_access = access, sc_recovery = ds_master st\<rparr>"
    by auto
  show ?thesis
  proof (cases r)
    case (Inl e)
    with eff None assms(2) holds_set_up [OF st] show ?thesis by (auto simp: vault_ok_def)
  next
    case (Inr sc)
    with eff holds_set_up [OF st] show ?thesis by (auto simp: vault_ok_def holds_state_def)
  qed
qed

lemma vault_ok_call:
  assumes "run_state (run_call kdf c) s = (r, t)" "names_ok c" "vault_ok s"
  shows "vault_ok t"
proof (cases c)
  case CInitialize
  with assms obtain q where "run_state (initialize kdf) s = (q, t)" by (auto elim: drop_result_run)
  then show ?thesis using assms(3) by (rule vault_ok_initialize)
next
  case (CRotate k)
  with assms obtain q where "run_state (rotate_access_key kdf k) s = (q, t)" by (auto elim: drop_result_run)
  from rotate.vault_ok_effect [OF rotate_effect [OF this] assms(3)] show ?thesis .
next
  case (CIssue n)
  with assms obtain q where q: "run_state (issue_client_token n) s = (q, t)" by (auto elim: drop_result_run)
  have "case vt_state s of None \<Rightarrow> q = Inl SetupRequired \<and> t = s
      | Some old \<Rightarrow> changes (\<lambda>v old new. utf8_ok (client_name n) \<and> issued n v old new) old s q t"
    using issue_effect [OF q] assms(2) CIssue by (cases "vt_state s") (simp_all add: changes_weaken)
  from issue.vault_ok_effect [OF this assms(3)] show ?thesis .
next
  case (CRename i n)
  with assms obtain q where q: "run_state (rename_client_token i n) s = (q, t)" by (auto elim: drop_result_run)
  have "case vt_state s of None \<Rightarrow> (\<exists>e. q = Inl e) \<and> t = s
      | Some old \<Rightarrow> changes (\<lambda>v old new. utf8_ok (trim_space n) \<and> renamed i n v old new) old s q t"
    using rename_effect [OF q] assms(2) CRename by (cases "vt_state s") (simp_all add: changes_weaken)
  from rename.vault_ok_effect [OF this assms(3)] show ?thesis .
next
  case (CRevoke i)
  with assms have "run_state (revoke_client_token i) s = (r, t)" by simp
  from revoke.vault_ok_effect [OF revoke_effect [OF this] assms(3)] show ?thesis .
qed

section \<open>Opening the file\<close>

lemma read_written:
  assumes "holds_state f st"
  obtains x k where "f = Some x" "read_document (fl_data x) = Some (Some st)" "load_cipher st = Inr k"
  using assms read_document_json by (auto simp: holds_state_def written_def document_def split: if_splits)

lemma open_fault:
  assumes "run_state (open_manager kdf m a k) s = (Inr (), t)"
  obtains u where "vt_disk u = vt_disk s" "vt_state u = None" "vt_cipher u = None"
    "run_state (case dk_file (vt_disk s) of
         Some f \<Rightarrow> open_document (fl_data f) | None \<Rightarrow> open_legacy kdf m a k) u = (Inr (), t)"
proof -
  let ?s = "s\<lparr>vt_state := None, vt_cipher := None\<rparr>"
  obtain b u where u: "run_state fault ?s = (b, u)" by (cases "run_state fault ?s")
  note d = disk_only_fault [OF u]
  from assms u have "\<not> b" by (auto simp: open_manager_def install_def run_state_bind fail_def)
  with assms u d have "run_state (case dk_file (vt_disk s) of
         Some f \<Rightarrow> open_document (fl_data f) | None \<Rightarrow> open_legacy kdf m a k) u = (Inr (), t)"
    by (simp add: open_manager_def install_def run_state_bind)
  moreover have "vt_state u = None" "vt_cipher u = None" "vt_disk u = vt_disk s"
    using d disk_only_simps [of ?s u] by simp_all
  ultimately show ?thesis using that by blast
qed

lemma open_holds:
  assumes "run_state (open_manager kdf m a k) s = (Inr (), t)" "holds_state (dk_file (vt_disk s)) st"
  shows "vt_state t = Some st" "load_cipher st = Inr (the (vt_cipher t))" "vt_cipher t \<noteq> None" "vt_disk t = vt_disk s"
proof -
  from read_written [OF assms(2)] obtain x c where
    x: "dk_file (vt_disk s) = Some x" "read_document (fl_data x) = Some (Some st)" "load_cipher st = Inr c" .
  from open_fault [OF assms(1)] x obtain u where
    "vt_disk u = vt_disk s" "run_state (open_document (fl_data x)) u = (Inr (), t)" by auto
  with x have "t = u\<lparr>vt_state := Some st, vt_cipher := Some c\<rparr>" "vt_disk u = vt_disk s"
    by (simp_all add: open_document_def install_def run_state_bind ok_def)
  with x show "vt_state t = Some st" "load_cipher st = Inr (the (vt_cipher t))" "vt_cipher t \<noteq> None" "vt_disk t = vt_disk s"
    by simp_all
qed

lemma open_missing:
  assumes "run_state (open_manager kdf m a k) s = (Inr (), t)" "dk_file (vt_disk s) = None"
  shows "vault_ok t"
proof -
  from open_fault [OF assms(1)] assms(2) obtain u where u: "vt_disk u = vt_disk s" "vt_state u = None" "vt_cipher u = None"
    "run_state (open_legacy kdf m a k) u = (Inr (), t)" by auto
  show ?thesis
  proof (cases "m = [] \<and> a = [] \<and> k = []")
    case True
    with u have "t = u" by (simp add: open_legacy_def ok_def)
    with u assms(2) show ?thesis by (simp add: vault_ok_def)
  next
    case False
    with u(4) have m: "length m = 32" by (auto simp: open_legacy_def fail_def split: if_splits)
    from False u(4) have "run_state (do {
        h \<leftarrow> hash_password kdf a; t0 \<leftarrow> now;
        install (Some (fresh_state m h k (a = k) t0)) (Some m); persist (fresh_state m h k (a = k) t0) }) u = (Inr (), t)"
      by (auto simp: open_legacy_def fail_def Let_def load_fresh split: if_splits)
    from quiet_bind [OF quiet_hash this] obtain salt u1 where
      "run_state (do { t0 \<leftarrow> now;
        install (Some (fresh_state m (hash_text kdf a salt) k (a = k) t0)) (Some m);
        persist (fresh_state m (hash_text kdf a salt) k (a = k) t0) }) u1 = (Inr (), t)" by blast
    from quiet_bind [OF quiet_now this] obtain t0 u2 where u2:
      "run_state (do { install (Some (fresh_state m (hash_text kdf a salt) k (a = k) t0)) (Some m);
        persist (fresh_state m (hash_text kdf a salt) k (a = k) t0) }) u2 = (Inr (), t)" by blast
    let ?st = "fresh_state m (hash_text kdf a salt) k (a = k) t0"
    from u2 have p: "run_state (persist ?st) (u2\<lparr>vt_state := Some ?st, vt_cipher := Some m\<rparr>) = (Inr (), t)"
      by (simp add: install_def run_state_bind)
    have t: "vt_state t = Some ?st" "vt_cipher t = Some m" "written ?st (dk_file (vt_disk t))"
      using disk_only_simps [OF persist_effect(1) [OF p]] persist_effect(2) [OF p] by simp_all
    from holds_fresh [OF m t(3)] have "holds_state (dk_file (vt_disk t)) ?st" .
    moreover from this have "state_ok ?st" by (simp add: holds_state_def)
    ultimately show ?thesis unfolding vault_ok_def t(1,2) using load_fresh [OF m] by (simp, blast)
  qed
qed

definition file_ok :: "disk_file option \<Rightarrow> bool" where
  "file_ok f \<longleftrightarrow> f = None \<or> (\<exists>st. holds_state f st)"

lemma vault_ok_file: "vault_ok s \<Longrightarrow> file_ok (dk_file (vt_disk s))"
  by (auto simp: vault_ok_def file_ok_def split: option.splits)

lemma open_legacy_failed:
  assumes "run_state (open_legacy kdf m a k) u = (Inl e, t)"
  shows "dk_file (vt_disk t) = dk_file (vt_disk u) \<or> file_ok (dk_file (vt_disk t))"
proof (cases "length m \<noteq> 32 \<or> a = [] \<or> k = []")
  case True
  with assms have "t = u" by (auto simp: open_legacy_def ok_def fail_def split: if_splits)
  then show ?thesis by simp
next
  case False
  then have m: "length m = 32" by simp
  from False assms have "run_state (do {
      h \<leftarrow> hash_password kdf a; t0 \<leftarrow> now;
      install (Some (fresh_state m h k (a = k) t0)) (Some m); persist (fresh_state m h k (a = k) t0) }) u = (Inl e, t)"
    by (auto simp: open_legacy_def fail_def Let_def load_fresh)
  from quiet_bind [OF quiet_hash this] obtain salt u1 where u1: "same_vault u u1"
    "run_state (do { t0 \<leftarrow> now;
      install (Some (fresh_state m (hash_text kdf a salt) k (a = k) t0)) (Some m);
      persist (fresh_state m (hash_text kdf a salt) k (a = k) t0) }) u1 = (Inl e, t)" by blast
  from quiet_bind [OF quiet_now u1(2)] obtain t0 u2 where u2: "same_vault u1 u2"
    "run_state (do { install (Some (fresh_state m (hash_text kdf a salt) k (a = k) t0)) (Some m);
      persist (fresh_state m (hash_text kdf a salt) k (a = k) t0) }) u2 = (Inl e, t)" by blast
  let ?st = "fresh_state m (hash_text kdf a salt) k (a = k) t0"
  from u2(2) have "run_state (persist ?st) (u2\<lparr>vt_state := Some ?st, vt_cipher := Some m\<rparr>) = (Inl e, t)"
    by (simp add: install_def run_state_bind)
  from persist_effect(3) [OF this] have "dk_file (vt_disk t) = dk_file (vt_disk u2) \<or> written ?st (dk_file (vt_disk t))"
    by simp
  moreover have "vt_disk u2 = vt_disk u" using u1(1) u2(1) by (simp add: same_vault_def)
  ultimately show ?thesis using holds_fresh [OF m, of kdf a salt k "a = k" t0] by (metis file_ok_def)
qed

text \<open>A start that fails leaves the file as it is, or writes a whole one where there was none.\<close>

lemma open_failed:
  assumes "failed_open kdf s t" "file_ok (dk_file (vt_disk s))"
  shows "dk_file (vt_disk t) = dk_file (vt_disk s) \<or> dk_file (vt_disk s) = None \<and> file_ok (dk_file (vt_disk t))"
proof -
  from assms(1) obtain m a k e where run: "run_state (open_manager kdf m a k) s = (Inl e, t)" by (auto simp: failed_open_def)
  let ?s = "s\<lparr>vt_state := None, vt_cipher := None\<rparr>"
  obtain b u where u: "run_state fault ?s = (b, u)" by (cases "run_state fault ?s")
  have d: "vt_disk u = vt_disk s" using disk_only_fault [OF u] disk_only_simps [of ?s u] by simp
  consider "b" | "\<not> b" "dk_file (vt_disk s) = None" | st where "\<not> b" "holds_state (dk_file (vt_disk s)) st"
    using assms(2) by (auto simp: file_ok_def)
  then show ?thesis
  proof cases
    case 1
    with run u have "t = u" by (simp add: open_manager_def install_def run_state_bind fail_def)
    with d show ?thesis by simp
  next
    case 2
    with run u d have "run_state (open_legacy kdf m a k) u = (Inl e, t)"
      by (simp add: open_manager_def install_def run_state_bind)
    from open_legacy_failed [OF this] d 2 show ?thesis by (auto simp: file_ok_def)
  next
    case 3
    from read_written [OF 3(2)] obtain x c where
      x: "dk_file (vt_disk s) = Some x" "read_document (fl_data x) = Some (Some st)" "load_cipher st = Inr c" .
    with run u d 3(1) show ?thesis
      by (simp add: open_manager_def install_def run_state_bind open_document_def ok_def)
  qed
qed

lemma failed_opens_file: "(failed_open kdf)\<^sup>*\<^sup>* s t \<Longrightarrow> file_ok (dk_file (vt_disk s)) \<Longrightarrow> file_ok (dk_file (vt_disk t))"
  by (induction rule: rtranclp_induct) (auto dest: open_failed)

lemma vault_ok_opened:
  assumes "run_state (open_manager kdf m a k) s = (Inr (), t)" "file_ok (dk_file (vt_disk s))"
  shows "vault_ok t"
proof (cases "dk_file (vt_disk s) = None")
  case True
  with assms(1) show ?thesis by (rule open_missing)
next
  case False
  with assms(2) obtain st where st: "holds_state (dk_file (vt_disk s)) st"
    by (auto simp: file_ok_def)
  with open_holds [OF assms(1) st] show ?thesis by (auto simp: vault_ok_def holds_state_def)
qed

lemma vault_ok_step: "vault_step kdf s t \<Longrightarrow> vault_ok s \<Longrightarrow> vault_ok t"
  by (cases rule: vault_step.cases) (auto intro: vault_ok_call vault_ok_opened failed_opens_file vault_ok_file vault_ok_same)

lemma reachable_vault_ok: "vault_reachable kdf s \<Longrightarrow> vault_ok s"
proof (induction rule: vault_reachable.induct)
  case (start s)
  then show ?case by (simp add: vault_ok_def)
next
  case (step s t)
  then show ?case by (blast intro: vault_ok_step)
qed

text \<open>
  C28. Memory and file of the manager agree in every state that operations, restarts and crashes of
  them lead to, starts that fail included: without an identity there is no cipher, and the file is missing or whole; an
  identity in memory has the cipher of its own master key, and the file is whole and holds the same
  master key.
\<close>

theorem reachable_vault:
  assumes "vault_reachable kdf s"
  shows "case vt_state s of
      None \<Rightarrow> vt_cipher s = None \<and> (dk_file (vt_disk s) = None \<or> (\<exists>st. holds_state (dk_file (vt_disk s)) st))
    | Some st \<Rightarrow> (\<exists>k. load_cipher st = Inr k \<and> vt_cipher s = Some k) \<and>
        (\<exists>st'. holds_state (dk_file (vt_disk s)) st' \<and> ds_master st' = ds_master st)"
  using reachable_vault_ok [OF assms] by (auto simp: vault_ok_def split: option.splits)

lemma set_up_reachable: "vault_reachable sample_kdf set_up_vault"
proof (rule vault_reachable.step [of _ blank_vault])
  show "vault_reachable sample_kdf blank_vault"
    by (rule vault_reachable.start) (simp_all add: blank_vault_def)
  obtain sc where "run_state (initialize sample_kdf) blank_vault = (Inr sc, set_up_vault)" by (rule set_up_run)
  then have "run_state (run_call sample_kdf CInitialize) blank_vault = (Inr (), set_up_vault)"
    by (simp add: drop_result_def run_state_bind)
  then show "vault_step sample_kdf blank_vault set_up_vault" by (rule vault_step.call) simp
qed

theorem reachable_vault_witness:
  "\<exists>st k. vt_state set_up_vault = Some st \<and> load_cipher st = Inr k \<and> vt_cipher set_up_vault = Some k"
proof -
  obtain st where "vt_state set_up_vault = Some st" by (rule set_up_run)
  with reachable_vault [OF set_up_reachable] show ?thesis by auto
qed

text \<open>What every call does to state and cipher.\<close>

lemma changes_effect:
  assumes "changes R old s r t"
  shows "vt_cipher t = vt_cipher s \<and>
    (case r of Inl _ \<Rightarrow> vt_state t = Some old | Inr _ \<Rightarrow> \<exists>new. vt_state t = Some new \<and> written new (dk_file (vt_disk t)))"
  using assms by (auto simp: changes_def split: sum.splits)

definition summary :: "'z vault_scheme \<Rightarrow> ('e + 'a) \<Rightarrow> 'z vault_scheme \<Rightarrow> bool" where
  "summary s r t \<longleftrightarrow>
     (vt_state s \<noteq> None \<or> vt_cipher s = None \<and> (\<exists>e. r = Inl e) \<longrightarrow> vt_cipher t = vt_cipher s) \<and>
     (case r of
        Inl _ \<Rightarrow> vt_state t = vt_state s
      | Inr _ \<Rightarrow> \<exists>st. vt_state t = Some st \<and> written st (dk_file (vt_disk t)))"

lemma summary_changes:
  assumes "case vt_state s of None \<Rightarrow> (\<exists>e. r = Inl e) \<and> t = s | Some old \<Rightarrow> changes R old s r t"
  shows "summary s r t"
proof (cases "vt_state s")
  case (Some old)
  with assms changes_effect [of R old s r t] show ?thesis by (cases r) (simp_all add: summary_def)
qed (use assms in \<open>auto simp: summary_def\<close>)

lemma summary_map [simp]: "summary s (map_sum id f r) t \<longleftrightarrow> summary s r t"
  by (cases r) (simp_all add: summary_def)

lemma summary_initialize: "run_state (initialize kdf) s = (r, t) \<Longrightarrow> summary s r t"
  using initialize_effect [of kdf s r t]
  by (cases "vt_state s"; cases r) (auto simp: summary_def)

lemma call_summary:
  assumes "run_state (run_call kdf c) s = (r, t)"
  shows "summary s r t"
proof (cases c)
  case CInitialize
  with assms show ?thesis by (auto elim!: drop_result_run intro: summary_initialize)
next
  case (CRotate k)
  with assms obtain q where q: "run_state (rotate_access_key kdf k) s = (q, t)" "r = map_sum id (\<lambda>_. ()) q"
    by (auto elim: drop_result_run)
  have "summary s q t"
    by (rule summary_changes) (use rotate_effect [OF q(1)] in \<open>auto split: option.splits\<close>)
  with q(2) show ?thesis by simp
next
  case (CIssue n)
  with assms obtain q where q: "run_state (issue_client_token n) s = (q, t)" "r = map_sum id (\<lambda>_. ()) q"
    by (auto elim: drop_result_run)
  have "summary s q t"
    by (rule summary_changes) (use issue_effect [OF q(1)] in \<open>auto split: option.splits\<close>)
  with q(2) show ?thesis by simp
next
  case (CRename i n)
  with assms obtain q where q: "run_state (rename_client_token i n) s = (q, t)" "r = map_sum id (\<lambda>_. ()) q"
    by (auto elim: drop_result_run)
  have "summary s q t" by (rule summary_changes) (rule rename_effect [OF q(1)])
  with q(2) show ?thesis by simp
next
  case (CRevoke i)
  with assms have q: "run_state (revoke_client_token i) s = (r, t)" by simp
  show ?thesis
    by (rule summary_changes) (use revoke_effect [OF q] in \<open>auto split: option.splits\<close>)
qed

section \<open>What was encrypted stays readable\<close>

definition keyed :: "string \<Rightarrow> 'z vault_scheme \<Rightarrow> bool" where
  "keyed k s \<longleftrightarrow> vault_ok s \<and> vt_cipher s = Some k"

lemma keyed_state:
  assumes "keyed k s"
  obtains st st' where "vt_state s = Some st" "load_cipher st = Inr k" "holds_state (dk_file (vt_disk s)) st'"
    "ds_master st' = ds_master st" "length k = 32"
proof -
  from assms obtain st st' where st: "vt_state s = Some st" "load_cipher st = Inr k"
    "holds_state (dk_file (vt_disk s)) st'" "ds_master st' = ds_master st"
    by (auto simp: keyed_def vault_ok_def split: option.splits)
  moreover from st(2) have "length k = 32"
    by (auto simp: load_cipher_def cipher_new_def split: option.splits if_splits)
  ultimately show ?thesis using that by blast
qed

lemma keyed_call:
  assumes "run_state (run_call kdf c) s = (r, t)" "names_ok c" "keyed k s"
  shows "keyed k t"
proof -
  from assms have "vault_ok t" by (auto simp: keyed_def intro: vault_ok_call)
  moreover from assms(3) obtain st where "vt_state s = Some st" by (rule keyed_state)
  then have "vt_cipher t = vt_cipher s" using call_summary [OF assms(1)] by (simp add: summary_def)
  ultimately show ?thesis using assms(3) by (simp add: keyed_def)
qed

text \<open>The file holds an identity with the key.\<close>

definition stored :: "string \<Rightarrow> 'z vault_scheme \<Rightarrow> bool" where
  "stored k s \<longleftrightarrow> (\<exists>st. holds_state (dk_file (vt_disk s)) st \<and> load_cipher st = Inr k)"

lemma keyed_stored: "keyed k s \<Longrightarrow> stored k s"
  by (erule keyed_state) (auto simp: stored_def load_cipher_def)

lemma failed_opens_stored: "(failed_open kdf)\<^sup>*\<^sup>* s t \<Longrightarrow> stored k s \<Longrightarrow> stored k t"
proof (induction rule: rtranclp_induct)
  case (step t u)
  then obtain st where st: "holds_state (dk_file (vt_disk t)) st" "load_cipher st = Inr k" by (auto simp: stored_def)
  then have "dk_file (vt_disk t) \<noteq> None" by (auto simp: holds_state_def written_def)
  with open_failed [OF step(2)] st have "dk_file (vt_disk u) = dk_file (vt_disk t)" by (auto simp: file_ok_def)
  with st show ?case by (auto simp: stored_def)
qed

lemma keyed_opened:
  assumes "run_state (open_manager kdf m a n) s = (Inr (), t)" "stored k s"
  shows "keyed k t"
proof -
  from assms(2) obtain st where st: "holds_state (dk_file (vt_disk s)) st" "load_cipher st = Inr k" by (auto simp: stored_def)
  with open_holds [OF assms(1) st(1)] have "vt_cipher t = Some k" by auto
  moreover have "vault_ok t" using vault_ok_opened [OF assms(1)] st(1) by (auto simp: file_ok_def)
  ultimately show ?thesis by (simp add: keyed_def)
qed

lemma keyed_same: "same_vault s t \<Longrightarrow> keyed k s \<Longrightarrow> keyed k t"
  using vault_ok_same [of s t] by (simp add: keyed_def same_vault_def)

lemma keyed_step: "vault_step kdf s t \<Longrightarrow> keyed k s \<Longrightarrow> keyed k t"
  by (induction rule: vault_step.induct) (auto intro: keyed_call keyed_opened failed_opens_stored keyed_stored keyed_same)

text \<open>
  C29. Whatever callers and restarts do after an upstream key was encrypted, the manager decrypts it:
  the master key of an identity never changes and is never lost, also not by a write of the
  identity file that failed half way.
\<close>

theorem secret_survives:
  assumes "vault_reachable kdf s" "run_state (vault_encrypt plain) s = (Inr c, s1)"
    and "(vault_step kdf)\<^sup>*\<^sup>* s1 t"
  shows "vault_decrypt c t = Inr plain"
proof -
  have ok: "vault_ok s" using assms(1) by (rule reachable_vault_ok)
  from assms(2) obtain k where k: "vt_cipher s = Some k" "run_state (encrypt k plain) s = (c, s1)"
    by (auto simp: vault_encrypt_def run_state_bind split: option.splits prod.splits)
  then have s1: "vt_state s1 = vt_state s" "vt_cipher s1 = Some k" "vt_disk s1 = vt_disk s"
    by (auto simp: encrypt_def run_state_bind run_draw)
  have "keyed k s" using ok k by (simp add: keyed_def)
  then have len: "length k = 32" by (rule keyed_state)
  have "vault_ok s1" using vault_ok_same [of s s1] ok s1 k by (simp add: same_vault_def)
  with s1 have "keyed k s1" by (simp add: keyed_def)
  with assms(3) have "keyed k t" by (induction rule: rtranclp_induct) (auto intro: keyed_step)
  then show ?thesis using decrypt_encrypt [OF len k(2)] by (simp add: keyed_def vault_decrypt_def)
qed

theorem secret_survives_witness:
  "\<exists>c s1. run_state (vault_encrypt ''secret'') set_up_vault = (Inr c, s1) \<and>
     vault_decrypt c (snd (run_state (run_call sample_kdf (CRotate [])) s1)) = Inr ''secret''"
proof -
  obtain k where k: "vt_cipher set_up_vault = Some k"
    using reachable_vault_ok [OF set_up_reachable] set_up_run by (auto simp: vault_ok_def split: option.splits)
  obtain c s1 where "run_state (encrypt k ''secret'') set_up_vault = (c, s1)" by fastforce
  with k have c: "run_state (vault_encrypt ''secret'') set_up_vault = (Inr c, s1)"
    by (simp add: vault_encrypt_def run_state_bind)
  have "vault_step sample_kdf s1 (snd (run_state (run_call sample_kdf (CRotate [])) s1))"
    by (rule vault_step.call [where c = "CRotate []" and r = "fst (run_state (run_call sample_kdf (CRotate [])) s1)"]) simp_all
  then have "(vault_step sample_kdf)\<^sup>*\<^sup>* s1 (snd (run_state (run_call sample_kdf (CRotate [])) s1))" by blast
  from secret_survives [OF set_up_reachable c this] c show ?thesis by blast
qed

section \<open>Success and failure\<close>

lemma call_failed:
  assumes "run_state (run_call kdf c) s = (Inl e, t)" "vault_ok s"
  shows "vt_state t = vt_state s \<and> vt_cipher t = vt_cipher s"
  using call_summary [OF assms(1)] assms(2) by (cases "vt_state s") (auto simp: summary_def vault_ok_def)

text \<open>
  C30. An operation of the manager that reports an error has changed nothing in memory: the access
  key, the tokens and the cipher are those from before, whichever step of saving failed.
\<close>

theorem manager_atomic:
  assumes "vault_reachable kdf s" "run_state (run_call kdf c) s = (Inl e, t)"
  shows "vt_state t = vt_state s \<and> vt_cipher t = vt_cipher s"
  using call_failed [OF assms(2) reachable_vault_ok [OF assms(1)]] .

theorem manager_atomic_witness:
  "vt_cipher (snd (run_state (run_call sample_kdf (CRevoke ''x'')) set_up_vault)) = vt_cipher set_up_vault \<and>
   vt_cipher set_up_vault \<noteq> None"
proof -
  obtain st where "vt_state set_up_vault = Some st" "ds_tokens st = []" by (rule set_up_run)
  then have "run_state (run_call sample_kdf (CRevoke ''x'')) set_up_vault = (Inl NotExist, set_up_vault)"
    by (simp add: revoke_client_token_def with_state_def run_state_bind fail_def)
  from manager_atomic [OF set_up_reachable this] this reachable_vault_ok [OF set_up_reachable] set_up_run
  show ?thesis by (auto simp: vault_ok_def split: option.splits)
qed

lemma call_saved:
  assumes "run_state (run_call kdf c) s = (Inr (), t)" "names_ok c" "vault_ok s"
  obtains st where "vt_state t = Some st" "holds_state (dk_file (vt_disk t)) st"
proof -
  have "\<exists>st. vt_state t = Some st \<and> written st (dk_file (vt_disk t))"
    using call_summary [OF assms(1)] by (simp add: summary_def)
  then obtain st where st: "vt_state t = Some st" "written st (dk_file (vt_disk t))" by blast
  moreover from vault_ok_call [OF assms] st(1) have "state_ok st" "\<exists>k. load_cipher st = Inr k"
    by (auto simp: vault_ok_def)
  ultimately show ?thesis using that by (simp add: holds_state_def)
qed

text \<open>
  C31. An operation that reports success has made its change durable: a process that starts on the
  file and can read it comes up with exactly the identity, the tokens and the cipher that were in
  memory, whatever credentials its configuration supplies.
\<close>

theorem manager_durable:
  assumes "vault_reachable kdf s" "names_ok c" "run_state (run_call kdf c) s = (Inr (), t)"
  shows "\<exists>u. run_state (open_manager kdf master admin token) (t\<lparr>h_faults := []\<rparr>) = (Inr (), u) \<and>
    vt_state u = vt_state t \<and> vt_cipher u = vt_cipher t \<and> vt_disk u = vt_disk t"
proof -
  have ok: "vault_ok s" "vault_ok t"
    using reachable_vault_ok assms vault_ok_call by blast+
  from call_saved [OF assms(3,2) ok(1)] obtain st where st: "vt_state t = Some st" "holds_state (dk_file (vt_disk t)) st" .
  from read_written [OF st(2)] obtain x k where
    x: "dk_file (vt_disk t) = Some x" "read_document (fl_data x) = Some (Some st)" "load_cipher st = Inr k" .
  have "vt_cipher t = Some k" using ok(2) st(1) x(3) by (simp add: vault_ok_def)
  with st(1) x show ?thesis
    by (simp add: open_manager_def install_def run_state_bind run_fault open_document_def ok_def)
qed

theorem manager_durable_witness:
  "\<exists>u. run_state (open_manager sample_kdf [] [] []) (set_up_vault\<lparr>h_faults := []\<rparr>) = (Inr (), u) \<and>
     vt_state u = vt_state set_up_vault \<and> vt_state u \<noteq> None"
proof -
  have blank: "vault_reachable sample_kdf blank_vault"
    by (rule vault_reachable.start) (simp_all add: blank_vault_def)
  obtain sc st where "run_state (initialize sample_kdf) blank_vault = (Inr sc, set_up_vault)" "vt_state set_up_vault = Some st"
    by (rule set_up_run)
  then have "run_state (run_call sample_kdf CInitialize) blank_vault = (Inr (), set_up_vault)" "vt_state set_up_vault \<noteq> None"
    by (simp_all add: drop_result_def run_state_bind)
  with manager_durable [OF blank _ this(1), of "[]" "[]" "[]"] show ?thesis by auto
qed

text \<open>
  C36. A crash at any point of writing the identity file: the file at the path is the old one, or it
  reads back as exactly the new state and only its owner can read it.
\<close>

theorem crash_atomic:
  assumes "document st = Some data" "state_ok st"
  shows "dk_file (fold (\<lambda>f. f) (take n (write_steps data)) d) = dk_file d \<or>
    (\<exists>f. dk_file (fold (\<lambda>f. f) (take n (write_steps data)) d) = Some f \<and>
      read_document (fl_data f) = Some (Some st) \<and> fl_mode f = private_mode)"
proof -
  have "read_document data = Some (Some st)"
    using assms read_document_json by (auto simp: document_def split: if_splits)
  then show ?thesis using after_steps_file [of n data d] by (auto simp: after_steps_def)
qed

theorem crash_atomic_witness:
  "\<exists>st data f. document st = Some data \<and> ds_admin st = hash_text sample_kdf ''k'' [] \<and>
     dk_file (fold (\<lambda>f. f) (take 6 (write_steps data)) \<lparr>dk_file = None, dk_temp = None\<rparr>) = Some f \<and>
     read_document (fl_data f) = Some (Some st)"
proof -
  let ?st = "fresh_state [] (hash_text sample_kdf ''k'' []) ''k'' True 0" and ?d = "\<lparr>dk_file = None, dk_temp = None\<rparr>"
  have times: "times_ok ?st" by (simp add: times_ok_def fresh_state_def text_year_0)
  then obtain data where data: "document ?st = Some data" by (simp add: document_def)
  have ok: "state_ok ?st"
    using times texts_ok_fresh by (simp add: state_ok_iff times_ok_def)
  have "dk_file (fold (\<lambda>f. f) (take 6 (write_steps data)) ?d) \<noteq> dk_file ?d"
    using after_steps_file [of 6 data ?d] by (simp add: after_steps_def)
  with crash_atomic [OF data ok, of 6 ?d] obtain f where
    "dk_file (fold (\<lambda>f. f) (take 6 (write_steps data)) ?d) = Some f" "read_document (fl_data f) = Some (Some ?st)"
    by blast
  moreover have "ds_admin ?st = hash_text sample_kdf ''k'' []" by (simp add: fresh_state_def)
  ultimately show ?thesis using data by blast
qed

lemma run_steps_stop:
  "h_faults s = replicate n False @ [True] \<Longrightarrow> n < length fs \<Longrightarrow>
     \<exists>t. run_state (run_steps fs) s = (Inl DiskFault, t) \<and> vt_disk t = fold (\<lambda>f. f) (take n fs) (vt_disk s) \<and>
       vt_state t = vt_state s"
proof (induction fs arbitrary: n s)
  case (Cons f fs)
  show ?case
  proof (cases n)
    case 0
    with Cons.prems show ?thesis by (simp add: run_state_bind run_fault fail_def)
  next
    case (Suc m)
    let ?s = "s\<lparr>h_faults := replicate m False @ [True], vt_disk := f (vt_disk s)\<rparr>"
    from Cons.IH [of ?s m] Cons.prems Suc obtain t where
      "run_state (run_steps fs) ?s = (Inl DiskFault, t)" "vt_disk t = fold (\<lambda>f. f) (take m fs) (f (vt_disk s))"
      "vt_state t = vt_state s" by auto
    with Cons.prems Suc show ?thesis by (simp add: run_state_bind run_fault disk_do_def)
  qed
qed simp

text \<open>
  C37. The one step after which failure and effect come apart: when the rename has put the new file in
  place and setting its permissions fails, the operation reports an error and takes the new state
  back in memory, but the file holds it, and the next start of the process brings it into force.
\<close>

theorem late_fault:
  assumes "vt_state s = Some old" "h_faults s = replicate 7 False @ [True]" "times_ok new"
  shows "\<exists>t. run_state (save old new v) s = (Inl DiskFault, t) \<and> vt_state t = Some old \<and>
    written new (dk_file (vt_disk t))"
proof -
  obtain data where d: "document new = Some data" using assms(3) by (simp add: document_def)
  let ?s = "s\<lparr>vt_state := Some new\<rparr>"
  have "h_faults ?s = False # replicate 6 False @ [True]" using assms(2) by (simp add: numeral_eq_Suc)
  then obtain u where u: "run_state (run_steps [id]) ?s = (Inr (), u)" "h_faults u = replicate 6 False @ [True]"
    "vt_disk u = vt_disk s" "vt_state u = Some new"
    by (simp add: run_state_bind run_fault disk_do_def ok_def)
  have "6 < length (write_steps data)" by (simp add: write_steps_def)
  from run_steps_stop [OF u(2) this] obtain w where w: "run_state (run_steps (write_steps data)) u = (Inl DiskFault, w)"
    "vt_disk w = after_steps 6 data (vt_disk u)" "vt_state w = Some new"
    using u(4) by (auto simp: after_steps_def)
  from d u(1) w have "run_state (persist new) ?s = (Inl DiskFault, w\<lparr>vt_disk := set_temp None (vt_disk w)\<rparr>)"
    by (simp add: persist_def try_bind_def run_state_bind disk_do_def del: run_steps.simps)
  then show ?thesis
    using d w(2) by (simp add: save_def put_state_def run_state_bind fail_def written_def set_temp_def after_steps_file)
qed

theorem late_fault_witness:
  "\<exists>t f. run_state (save (fresh_state [] [] [] False 0) (fresh_state [] [] ''k'' True 0) ())
       (blank_vault\<lparr>vt_state := Some (fresh_state [] [] [] False 0), h_faults := replicate 7 False @ [True]\<rparr>) =
       (Inl DiskFault, t) \<and>
     vt_state t = Some (fresh_state [] [] [] False 0) \<and> dk_file (vt_disk t) = Some f \<and>
     document (fresh_state [] [] ''k'' True 0) = Some (fl_data f)"
proof -
  have "times_ok (fresh_state [] [] ''k'' True 0)" by (simp add: times_ok_def fresh_state_def text_year_0)
  from late_fault [OF _ _ this, of "blank_vault\<lparr>vt_state := Some (fresh_state [] [] [] False 0),
      h_faults := replicate 7 False @ [True]\<rparr>" "fresh_state [] [] [] False 0" "()"]
  show ?thesis by (auto simp: written_def)
qed

end
