(* ===== verification/Reports.thy ===== *)
theory Reports
  imports StoreLaws
begin

text \<open>
  The reports of internal/store/sqlite.go: the list of requests, the totals by client and the
  dashboard. A report reads the rows of a window; its sums are SQLite's SUM over 64-bit integers,
  which passes over NULL and fails when a partial sum leaves the range.
\<close>

section \<open>Aggregates\<close>

text \<open>SUM with COALESCE(..., 0), over the rows in their order.\<close>

fun sum_from :: "int \<Rightarrow> int option list \<Rightarrow> int option" where
  "sum_from s [] = Some s"
| "sum_from s (None # vs) = sum_from s vs"
| "sum_from s (Some v # vs) = (if in_int64 (s + v) then sum_from (s + v) vs else None)"

definition sql_sum :: "(request_row \<Rightarrow> int option) \<Rightarrow> request_row list \<Rightarrow> int option" where
  "sql_sum f rows = sum_from 0 (map f rows)"

text \<open>COUNT of the rows with a property.\<close>

definition sql_count :: "(request_row \<Rightarrow> bool) \<Rightarrow> request_row list \<Rightarrow> int" where
  "sql_count P rows = int (length (filter P rows))"

text \<open>
  CAST(ROUND(COALESCE(AVG(...), 0)) AS INTEGER): the mean, halves away from zero. SQLite computes
  the mean as a double, which agrees with the exact one as long as the sum is below 2^52.
\<close>

definition round_mean :: "int list \<Rightarrow> int" where
  "round_mean vs =
     (let s = sum_list vs; n = int (length vs) in
      if vs = [] then 0
      else if 0 \<le> s then (2 * s + n) div (2 * n) else - ((2 * - s + n) div (2 * n)))"

text \<open>GROUP BY: the values of the column, each with its rows.\<close>

definition group_rows :: "(request_row \<Rightarrow> 'k) \<Rightarrow> request_row list \<Rightarrow> ('k \<times> request_row list) list" where
  "group_rows f rows = map (\<lambda>k. (k, filter (\<lambda>r. f r = k) rows)) (remdups (map f rows))"

definition succeeded :: "request_row \<Rightarrow> bool" where
  "succeeded r \<longleftrightarrow> pr_outcome r = ''success''"

definition ended_badly :: "request_row \<Rightarrow> bool" where
  "ended_badly r \<longleftrightarrow> pr_outcome r \<noteq> [] \<and> pr_outcome r \<noteq> ''success''"

definition failed_over :: "request_row \<Rightarrow> bool" where
  "failed_over r \<longleftrightarrow> 1 < pr_attempts r"

definition usage_complete :: "request_row \<Rightarrow> bool" where
  "usage_complete r \<longleftrightarrow> pr_usage_state r = ''complete''"

text \<open>The four sums of tokens every report has.\<close>

record tokens =
  tk_uncached :: int
  tk_read :: int
  tk_write :: int
  tk_output :: int

definition token_sums :: "request_row list \<Rightarrow> tokens option" where
  "token_sums rows =
     (case (sql_sum pr_uncached rows, sql_sum pr_cache_read rows, sql_sum pr_cache_write rows, sql_sum pr_output rows) of
        (Some a, Some b, Some c, Some e) \<Rightarrow> Some \<lparr>tk_uncached = a, tk_read = b, tk_write = c, tk_output = e\<rparr>
      | _ \<Rightarrow> None)"

text \<open>The rows of a window: started_at is compared as a text.\<close>

definition in_window :: "string \<Rightarrow> db \<Rightarrow> request_row list" where
  "in_window since d = filter (\<lambda>r. since \<le> pr_started r) (db_requests d)"

text \<open>A query that can fail by an overflow.\<close>

definition query_sum :: "(db \<Rightarrow> 'a option) \<Rightarrow> ('z, 'a) db_op" where
  "query_sum f = try_bind (query f) (\<lambda>r. case r of None \<Rightarrow> fail IntegerOverflow | Some v \<Rightarrow> ok v)"

section \<open>The list of requests\<close>

definition scan_request :: "db \<Rightarrow> request_row \<Rightarrow> request_record" where
  "scan_request d r =
     \<lparr>rq_id = pr_id r, rq_started = parse_time (pr_started r), rq_finished = parse_null_time (pr_finished r),
      rq_client = pr_client r, rq_client_name = pr_client_name r, rq_protocol = pr_protocol r,
      rq_model = pr_model r, rq_stream = (pr_stream r \<noteq> 0), rq_bytes = pr_bytes r,
      rq_messages = pr_messages r, rq_tools = pr_tools r, rq_final_key = pr_final_key r,
      rq_final_name =
        (case pr_final_key r of
           None \<Rightarrow> []
         | Some i \<Rightarrow> (case find (\<lambda>k. kr_id k = i) (db_keys d) of None \<Rightarrow> [] | Some k \<Rightarrow> kr_name k)),
      rq_attempts = pr_attempts r, rq_status = pr_status r, rq_outcome = pr_outcome r, rq_error = pr_error r,
      rq_latency = pr_latency r, rq_ttft = pr_ttft r, rq_uncached = pr_uncached r,
      rq_cache_read = pr_cache_read r, rq_cache_write = pr_cache_write r, rq_output = pr_output r,
      rq_reasoning = pr_reasoning r, rq_total_input = pr_total_input r, rq_usage_state = pr_usage_state r\<rparr>"

definition report_limit :: "int \<Rightarrow> nat" where
  "report_limit n = (if n \<le> 0 \<or> 500 < n then 100 else nat n)"

definition wanted :: "int \<Rightarrow> string \<Rightarrow> request_row \<Rightarrow> bool" where
  "wanted i model r \<longleftrightarrow> (0 < i \<longrightarrow> pr_final_key r = Some i) \<and> (model \<noteq> [] \<longrightarrow> pr_model r = model)"

text \<open>ORDER BY started_at DESC; rows of one text in the order of their insertion.\<close>

definition newest_first :: "request_row list \<Rightarrow> request_row list" where
  "newest_first rows = rev (sort_key pr_started (rev rows))"

definition recent_requests :: "int \<Rightarrow> int \<Rightarrow> string \<Rightarrow> ('z, request_record list) db_op" where
  "recent_requests lim i model =
     query (\<lambda>d. map (scan_request d) (take (report_limit lim) (newest_first (filter (wanted i model) (db_requests d)))))"

section \<open>Totals by client\<close>

definition client_total :: "string \<times> request_row list \<Rightarrow> client_aggregate option" where
  "client_total g =
     (case g of (i, rows) \<Rightarrow>
        map_option (\<lambda>t.
          \<lparr>ca_id = i, ca_name = Max (set (map pr_client_name rows)), ca_requests = int (length rows),
           ca_successes = sql_count succeeded rows, ca_failures = sql_count ended_badly rows,
           ca_failovers = sql_count failed_over rows, ca_uncached = tk_uncached t, ca_cache_read = tk_read t,
           ca_cache_write = tk_write t, ca_output = tk_output t, ca_complete = sql_count usage_complete rows,
           ca_latency = round_mean (map pr_latency (filter (\<lambda>r. pr_outcome r \<noteq> []) rows))\<rparr>)
          (token_sums rows))"

text \<open>ORDER BY COUNT(*) DESC, client_id.\<close>

definition busiest_first :: "client_aggregate list \<Rightarrow> client_aggregate list" where
  "busiest_first cs = sort_key (\<lambda>c. - ca_requests c) (sort_key ca_id cs)"

definition client_totals :: "string \<Rightarrow> db \<Rightarrow> client_aggregate list option" where
  "client_totals since d =
     map_option busiest_first (those (map client_total (group_rows pr_client (in_window since d))))"

definition client_aggregates :: "time \<Rightarrow> ('z, client_aggregate list) db_op" where
  "client_aggregates since = query_sum (client_totals (format_time since))"

section \<open>The dashboard\<close>

definition key_label :: "key \<Rightarrow> string" where
  "key_label k =
     (if \<not> k_enabled k then ''disabled'' else if k_auth k = ''invalid'' then ''invalid'' else k_quota k)"

text \<open>The counts of the labels, as a map.\<close>

definition key_counts :: "key list \<Rightarrow> (string \<times> int) list" where
  "key_counts ks =
     map (\<lambda>l. (l, int (length (filter (\<lambda>k. key_label k = l) ks)))) (remdups (map key_label ks))"

definition active_key :: "key list \<Rightarrow> key option" where
  "active_key ks = find (\<lambda>k. k_role k = ''active'') (rev ks)"

definition no_dashboard :: "key list \<Rightarrow> dashboard" where
  "no_dashboard ks =
     \<lparr>da_active = active_key ks, da_key_counts = key_counts ks, da_requests = 0, da_successes = 0,
      da_failures = 0, da_failovers = 0, da_uncached = 0, da_cache_read = 0, da_cache_write = 0,
      da_output = 0, da_complete = 0, da_timeline = [], da_by_key = []\<rparr>"

definition window_totals :: "string \<Rightarrow> db \<Rightarrow> (dashboard \<Rightarrow> dashboard) option" where
  "window_totals since d =
     (let rows = in_window since d in
      map_option (\<lambda>t b. b
        \<lparr>da_requests := int (length rows), da_successes := sql_count succeeded rows,
         da_failures := sql_count (\<lambda>r. \<not> succeeded r) rows, da_failovers := sql_count failed_over rows,
         da_uncached := tk_uncached t, da_cache_read := tk_read t, da_cache_write := tk_write t,
         da_output := tk_output t, da_complete := sql_count usage_complete rows\<rparr>)
        (token_sums rows))"

text \<open>strftime('%Y-%m-%dT%H:00:00Z', ...) of a text with date and hour.\<close>

definition hour_text :: "string \<Rightarrow> string" where
  "hour_text s = take 13 s @ '':00:00Z''"

definition timeline_total :: "string \<times> request_row list \<Rightarrow> timeline_point option" where
  "timeline_total g =
     (case g of (b, rows) \<Rightarrow>
        map_option (\<lambda>t.
          \<lparr>tp_bucket = parse_time b, tp_uncached = tk_uncached t, tp_cache_read = tk_read t,
           tp_cache_write = tk_write t, tp_output = tk_output t, tp_requests = int (length rows)\<rparr>)
          (token_sums rows))"

text \<open>
  The rows of a query whose error is not looked at after the last row: a failure of the first row is
  an error of the query, one of a later row ends the list.
\<close>

definition until_failure :: "'a option list \<Rightarrow> 'a list option" where
  "until_failure vs =
     (case vs of None # _ \<Rightarrow> None | _ \<Rightarrow> Some (map the (takeWhile (\<lambda>v. v \<noteq> None) vs)))"

definition timeline :: "string \<Rightarrow> db \<Rightarrow> timeline_point list option" where
  "timeline since d =
     until_failure
       (map timeline_total (sort_key fst (group_rows (\<lambda>r. hour_text (pr_started r)) (in_window since d))))"

definition key_total :: "request_row list \<Rightarrow> key_row \<Rightarrow> key_aggregate option" where
  "key_total rows k =
     (let mine = filter (\<lambda>r. pr_final_key r = Some (kr_id k)) rows in
      map_option (\<lambda>t.
        \<lparr>ka_id = kr_id k, ka_name = kr_name k, ka_requests = int (length mine),
         ka_successes = sql_count succeeded mine, ka_uncached = tk_uncached t, ka_cache_read = tk_read t,
         ka_cache_write = tk_write t, ka_output = tk_output t,
         ka_latency = round_mean (map pr_latency mine)\<rparr>)
        (token_sums mine))"

definition by_key :: "string \<Rightarrow> db \<Rightarrow> key_aggregate list option" where
  "by_key since d = those (map (key_total (in_window since d)) (sort_key list_rank (db_keys d)))"

definition read_dashboard :: "time \<Rightarrow> ('z, dashboard) db_op" where
  "read_dashboard since =
     (let s = format_time since in
      try_bind list_keys (\<lambda>ks.
      try_bind (query_sum (window_totals s)) (\<lambda>totals.
      try_bind (query_sum (timeline s)) (\<lambda>points.
      try_bind (query_sum (by_key s)) (\<lambda>shares.
        ok ((totals (no_dashboard ks))\<lparr>da_timeline := points, da_by_key := shares\<rparr>))))))"

end
