(* ===== verification/ReportProps.thy ===== *)
theory ReportProps
  imports Reports
begin

text \<open>
  What the reports say about the table of requests: the parts of the dashboard add up to its
  totals, the totals by client divide the window, and the list of requests is the newest part of
  what was asked for.
\<close>

section \<open>Sums\<close>


definition plain_sum :: "int option list \<Rightarrow> int" where
  "plain_sum vs = sum_list (map (\<lambda>v. case v of None \<Rightarrow> 0 | Some n \<Rightarrow> n) vs)"

lemma plain_sum_simps [simp]:
  "plain_sum [] = 0" "plain_sum (None # vs) = plain_sum vs" "plain_sum (Some n # vs) = n + plain_sum vs"
  by (simp_all add: plain_sum_def)







definition col_sum :: "(request_row \<Rightarrow> int option) \<Rightarrow> request_row list \<Rightarrow> int" where
  "col_sum f rows = plain_sum (map f rows)"

lemma col_sum_simps [simp]:
  "col_sum f [] = 0" "col_sum f (r # rows) = (case f r of None \<Rightarrow> 0 | Some n \<Rightarrow> n) + col_sum f rows"
  by (simp_all add: col_sum_def split: option.split)









section \<open>Groups\<close>










section \<open>The dashboard\<close>









section \<open>The totals by client\<close>


lemma busiest_set [simp]: "set (busiest_first cs) = set cs"
  by (simp add: busiest_first_def)








section \<open>The list of requests\<close>


lemma set_newest [simp]: "set (newest_first rows) = set rows" "length (newest_first rows) = length rows"
  by (simp_all add: newest_first_def)



section \<open>The hours of the timeline\<close>

lemma hour_start:
  shows "secs (t - t mod hour) = secs t - secs t mod 3600" "(t - t mod hour) mod second = 0"
proof -
  have h: "t - t mod hour = second * (3600 * (secs t div 3600))"
  proof -
    have "t div second div 3600 = t div hour" using zdiv_zmult2_eq [of 3600 t second] by (simp add: duration_defs)
    moreover have "t - t mod hour = hour * (t div hour)" by (simp add: minus_mod_eq_mult_div)
    ultimately show ?thesis by (simp add: secs_def duration_defs)
  qed
  have "secs (t - t mod hour) = 3600 * (secs t div 3600)" unfolding h by (simp add: secs_def second_def)
  then show "secs (t - t mod hour) = secs t - secs t mod 3600" by (simp add: minus_mod_eq_mult_div)
  show "(t - t mod hour) mod second = 0" unfolding h by simp
qed

lemma date_hour: "date_of (t - t mod hour) = date_of t"
proof -
  have "(secs t - secs t mod 3600) div 86400 = secs t div 86400"
  proof -
    have "secs t div 3600 div 24 = secs t div 86400" using zdiv_zmult2_eq [of 24 "secs t" 3600] by simp
    moreover have "(3600 * (secs t div 3600)) div 3600 div 24 = (3600 * (secs t div 3600)) div 86400"
      using zdiv_zmult2_eq [of 24 "3600 * (secs t div 3600)" 3600] by simp
    ultimately show ?thesis by (simp add: minus_mod_eq_mult_div)
  qed
  then show ?thesis by (simp add: date_of_def hour_start)
qed

lemma day_hour: "(n - n mod 3600) mod 86400 = 3600 * (n mod 86400 div 3600)" for n :: int
proof -
  have "n mod 86400 = 3600 * (n div 3600 mod 24) + n mod 3600"
    using zmod_zmult2_eq [of 24 n 3600] by simp
  moreover have "(3600 * (n div 3600 mod 24) + n mod 3600) div 3600 = n div 3600 mod 24"
    by simp
  ultimately have "n mod 86400 div 3600 = n div 3600 mod 24" by (simp only:)
  moreover have "3600 * (n div 3600) mod 86400 = 3600 * (n div 3600 mod 24)"
    using mod_mult_mult1 [of 3600 "n div 3600" 24] by simp
  ultimately show ?thesis by (simp add: minus_mod_eq_mult_div)
qed

lemma pad_zero: "pad_dec 2 0 = ''00''"
  by code_simp

lemma clock_hour: "0 \<le> k \<Longrightarrow> clock_text (3600 * k) = pad_dec 2 k @ '':00:00''"
  by (simp add: clock_text_def pad_zero)

lemma frac_zero: "frac_text 0 = []"
  by (simp add: frac_text_def)

lemma hour_text_format:
  assumes "text_year t"
  shows "hour_text (format_time t) = format_time (t - t mod hour)"
proof -
  obtain y m d where ymd: "date_of t = (y, m, d)" by (cases "date_of t")
  let ?k = "secs t mod 86400 div 3600"
  have k: "0 \<le> ?k" by (simp add: pos_imp_zdiv_nonneg_iff)
  have y: "length (year_text y) = 4" using assms ymd by (simp add: text_year_def year_text_def)
  have "clock_text (secs t mod 86400) =
      pad_dec 2 ?k @ '':'' @ pad_dec 2 (secs t mod 86400 div 60 mod 60) @ '':'' @ pad_dec 2 (secs t mod 86400 mod 60)"
    by (simp add: clock_text_def)
  then have "take 13 (format_time t) = year_text y @ ''-'' @ pad_dec 2 m @ ''-'' @ pad_dec 2 d @ ''T'' @ pad_dec 2 ?k"
    using y by (simp add: format_time_def ymd)
  moreover have "format_time (t - t mod hour) =
      year_text y @ ''-'' @ pad_dec 2 m @ ''-'' @ pad_dec 2 d @ ''T'' @ pad_dec 2 ?k @ '':00:00'' @ ''Z''"
    using k by (simp add: format_time_def date_hour ymd hour_start day_hour clock_hour frac_zero)
  ultimately show ?thesis by (simp add: hour_text_def)
qed

text \<open>
  The bucket of a request in the timeline is the beginning of the hour it started in.
\<close>

lemma timeline_hours:
  assumes "text_year t" "pr_started r = format_time t"
  shows "parse_time (hour_text (pr_started r)) = t - t mod hour"
proof -
  have "text_year (t - t mod hour)" using assms(1) by (simp add: text_year_def date_hour)
  then show ?thesis using assms by (simp add: hour_text_format parse_time_def parse_format_time)
qed

section \<open>A table to look at\<close>










end
