(* ===== verification/GoPath.thy ===== *)
theory GoPath
  imports GoStrings
begin

text \<open>
  path/filepath on Unix: Clean, Dir, Join and Ext, and the elements of a path below a directory.
\<close>

section \<open>Clean\<close>

text \<open>The elements of a path, with the ones already taken in reverse.\<close>

fun clean_parts :: "bool \<Rightarrow> string list \<Rightarrow> string list \<Rightarrow> string list" where
  "clean_parts rooted st [] = rev st"
| "clean_parts rooted st (p # ps) =
     (if p = [] \<or> p = ''.'' then clean_parts rooted st ps
      else if p = ''..'' then
        (case st of
           [] \<Rightarrow> clean_parts rooted (if rooted then [] else [p]) ps
         | q # qs \<Rightarrow> clean_parts rooted (if q = ''..'' then p # st else qs) ps)
      else clean_parts rooted (p # st) ps)"

definition rooted_path :: "string \<Rightarrow> bool" where
  "rooted_path s \<longleftrightarrow> prefix ''/'' s"

definition path_parts :: "string \<Rightarrow> string list" where
  "path_parts s = clean_parts (rooted_path s) [] (split_on (CHR ''/'') s)"

definition clean_path :: "string \<Rightarrow> string" where
  "clean_path s =
     (let t = join ''/'' (path_parts s)
      in if rooted_path s then CHR ''/'' # t else if t = [] then ''.'' else t)"

section \<open>Dir, Join and Ext\<close>

definition dir_path :: "string \<Rightarrow> string" where
  "dir_path s = clean_path (rev (dropWhile (\<lambda>c. c \<noteq> CHR ''/'') (rev s)))"

definition join_path :: "string list \<Rightarrow> string" where
  "join_path es =
     (case dropWhile (\<lambda>e. e = []) es of [] \<Rightarrow> [] | fs \<Rightarrow> clean_path (join ''/'' fs))"

definition path_ext :: "string \<Rightarrow> string" where
  "path_ext s =
     (let n = takeWhile (\<lambda>c. c \<noteq> CHR ''/'') (rev s); e = takeWhile (\<lambda>c. c \<noteq> CHR ''.'') n
      in if length e < length n then CHR ''.'' # rev e else [])"

section \<open>The elements of cleaned paths\<close>

text \<open>An element of a path that names a file or directory below the one before it.\<close>

definition name_part :: "string \<Rightarrow> bool" where
  "name_part p \<longleftrightarrow> p \<notin> {[], ''.'', ''..''} \<and> CHR ''/'' \<notin> set p"

lemma split_on_append: "split_on c (s @ c # t) = split_on c s @ split_on c t"
  by (induction s) (simp_all split: list.split)

lemma split_on_word: "c \<notin> set s \<Longrightarrow> split_on c s = [s]"
  by (induction s) (auto split: list.split)

lemma split_on_free: "p \<in> set (split_on c s) \<Longrightarrow> c \<notin> set p"
  by (induction c s arbitrary: p rule: split_on.induct) (auto split: if_splits list.splits)

lemma split_on_join: "ps \<noteq> [] \<Longrightarrow> list_all (\<lambda>p. c \<notin> set p) ps \<Longrightarrow> split_on c (join [c] ps) = ps"
proof (induction ps)
  case (Cons p ps)
  then show ?case by (cases ps) (simp_all add: split_on_append split_on_word)
qed simp

lemma clean_parts_append: "clean_parts r st (ps @ qs) = clean_parts r (rev (clean_parts r st ps)) qs"
proof (induction ps arbitrary: st)
  case (Cons p ps)
  then show ?case by (cases st) simp_all
qed simp

lemma clean_parts_names: "list_all name_part ps \<Longrightarrow> clean_parts r st ps = rev st @ ps"
  by (induction ps arbitrary: st) (simp_all add: name_part_def)

lemma clean_parts_rooted:
  "list_all name_part st \<Longrightarrow> list_all (\<lambda>p. CHR ''/'' \<notin> set p) ps \<Longrightarrow> list_all name_part (clean_parts True st ps)"
proof (induction ps arbitrary: st)
  case (Cons p ps)
  then show ?case by (cases st) (auto simp: name_part_def)
qed (simp add: list_all_iff)

lemma rooted_parts: "rooted_path s \<Longrightarrow> list_all name_part (path_parts s)"
  unfolding path_parts_def by (simp add: clean_parts_rooted list_all_iff [where P = "\<lambda>p. CHR ''/'' \<notin> set p"] split_on_free)

lemma join_names: "list_all name_part ps \<Longrightarrow> join ''/'' ps \<noteq> ''.'' \<and> (join ''/'' ps = [] \<longleftrightarrow> ps = []) \<and> \<not> rooted_path (join ''/'' ps)"
  by (cases ps; cases "hd ps") (auto simp: join_cons name_part_def rooted_path_def)

lemma join_below:
  assumes "ps \<noteq> []" "list_all name_part ps"
  shows "join_path [root, join ''/'' ps] =
    (if rooted_path root then ''/'' else []) @ join ''/'' (path_parts root @ ps)"
proof -
  have free: "split_on (CHR ''/'') (join ''/'' ps) = ps"
    using assms by (intro split_on_join) (auto simp: name_part_def list_all_iff)
  have names: "join ''/'' ps \<noteq> []" "\<not> rooted_path (join ''/'' ps)"
    using join_names [OF assms(2)] assms(1) by auto
  let ?full = "join ''/'' (dropWhile (\<lambda>e. e = []) [root, join ''/'' ps])"
  have parts: "path_parts ?full = path_parts root @ ps \<and> rooted_path ?full = rooted_path root"
  proof (cases "root = []")
    case True
    with assms free names show ?thesis
      by (simp_all add: path_parts_def clean_parts_names rooted_path_def)
  next
    case False
    then have "rooted_path (root @ CHR ''/'' # join ''/'' ps) = rooted_path root"
      by (cases root) (simp_all add: rooted_path_def)
    with False assms free show ?thesis
      by (simp_all add: path_parts_def split_on_append clean_parts_append clean_parts_names)
  qed
  have "join_path [root, join ''/'' ps] = clean_path ?full" using names by (simp add: join_path_def)
  moreover have "join ''/'' (path_parts root @ ps) \<noteq> []"
    using assms by (cases "path_parts root"; cases ps) (auto simp: join_cons name_part_def)
  ultimately show ?thesis using parts by (simp add: clean_path_def)
qed

end
