(* ===== verification/GoDuration.thy ===== *)
theory GoDuration
  imports GoFloat GoTime
begin

text \<open>
  time.ParseDuration: an optional sign, then numbers with a fraction and a unit. The sums are
  64-bit and unsigned; a fraction is scaled in float64.
\<close>

section \<open>Numbers\<close>

text \<open>leadingInt: the digits, an error when the number exceeds 2 to the 63.\<close>

fun leading_int :: "int \<Rightarrow> string \<Rightarrow> (int \<times> string) option" where
  "leading_int x [] = Some (x, [])"
| "leading_int x (c # s) =
     (if \<not> is_digit c then Some (x, c # s)
      else if 2 ^ 63 div 10 < x then None
      else let y = 10 * x + digit_val c in if 2 ^ 63 < y then None else leading_int y s)"

text \<open>leadingFraction: the digits and the power of ten, as far as they fit; the rest is passed over.\<close>

fun leading_fraction :: "bool \<Rightarrow> int \<Rightarrow> int \<Rightarrow> string \<Rightarrow> int \<times> int \<times> string" where
  "leading_fraction full x scale [] = (x, scale, [])"
| "leading_fraction full x scale (c # s) =
     (if \<not> is_digit c then (x, scale, c # s)
      else if full \<or> (2 ^ 63 - 1) div 10 < x then leading_fraction True x scale s
      else let y = 10 * x + digit_val c in
        if 2 ^ 63 < y then leading_fraction True x scale s else leading_fraction False y (10 * scale) s)"

definition micro_signs :: "string list" where
  "micro_signs = [''us'', [CHR 0xC2, CHR 0xB5, CHR ''s''], [CHR 0xCE, CHR 0xBC, CHR ''s'']]"

definition unit_of :: "string \<Rightarrow> duration option" where
  "unit_of u =
     (if u = ''ns'' then Some 1
      else if u \<in> set micro_signs then Some 1000
      else if u = ''ms'' then Some millisecond
      else if u = ''s'' then Some second
      else if u = ''m'' then Some minute
      else if u = ''h'' then Some hour
      else None)"

text \<open>uint64(float64(f) * (float64(unit) / scale)); the scale is a float64 as well.\<close>

definition scaled_fraction :: "int \<Rightarrow> duration \<Rightarrow> int \<Rightarrow> int" where
  "scaled_fraction f unit scale =
     (case round_f64 False scale 1 of
        None \<Rightarrow> 0
      | Some sc \<Rightarrow>
          let (a, b) = frac_of sc in
          (case (round_f64 False f 1, round_f64 False (unit * b) a) of
             (Some x, Some y) \<Rightarrow> (case mult_f64 x y of Some z \<Rightarrow> trunc_f64 z | None \<Rightarrow> 0)
           | _ \<Rightarrow> 0))"

section \<open>ParseDuration\<close>

definition is_unit_char :: "char \<Rightarrow> bool" where
  "is_unit_char c \<longleftrightarrow> c \<noteq> CHR ''.'' \<and> \<not> is_digit c"

text \<open>One number with its unit: its value and what follows it.\<close>

definition duration_item :: "string \<Rightarrow> (int \<times> string) option" where
  "duration_item s =
     (case leading_int 0 s of
        None \<Rightarrow> None
      | Some (v, s1) \<Rightarrow>
          let pre = (s1 \<noteq> s);
              dot = prefix ''.'' s1;
              (f, scale, s2) = (if dot then leading_fraction False 0 1 (drop 1 s1) else (0, 1, s1));
              post = (dot \<and> s2 \<noteq> drop 1 s1);
              u = takeWhile is_unit_char s2
          in if \<not> pre \<and> \<not> post \<or> u = [] then None
             else case unit_of u of
                 None \<Rightarrow> None
               | Some unit \<Rightarrow>
                   if 2 ^ 63 div unit < v then None
                   else let w = v * unit + (if 0 < f then scaled_fraction f unit scale else 0)
                     in if 2 ^ 63 < w then None else Some (w, drop (length u) s2))"

lemma leading_int_length: "leading_int x s = Some (v, t) \<Longrightarrow> length t \<le> length s"
  by (induction x s rule: leading_int.induct) (auto simp: Let_def split: if_splits)

lemma leading_fraction_length: "leading_fraction b x sc s = (v, sc', t) \<Longrightarrow> length t \<le> length s"
  by (induction b x sc s rule: leading_fraction.induct) (auto simp: Let_def split: if_splits)

lemma duration_item_shorter: "duration_item s = Some (v, t) \<Longrightarrow> length t < length s"
proof -
  assume a: "duration_item s = Some (v, t)"
  then obtain v1 s1 where s1: "leading_int 0 s = Some (v1, s1)" by (auto simp: duration_item_def split: option.splits)
  obtain f sc s2 where s2: "(if prefix ''.'' s1 then leading_fraction False 0 1 (drop 1 s1) else (0, 1, s1)) = (f, sc, s2)"
    by (metis prod_cases3)
  have "length s2 \<le> length s1"
    using s2 leading_fraction_length [of False 0 1 "drop 1 s1" f sc s2] by (auto split: if_splits)
  moreover have "takeWhile is_unit_char s2 \<noteq> []" "t = drop (length (takeWhile is_unit_char s2)) s2"
    using a s1 s2 by (auto simp: duration_item_def Let_def split: if_splits option.splits)
  then have "length t < length s2" by (cases s2) (auto split: if_splits)
  ultimately show ?thesis using leading_int_length [OF s1] by simp
qed

function duration_sum :: "int \<Rightarrow> string \<Rightarrow> int option" where
  "duration_sum d s =
     (if s = [] then Some d
      else case duration_item s of
          None \<Rightarrow> None
        | Some (v, t) \<Rightarrow> if 2 ^ 63 < d + v then None else duration_sum (d + v) t)"
  by pat_completeness auto
termination
  by (relation "measure (\<lambda>(d, s). length s)") (auto dest: duration_item_shorter)

declare duration_sum.simps [simp del]

definition parse_duration :: "string \<Rightarrow> duration option" where
  "parse_duration s =
     (let neg = prefix ''-'' s; t = (if neg \<or> prefix ''+'' s then drop 1 s else s)
      in if t = ''0'' then Some 0
         else if t = [] then None
         else case duration_sum 0 t of
             None \<Rightarrow> None
           | Some d \<Rightarrow> if neg then Some (wrap64 (- d)) else if 2 ^ 63 - 1 < d then None else Some d)"

lemma parse_duration_examples:
  "parse_duration ''10m'' = Some (10 * minute)" "parse_duration ''1.5h'' = Some (90 * minute)"
  "parse_duration ''-1h30m'' = Some (- 90 * minute)" "parse_duration ''0.1s'' = Some (100 * millisecond)"
  "parse_duration ''10'' = None" "parse_duration ''.s'' = None"
  "parse_duration ''9223372036854775808ns'' = None"
  by code_simp+

end
