(* ===== verification/Config.thy ===== *)
theory Config
  imports GoPath GoDuration GoBytes
begin

text \<open>
  internal/config/config.go: the configuration from the environment, in which an unset variable
  reads as the empty text.
\<close>

section \<open>Variables\<close>

type_synonym environment = "string \<Rightarrow> string"

definition env_text :: "environment \<Rightarrow> string \<Rightarrow> string \<Rightarrow> string" where
  "env_text en name fallback = (if en name \<noteq> [] then en name else fallback)"

definition env_duration :: "environment \<Rightarrow> string \<Rightarrow> duration \<Rightarrow> duration" where
  "env_duration en name fallback =
     (if en name = [] then fallback
      else case parse_duration (en name) of None \<Rightarrow> fallback | Some d \<Rightarrow> d)"

definition env_int64 :: "environment \<Rightarrow> string \<Rightarrow> int \<Rightarrow> int" where
  "env_int64 en name fallback =
     (if en name = [] then fallback
      else case atoi (en name) of None \<Rightarrow> fallback | Some n \<Rightarrow> if n \<le> 0 then fallback else n)"

section \<open>Load\<close>

record config =
  cf_listen :: string
  cf_database :: string
  cf_instance :: string
  cf_master :: string
  cf_admin :: string
  cf_bootstrap :: string
  cf_upstream :: string
  cf_request_timeout :: duration
  cf_idle_timeout :: duration
  cf_max_request :: int
  cf_retention :: duration
  cf_web :: string

datatype config_error =
    AccessKeyCombined
  | MasterKeyMissing
  | CredentialsIncomplete
  | MasterKeyInvalid
  | UpstreamForbidden

definition read_config :: "environment \<Rightarrow> config" where
  "read_config en =
     (let database = env_text en ''DATABASE_PATH'' ''data/opencodeproxy.db'' in
      \<lparr>cf_listen = env_text en ''LISTEN_ADDR'' ''0.0.0.0:8080'', cf_database = database,
       cf_instance = env_text en ''INSTANCE_PATH'' (join_path [dir_path database, ''instance.json'']),
       cf_master = [], cf_admin = en ''ADMIN_PASSWORD'', cf_bootstrap = en ''PROXY_TOKEN'',
       cf_upstream = env_text en ''UPSTREAM_BASE_URL'' ''https://opencode.ai/zen/go/v1'',
       cf_request_timeout = env_duration en ''REQUEST_TIMEOUT'' (10 * minute),
       cf_idle_timeout = env_duration en ''IDLE_TIMEOUT'' (2 * minute),
       cf_max_request = env_int64 en ''MAX_REQUEST_BYTES'' 67108864,
       cf_retention = env_duration en ''EVENT_RETENTION'' (30 * 24 * hour),
       cf_web = env_text en ''WEB_DIR'' ''web/dist''\<rparr>)"

text \<open>ACCESS_KEY stands for both the password and the token.\<close>

definition with_access_key :: "environment \<Rightarrow> config \<Rightarrow> config_error + config" where
  "with_access_key en c =
     (let key = en ''ACCESS_KEY'' in
      if key = [] then Inr c
      else if cf_admin c \<noteq> [] \<or> cf_bootstrap c \<noteq> [] then Inl AccessKeyCombined
      else if en ''MASTER_KEY'' = [] then Inl MasterKeyMissing
      else Inr (c\<lparr>cf_admin := key, cf_bootstrap := key\<rparr>))"

definition legacy_count :: "environment \<Rightarrow> config \<Rightarrow> nat" where
  "legacy_count en c = length (filter (\<lambda>s. s \<noteq> []) [en ''MASTER_KEY'', cf_admin c, cf_bootstrap c])"

definition with_master_key :: "environment \<Rightarrow> config \<Rightarrow> config_error + config" where
  "with_master_key en c =
     (if en ''MASTER_KEY'' = [] then Inr c
      else case b64_decode False True (en ''MASTER_KEY'') of
          None \<Rightarrow> Inl MasterKeyInvalid
        | Some k \<Rightarrow> if length k \<noteq> 32 then Inl MasterKeyInvalid else Inr (c\<lparr>cf_master := k\<rparr>))"

definition trusted_upstream :: string where
  "trusted_upstream = ''https://opencode.ai/''"

definition load_config :: "environment \<Rightarrow> config_error + config" where
  "load_config en =
     (case with_access_key en (read_config en) of
        Inl e \<Rightarrow> Inl e
      | Inr c \<Rightarrow>
          if legacy_count en c \<noteq> 0 \<and> legacy_count en c \<noteq> 3 then Inl CredentialsIncomplete
          else case with_master_key en c of
              Inl e \<Rightarrow> Inl e
            | Inr d \<Rightarrow>
                if \<not> prefix trusted_upstream (cf_upstream d) \<and> en ''ALLOW_CUSTOM_UPSTREAM'' \<noteq> ''true''
                then Inl UpstreamForbidden else Inr d)"

section \<open>What a loaded configuration guarantees\<close>

lemma legacy_count_cases:
  "legacy_count en c = 0 \<longleftrightarrow> en ''MASTER_KEY'' = [] \<and> cf_admin c = [] \<and> cf_bootstrap c = []"
  "legacy_count en c = 3 \<longleftrightarrow> en ''MASTER_KEY'' \<noteq> [] \<and> cf_admin c \<noteq> [] \<and> cf_bootstrap c \<noteq> []"
  by (simp_all add: legacy_count_def)

lemma load_config_Inr:
  assumes "load_config en = Inr c"
  obtains b where "with_access_key en (read_config en) = Inr b" "with_master_key en b = Inr c"
    "legacy_count en b = 0 \<or> legacy_count en b = 3"
    "prefix trusted_upstream (cf_upstream c) \<or> en ''ALLOW_CUSTOM_UPSTREAM'' = ''true''"
  using assms by (auto simp: load_config_def split: sum.splits if_splits)

lemma with_master_key_Inr:
  assumes "with_master_key en b = Inr c"
  shows "cf_admin c = cf_admin b" "cf_bootstrap c = cf_bootstrap b" "cf_upstream c = cf_upstream b"
    "cf_max_request c = cf_max_request b" "en ''MASTER_KEY'' = [] \<Longrightarrow> cf_master c = cf_master b"
    "en ''MASTER_KEY'' \<noteq> [] \<Longrightarrow> length (cf_master c) = 32 \<and> b64_decode False True (en ''MASTER_KEY'') = Some (cf_master c)"
  using assms by (auto simp: with_master_key_def split: if_splits option.splits)

lemma with_access_key_Inr:
  assumes "with_access_key en (read_config en) = Inr b"
  shows "cf_master b = []" "cf_upstream b = cf_upstream (read_config en)"
    "cf_max_request b = cf_max_request (read_config en)"
    "en ''ACCESS_KEY'' \<noteq> [] \<Longrightarrow> cf_admin b = en ''ACCESS_KEY'' \<and> cf_bootstrap b = en ''ACCESS_KEY''"
    "en ''ACCESS_KEY'' = [] \<Longrightarrow> cf_admin b = en ''ADMIN_PASSWORD'' \<and> cf_bootstrap b = en ''PROXY_TOKEN''"
  using assms by (auto simp: with_access_key_def Let_def read_config_def split: if_splits)

lemma load_config_credentials:
  assumes "load_config en = Inr c"
  shows "cf_master c = [] \<and> cf_admin c = [] \<and> cf_bootstrap c = [] \<or>
    length (cf_master c) = 32 \<and> cf_admin c \<noteq> [] \<and> cf_bootstrap c \<noteq> []"
proof -
  from assms obtain b where b: "with_access_key en (read_config en) = Inr b" "with_master_key en b = Inr c"
    "legacy_count en b = 0 \<or> legacy_count en b = 3"
    by (rule load_config_Inr)
  show ?thesis
    using b(3) with_master_key_Inr [OF b(2)] with_access_key_Inr [OF b(1)]
    by (auto simp: legacy_count_cases)
qed

end
