(* ===== verification/ConfigProps.thy ===== *)
theory ConfigProps
  imports Config Manager
begin

text \<open>
  What the components that get a configuration can rely on: the identity manager its credentials,
  the proxy its upstream.
\<close>

section \<open>Credentials\<close>

lemma open_document_error:
  "run_state (open_document x) s = (Inl e, t) \<Longrightarrow> e \<noteq> LegacyIncomplete"
  by (auto simp: open_document_def install_def fail_def ok_def run_state_bind load_cipher_def
      split: option.splits sum.splits if_splits)

lemma run_steps_error: "run_state (run_steps fs) s = (Inl e, t) \<Longrightarrow> e = DiskFault"
proof (induction fs arbitrary: s)
  case (Cons f fs)
  obtain b u where "run_state fault s = (b, u)" by fastforce
  with Cons show ?case
    by (cases b) (auto simp: run_state_bind fail_def disk_do_def)
qed (simp add: ok_def)

lemma persist_error: "run_state (persist st) s = (Inl e, t) \<Longrightarrow> e \<noteq> LegacyIncomplete"
  by (auto simp: persist_def try_bind_def run_state_bind fail_def disk_do_def simp del: run_steps.simps
      split: prod.splits sum.splits option.splits dest: run_steps_error)

lemma open_legacy_error:
  assumes "master = [] \<and> admin = [] \<and> token = [] \<or> length master = 32 \<and> admin \<noteq> [] \<and> token \<noteq> []"
    "run_state (open_legacy kdf master admin token) s = (Inl e, t)"
  shows "e \<noteq> LegacyIncomplete"
  using assms
  by (auto simp: open_legacy_def ok_def fail_def run_state_bind hash_password_def run_draw run_now install_def
      Let_def load_cipher_def split: sum.splits option.splits if_splits dest!: persist_error)

text \<open>
  A configuration that loads has all three credentials, the master key of 32 bytes, or none of
  them; so the identity opens without the error of incomplete credentials. It accepts request bodies
  of some size.
\<close>

lemma config_credentials:
  assumes "load_config en = Inr c"
  shows "(cf_master c = [] \<and> cf_admin c = [] \<and> cf_bootstrap c = [] \<or>
      length (cf_master c) = 32 \<and> cf_admin c \<noteq> [] \<and> cf_bootstrap c \<noteq> []) \<and>
    fst (run_state (open_manager kdf (cf_master c) (cf_admin c) (cf_bootstrap c)) s) \<noteq> Inl LegacyIncomplete \<and>
    0 < cf_max_request c"
proof -
  note cred = load_config_credentials [OF assms]
  obtain r t where r: "run_state (open_manager kdf (cf_master c) (cf_admin c) (cf_bootstrap c)) s = (r, t)"
    by fastforce
  let ?s = "s\<lparr>vt_state := None, vt_cipher := None\<rparr>"
  obtain b u where u: "run_state fault ?s = (b, u)" by fastforce
  have "r \<noteq> Inl LegacyIncomplete"
  proof
    assume "r = Inl LegacyIncomplete"
    with r u show False
      by (cases b) (auto simp: open_manager_def install_def run_state_bind fail_def split: option.splits
        dest: open_document_error open_legacy_error [OF cred])
  qed
  moreover from assms obtain b where "with_access_key en (read_config en) = Inr b" "with_master_key en b = Inr c"
    by (rule load_config_Inr)
  then have "cf_max_request c = cf_max_request (read_config en)"
    using with_master_key_Inr(4) with_access_key_Inr(3) by metis
  then have "0 < cf_max_request c" by (auto simp: read_config_def env_int64_def Let_def split: option.splits)
  ultimately show ?thesis using cred r by simp
qed

section \<open>The upstream\<close>

lemma trim_right_append:
  "trim_right (p @ r) c = (if set r \<subseteq> {c} then trim_right p c else p @ trim_right r c)"
proof (cases "set r \<subseteq> {c}")
  case True
  then have "dropWhile (\<lambda>d. d = c) (rev r @ rev p) = dropWhile (\<lambda>d. d = c) (rev p)"
    by (intro dropWhile_append2) auto
  with True show ?thesis by (simp add: trim_right_def)
next
  case False
  then obtain x where "x \<in> set (rev r)" "x \<noteq> c" by auto
  then have "dropWhile (\<lambda>d. d = c) (rev r @ rev p) = dropWhile (\<lambda>d. d = c) (rev r) @ rev p"
    by (intro dropWhile_append1) auto
  with False show ?thesis by (simp add: trim_right_def)
qed

lemma prefix_trusted:
  assumes "prefix trusted_upstream s"
  shows "prefix trusted_upstream (trim_right s (CHR ''/'') @ CHR ''/'' # e)"
proof -
  from assms obtain r where r: "s = trusted_upstream @ r" by (rule prefixE)
  have "trim_right trusted_upstream (CHR ''/'') @ ''/'' = trusted_upstream" by code_simp
  then have "trusted_upstream @ e = trim_right trusted_upstream (CHR ''/'') @ CHR ''/'' # e"
    by (metis append.assoc append_Cons append_Nil)
  then have "prefix trusted_upstream (trim_right trusted_upstream (CHR ''/'') @ CHR ''/'' # e)"
    by (metis prefixI)
  then show ?thesis by (simp add: r trim_right_append)
qed

text \<open>The upstream of a configuration that does not allow another one.\<close>

lemma config_trusted:
  "load_config en = Inr c \<Longrightarrow> en ''ALLOW_CUSTOM_UPSTREAM'' \<noteq> ''true'' \<Longrightarrow> prefix trusted_upstream (cf_upstream c)"
  by (auto elim: load_config_Inr)

lemma config_upstream:
  assumes "load_config en = Inr c" "en ''ALLOW_CUSTOM_UPSTREAM'' \<noteq> ''true''" "en_base_url ev = cf_upstream c"
  shows "prefix ''https://opencode.ai/'' (uc_url (inference_call ev inc protocol body secret)) \<and>
    prefix ''https://opencode.ai/'' (uc_url (models_call ev secret))"
  using prefix_trusted [OF config_trusted [OF assms(1,2)]]
  by (simp add: inference_call_def models_call_def Let_def assms(3) trusted_upstream_def)

end
