(* ===== verification/Sessions.thy ===== *)
theory Sessions
  imports Manager Inference
begin

text \<open>
  The state of internal/httpapi: the login sessions (sessionStore of auth.go) and the pairing
  tickets (enrollmentStore of client_setup.go) beside store, proxy and identity. Both stores hand
  out random tokens with an expiry; they share one contract. A Go map is an association list.
\<close>

section \<open>Maps\<close>

definition map_put :: "'k \<Rightarrow> 'v \<Rightarrow> ('k \<times> 'v) list \<Rightarrow> ('k \<times> 'v) list" where
  "map_put k v m = (k, v) # filter (\<lambda>p. fst p \<noteq> k) m"

definition map_del :: "'k \<Rightarrow> ('k \<times> 'v) list \<Rightarrow> ('k \<times> 'v) list" where
  "map_del k m = filter (\<lambda>p. fst p \<noteq> k) m"

lemma map_of_filter_other: "map_of (filter (\<lambda>p. fst p \<noteq> k) m) j = (if j = k then None else map_of m j)"
  by (induction m) auto

lemma map_of_put [simp]: "map_of (map_put k v m) j = (if j = k then Some v else map_of m j)"
  by (simp add: map_put_def map_of_filter_other)

lemma map_of_del [simp]: "map_of (map_del k m) j = (if j = k then None else map_of m j)"
  by (simp add: map_del_def map_of_filter_other)

lemma set_map_put: "set (map_put k v m) \<subseteq> insert (k, v) (set m)"
  by (auto simp: map_put_def)

lemma set_map_del: "set (map_del k m) \<subseteq> set m"
  by (auto simp: map_del_def)

section \<open>State\<close>

record enrollment =
  er_name :: string
  er_expires :: time

record site = vault +
  si_sessions :: "(string \<times> time) list"
  si_tickets :: "(string \<times> enrollment) list"

type_synonym 'a page = "(site, 'a) state"

section \<open>Sessions\<close>

definition session_life :: duration where
  "session_life = 12 * hour"

definition set_sessions :: "((string \<times> time) list \<Rightarrow> (string \<times> time) list) \<Rightarrow> unit page" where
  "set_sessions f = modify (\<lambda>s. s\<lparr>si_sessions := f (si_sessions s)\<rparr>)"

definition session_create :: "string page" where
  "session_create = do {
     b \<leftarrow> draw 32;
     let token = hex_encode b;
     t \<leftarrow> now;
     set_sessions (map_put token (t + session_life));
     State_Monad.return token }"

definition session_delete :: "string \<Rightarrow> unit page" where
  "session_delete token = set_sessions (map_del token)"

definition session_valid :: "string \<Rightarrow> bool page" where
  "session_valid token = do {
     m \<leftarrow> gets si_sessions;
     case map_of m token of
       None \<Rightarrow> do { session_delete token; State_Monad.return False }
     | Some expires \<Rightarrow> do {
         t \<leftarrow> now;
         if expires < t then do { session_delete token; State_Monad.return False }
         else State_Monad.return True } }"

definition session_reset :: "unit page" where
  "session_reset = set_sessions (\<lambda>_. [])"

section \<open>Tickets\<close>

definition ticket_life :: duration where
  "ticket_life = 10 * minute"

definition set_tickets :: "((string \<times> enrollment) list \<Rightarrow> (string \<times> enrollment) list) \<Rightarrow> unit page" where
  "set_tickets f = modify (\<lambda>s. s\<lparr>si_tickets := f (si_tickets s)\<rparr>)"

text \<open>The tickets that have expired, each compared with a reading of the clock of its own.\<close>

definition drop_expired :: "string \<times> enrollment \<Rightarrow> unit page" where
  "drop_expired p = do {
     t \<leftarrow> now;
     if er_expires (snd p) < t then set_tickets (map_del (fst p)) else State_Monad.return () }"

definition ticket_create :: "string \<Rightarrow> (string \<times> time) page" where
  "ticket_create name = do {
     raw \<leftarrow> draw 32;
     let ticket = b64_encode True False raw;
     t \<leftarrow> now;
     let expires = t + ticket_life;
     old \<leftarrow> gets si_tickets;
     for_each drop_expired old;
     set_tickets (map_put (sha256 ticket) \<lparr>er_name = name, er_expires = expires\<rparr>);
     State_Monad.return (ticket, expires) }"

definition ticket_consume :: "string \<Rightarrow> enrollment option page" where
  "ticket_consume ticket = do {
     m \<leftarrow> gets si_tickets;
     let hash = sha256 ticket;
     case map_of m hash of
       None \<Rightarrow> State_Monad.return None
     | Some item \<Rightarrow> do {
         set_tickets (map_del hash);
         t \<leftarrow> now;
         State_Monad.return (if er_expires item < t then None else Some item) } }"

section \<open>The contract of a store of tokens\<close>

text \<open>
  A store keeps an expiry for some tokens and admits a token by one reading of the clock. It admits
  exactly the tokens it holds and that have not expired; admitting never makes or prolongs a token.
\<close>

locale token_store =
  fixes expiry :: "site \<Rightarrow> string \<Rightarrow> time option"
    and admit :: "string \<Rightarrow> site \<Rightarrow> bool \<times> site"
  assumes admits: "fst (admit k s) \<longleftrightarrow> (\<exists>e. expiry s k = Some e \<and> h_clock s (h_ticks s) \<le> e)"
    and admitting: "expiry (snd (admit k s)) j = expiry s j \<or> expiry (snd (admit k s)) j = None"
    and clock_kept: "h_clock (snd (admit k s)) = h_clock s"
    and time_passes: "h_ticks s \<le> h_ticks (snd (admit k s))"
begin

text \<open>A token that was refused is refused until it is issued again, on a clock that does not go back.\<close>

lemma refused_stays:
  assumes "\<And>m n. m \<le> n \<Longrightarrow> h_clock s m \<le> h_clock s n" "\<not> fst (admit k s)"
  shows "\<not> fst (admit k (snd (admit j s)))"
proof
  let ?t = "snd (admit j s)"
  assume "fst (admit k ?t)"
  then obtain e where e: "expiry ?t k = Some e" "h_clock ?t (h_ticks ?t) \<le> e" by (auto simp: admits)
  then have "expiry s k = Some e" using admitting [of j s k] by simp
  moreover have "h_clock s (h_ticks s) \<le> e"
    using assms(1) [OF time_passes [of s j]] e(2) by (simp add: clock_kept)
  ultimately show False using assms(2) by (auto simp: admits)
qed

end

definition session_expiry :: "site \<Rightarrow> string \<Rightarrow> time option" where
  "session_expiry s k = map_of (si_sessions s) k"

lemma run_session_valid:
  "run_state (session_valid k) s =
     (case map_of (si_sessions s) k of
        None \<Rightarrow> (False, s\<lparr>si_sessions := map_del k (si_sessions s)\<rparr>)
      | Some e \<Rightarrow>
          if e < h_clock s (h_ticks s)
          then (False, s\<lparr>h_ticks := Suc (h_ticks s), si_sessions := map_del k (si_sessions s)\<rparr>)
          else (True, s\<lparr>h_ticks := Suc (h_ticks s)\<rparr>))"
  by (simp add: session_valid_def session_delete_def set_sessions_def run_state_bind run_now split: option.split)

interpretation sessions: token_store session_expiry "\<lambda>k. run_state (session_valid k)"
  by unfold_locales (auto simp: run_session_valid session_expiry_def split: option.splits)

definition ticket_expiry :: "site \<Rightarrow> string \<Rightarrow> time option" where
  "ticket_expiry s k = map_option er_expires (map_of (si_tickets s) (sha256 k))"

lemma run_ticket_consume:
  "run_state (ticket_consume k) s =
     (case map_of (si_tickets s) (sha256 k) of
        None \<Rightarrow> (None, s)
      | Some item \<Rightarrow>
          (if er_expires item < h_clock s (h_ticks s) then None else Some item,
           s\<lparr>h_ticks := Suc (h_ticks s), si_tickets := map_del (sha256 k) (si_tickets s)\<rparr>))"
  by (simp add: ticket_consume_def set_tickets_def Let_def run_state_bind run_now split: option.split)

definition ticket_admit :: "string \<Rightarrow> site \<Rightarrow> bool \<times> site" where
  "ticket_admit k s = (case run_state (ticket_consume k) s of (r, t) \<Rightarrow> (r \<noteq> None, t))"

interpretation tickets: token_store ticket_expiry ticket_admit
  by unfold_locales (auto simp: ticket_admit_def run_ticket_consume ticket_expiry_def split: option.splits)

text \<open>A ticket is admitted once.\<close>

lemma ticket_used_up: "ticket_expiry (snd (ticket_admit k s)) k = None"
  by (simp add: ticket_admit_def run_ticket_consume ticket_expiry_def split: option.splits)

end
