(* ===== verification/GoUrl.thy ===== *)
theory GoUrl
  imports GoBytes
begin

text \<open>
  net/url: percent encoding, query strings, and the parts of a URL as Parse finds and String
  writes them.
\<close>

section \<open>Percent encoding\<close>

datatype url_part = PathPart | HostPart | ZonePart | QueryPart | FragmentPart

definition is_alnum :: "char \<Rightarrow> bool" where
  "is_alnum c \<longleftrightarrow> is_digit c \<or> is_upper c \<or> is_lower c"

text \<open>shouldEscape\<close>

definition should_escape :: "url_part \<Rightarrow> char \<Rightarrow> bool" where
  "should_escape p c \<longleftrightarrow>
     \<not> (is_alnum c \<or>
        (p = HostPart \<or> p = ZonePart) \<and>
          c \<in> set (CHR 0x27 # CHR 0x22 # ''!$&()*+,;=:[]<>'') \<or>
        c \<in> set ''-_.~'' \<or>
        c \<in> set ''$&+,/:;=?@'' \<and>
          (case p of PathPart \<Rightarrow> c \<noteq> CHR ''?'' | FragmentPart \<Rightarrow> True | _ \<Rightarrow> False) \<or>
        p = FragmentPart \<and> c \<in> set ''!()*'')"

definition upper_hex :: "nat \<Rightarrow> char" where
  "upper_hex n = ''0123456789ABCDEF'' ! n"

fun url_escape :: "url_part \<Rightarrow> string \<Rightarrow> string" where
  "url_escape p [] = []"
| "url_escape p (c # s) =
     (if \<not> should_escape p c then [c]
      else if c = CHR '' '' \<and> p = QueryPart then ''+''
      else [CHR ''%'', upper_hex (of_char c div 16), upper_hex (of_char c mod 16)]) @ url_escape p s"

text \<open>Which bytes an escape may stand for, and which bytes may stand for themselves.\<close>

definition escape_allowed :: "url_part \<Rightarrow> char \<Rightarrow> char \<Rightarrow> bool" where
  "escape_allowed p a b \<longleftrightarrow>
     (case (hex_val a, hex_val b) of
        (Some x, Some y) \<Rightarrow>
          (p = HostPart \<longrightarrow> 8 \<le> x \<or> a = CHR ''2'' \<and> b = CHR ''5'') \<and>
          (p = ZonePart \<longrightarrow> a = CHR ''2'' \<and> b = CHR ''5'' \<or> byte (16 * x + y) = CHR '' '' \<or>
             \<not> should_escape HostPart (byte (16 * x + y)))
      | _ \<Rightarrow> False)"

definition byte_allowed :: "url_part \<Rightarrow> char \<Rightarrow> bool" where
  "byte_allowed p c \<longleftrightarrow> ((p = HostPart \<or> p = ZonePart) \<and> c < CHR 0x80 \<longrightarrow> \<not> should_escape p c)"

fun url_unescape :: "url_part \<Rightarrow> string \<Rightarrow> string option" where
  "url_unescape p [] = Some []"
| "url_unescape p (c # s) =
     (if c = CHR ''%'' then
        (case s of
           a # b # r \<Rightarrow>
             if escape_allowed p a b
             then (case (hex_val a, hex_val b, url_unescape p r) of
                     (Some x, Some y, Some t) \<Rightarrow> Some (byte (16 * x + y) # t)
                   | _ \<Rightarrow> None)
             else None
         | _ \<Rightarrow> None)
      else if byte_allowed p c
      then map_option ((#) (if c = CHR ''+'' \<and> p = QueryPart then CHR '' '' else c)) (url_unescape p s)
      else None)"

section \<open>Query strings\<close>

definition cut :: "char \<Rightarrow> string \<Rightarrow> string \<times> string" where
  "cut c s = (takeWhile (\<lambda>d. d \<noteq> c) s, drop 1 (dropWhile (\<lambda>d. d \<noteq> c) s))"

definition query_pair :: "string \<Rightarrow> (string \<times> string) list" where
  "query_pair part =
     (if part = [] \<or> CHR '';'' \<in> set part then []
      else case cut (CHR ''='') part of
          (k, v) \<Rightarrow> (case (url_unescape QueryPart k, url_unescape QueryPart v) of
              (Some a, Some b) \<Rightarrow> [(a, b)]
            | _ \<Rightarrow> []))"

text \<open>r.URL.Query().Get(name)\<close>

definition query_get :: "string \<Rightarrow> string \<Rightarrow> string" where
  "query_get q name =
     (case find (\<lambda>p. fst p = name) (concat (map query_pair (split_on (CHR ''&'') q))) of
        None \<Rightarrow> []
      | Some (_, v) \<Rightarrow> v)"

section \<open>Parse\<close>

record url =
  ur_scheme :: string
  ur_opaque :: string
  ur_user :: bool
  ur_host :: string
  ur_path :: string
  ur_raw_path :: string
  ur_omit_host :: bool
  ur_force_query :: bool
  ur_raw_query :: string
  ur_fragment :: string

definition no_url :: url where
  "no_url = \<lparr>ur_scheme = [], ur_opaque = [], ur_user = False, ur_host = [], ur_path = [], ur_raw_path = [],
     ur_omit_host = False, ur_force_query = False, ur_raw_query = [], ur_fragment = []\<rparr>"

text \<open>getScheme: the scheme and the rest; None for a colon at the beginning.\<close>

definition scheme_char :: "char \<Rightarrow> bool" where
  "scheme_char c \<longleftrightarrow> is_upper c \<or> is_lower c \<or> is_digit c \<or> c \<in> set ''+-.''"

definition get_scheme :: "string \<Rightarrow> (string \<times> string) option" where
  "get_scheme s =
     (let sc = takeWhile scheme_char s; rest = drop (length sc) s
      in case sc of
           [] \<Rightarrow> if prefix '':'' s then None else Some ([], s)
         | c # _ \<Rightarrow>
             if (is_upper c \<or> is_lower c) \<and> prefix '':'' rest then Some (sc, drop 1 rest) else Some ([], s))"

definition valid_port :: "string \<Rightarrow> bool" where
  "valid_port s \<longleftrightarrow> s = [] \<or> prefix '':'' s \<and> list_all is_digit (drop 1 s)"

text \<open>The text up to the last occurrence of a character, and from it on.\<close>

definition split_last :: "char \<Rightarrow> string \<Rightarrow> (string \<times> string) option" where
  "split_last c s =
     (if c \<in> set s
      then let t = rev (takeWhile (\<lambda>d. d \<noteq> c) (rev s)); n = length s - length t - 1
        in Some (take n s, drop n s)
      else None)"

text \<open>The text before the first percent-encoded percent sign, and from it on.\<close>

fun split_zone :: "string \<Rightarrow> (string \<times> string) option" where
  "split_zone [] = None"
| "split_zone (c # s) =
     (if prefix ''%25'' (c # s) then Some ([], c # s)
      else map_option (\<lambda>(a, b). (c # a, b)) (split_zone s))"

definition parse_host :: "string \<Rightarrow> string option" where
  "parse_host h =
     (if prefix ''['' h then
        (case split_last (CHR '']'') h of
           None \<Rightarrow> None
         | Some (addr, close) \<Rightarrow>
             if \<not> valid_port (drop 1 close) then None
             else case split_zone addr of
                 None \<Rightarrow> url_unescape HostPart h
               | Some (a, z) \<Rightarrow>
                   (case (url_unescape HostPart a, url_unescape ZonePart z, url_unescape HostPart close) of
                      (Some x, Some y, Some w) \<Rightarrow> Some (x @ y @ w)
                    | _ \<Rightarrow> None))
      else case split_last (CHR '':'') h of
          Some (_, port) \<Rightarrow> if valid_port port then url_unescape HostPart h else None
        | None \<Rightarrow> url_unescape HostPart h)"

definition user_char :: "char \<Rightarrow> bool" where
  "user_char c \<longleftrightarrow> is_alnum c \<or> c \<in> set (CHR 0x27 # ''-._:~!$&()*+,;=%@'')"

text \<open>parseAuthority; of the user only that there is one.\<close>

definition parse_authority :: "string \<Rightarrow> (bool \<times> string) option" where
  "parse_authority a =
     (case split_last (CHR ''@'') a of
        None \<Rightarrow> map_option (Pair False) (parse_host a)
      | Some (user, host) \<Rightarrow>
          (case parse_host (drop 1 host) of
             None \<Rightarrow> None
           | Some h \<Rightarrow>
               if list_all user_char user \<and> url_unescape PathPart user \<noteq> None
               then Some (True, h) else None))"

definition set_path :: "string \<Rightarrow> url \<Rightarrow> url option" where
  "set_path p u =
     (case url_unescape PathPart p of
        None \<Rightarrow> None
      | Some path \<Rightarrow>
          Some (u\<lparr>ur_path := path, ur_raw_path := (if url_escape PathPart path = p then [] else p)\<rparr>))"

definition parse_rest :: "string \<Rightarrow> url \<Rightarrow> url option" where
  "parse_rest rest u =
     (if \<not> prefix ''/'' rest \<and> ur_scheme u \<noteq> [] then Some (u\<lparr>ur_opaque := rest\<rparr>)
      else if \<not> prefix ''/'' rest \<and> CHR '':'' \<in> set (fst (cut (CHR ''/'') rest)) then None
      else if (ur_scheme u \<noteq> [] \<or> \<not> prefix ''///'' rest) \<and> prefix ''//'' rest then
        (let a = takeWhile (\<lambda>c. c \<noteq> CHR ''/'') (drop 2 rest) in
         case parse_authority a of
           None \<Rightarrow> None
         | Some (user, host) \<Rightarrow> set_path (drop (length a) (drop 2 rest)) (u\<lparr>ur_user := user, ur_host := host\<rparr>))
      else set_path rest (u\<lparr>ur_omit_host := (ur_scheme u \<noteq> [] \<and> prefix ''/'' rest)\<rparr>))"

definition control_byte :: "char \<Rightarrow> bool" where
  "control_byte c \<longleftrightarrow> c < CHR '' '' \<or> c = CHR 0x7F"

definition parse_no_fragment :: "string \<Rightarrow> url option" where
  "parse_no_fragment s =
     (if list_ex control_byte s then None
      else if s = ''*'' then Some (no_url\<lparr>ur_path := s\<rparr>)
      else case get_scheme s of
          None \<Rightarrow> None
        | Some (scheme, rest) \<Rightarrow>
            let u = no_url\<lparr>ur_scheme := to_lower scheme\<rparr>; (body, query) = cut (CHR ''?'') rest in
            if rest = body @ ''?'' then parse_rest body (u\<lparr>ur_force_query := True\<rparr>)
            else parse_rest body (u\<lparr>ur_raw_query := query\<rparr>))"

definition parse_url :: "string \<Rightarrow> url option" where
  "parse_url s =
     (case cut (CHR ''#'') s of
        (body, frag) \<Rightarrow>
          (case (parse_no_fragment body, url_unescape FragmentPart frag) of
             (Some u, Some f) \<Rightarrow> Some (u\<lparr>ur_fragment := f\<rparr>)
           | _ \<Rightarrow> None))"

section \<open>String\<close>

text \<open>validEncoded and EscapedPath\<close>

definition valid_path_byte :: "char \<Rightarrow> bool" where
  "valid_path_byte c \<longleftrightarrow> c \<in> set (CHR 0x27 # ''!$&()*+,;=:@[]%'') \<or> \<not> should_escape PathPart c"

definition escaped_path :: "url \<Rightarrow> string" where
  "escaped_path u =
     (if ur_raw_path u \<noteq> [] \<and> list_all valid_path_byte (ur_raw_path u) \<and>
         url_unescape PathPart (ur_raw_path u) = Some (ur_path u)
      then ur_raw_path u
      else if ur_path u = ''*'' then ''*'' else url_escape PathPart (ur_path u))"

text \<open>String of a URL with scheme and host, without user, opaque part and fragment.\<close>

definition url_string :: "url \<Rightarrow> string" where
  "url_string u =
     (let p = escaped_path u in
      ur_scheme u @ ''://'' @ url_escape HostPart (ur_host u)
        @ (if p \<noteq> [] \<and> \<not> prefix ''/'' p then ''/'' else []) @ p
        @ (if ur_force_query u \<or> ur_raw_query u \<noteq> [] then ''?'' @ ur_raw_query u else []))"

end
