(* ===== verification/Pages.thy ===== *)
theory Pages
  imports Sessions Models Reports GoUrl GoPath
begin

text \<open>
  What the handlers of internal/httpapi share: the request, cookies, JSON answers, the documents
  of the values they send, and the way into the proxy, whose handlers see the part of the state
  that is theirs and decrypt with the identity's cipher.
\<close>

section \<open>Requests\<close>

text \<open>
  The path as decoded, and as sent when that is not the default encoding (RawPath); the header
  holds neither Host nor the length of the body.
\<close>

record request =
  hq_verb :: string
  hq_path :: string
  hq_raw_path :: string
  hq_query :: string
  hq_host :: string
  hq_tls :: bool
  hq_header :: header
  hq_body :: http_body

definition incoming_of :: "principal \<Rightarrow> request \<Rightarrow> incoming" where
  "incoming_of p q =
     \<lparr>in_header = hq_header q, in_query = hq_query q, in_body = hq_body q, in_client = pp_id p,
      in_client_name = pp_name p\<rparr>"

subsection \<open>Cookies\<close>

text \<open>readCookies: the pairs of the Cookie headers; a bad name or value is passed over.\<close>

definition trim_blanks :: "string \<Rightarrow> string" where
  "trim_blanks s =
     rev (dropWhile (\<lambda>c. c = CHR '' '' \<or> c = CHR 0x09) (rev (dropWhile (\<lambda>c. c = CHR '' '' \<or> c = CHR 0x09) s)))"

definition cookie_byte :: "char \<Rightarrow> bool" where
  "cookie_byte c \<longleftrightarrow> CHR '' '' \<le> c \<and> c < CHR 0x7F \<and> c \<noteq> CHR 0x22 \<and> c \<noteq> CHR '';'' \<and> c \<noteq> CHR 0x5C"

definition cookie_value :: "string \<Rightarrow> string option" where
  "cookie_value v =
     (let w = (if 1 < length v \<and> hd v = CHR 0x22 \<and> last v = CHR 0x22 then butlast (tl v) else v)
      in if list_all cookie_byte w then Some w else None)"

definition cookie_pair :: "string \<Rightarrow> (string \<times> string) list" where
  "cookie_pair part =
     (case cut (CHR ''='') (trim_blanks part) of
        (name, v) \<Rightarrow>
          let n = trim_blanks name in
          if trim_blanks part = [] \<or> n = [] \<or> \<not> list_all token_char n then []
          else case cookie_value v of None \<Rightarrow> [] | Some w \<Rightarrow> [(n, w)])"

definition request_cookie :: "header \<Rightarrow> string \<Rightarrow> string option" where
  "request_cookie h name =
     map_option snd (find (\<lambda>p. fst p = name)
       (concat (map (\<lambda>line. concat (map cookie_pair (split_on (CHR '';'') line))) (header_values h ''Cookie''))))"

section \<open>Answers\<close>

definition page_do :: "(writer \<Rightarrow> writer) \<Rightarrow> unit page" where
  "page_do f = modify (\<lambda>s. s\<lparr>sv_writer := f (sv_writer s)\<rparr>)"

text \<open>writeJSON\<close>

definition reply_json :: "int \<Rightarrow> json \<Rightarrow> unit page" where
  "reply_json status v = do {
     page_do (set_header ''Content-Type'' ''application/json'');
     page_do (write_header status);
     page_do (\<lambda>w. snd (write_bytes (render v @ [CHR 0x0A]) w)) }"

definition error_reply :: "int \<Rightarrow> string \<Rightarrow> unit page" where
  "error_reply status text = reply_json status (JObj [(''error'', JStr text)])"

definition server_error :: "unit page" where
  "server_error = error_reply 500 ''internal server error''"

definition not_found_or_error :: "db_error \<Rightarrow> unit page" where
  "not_found_or_error e = (if e = NoRows then error_reply 404 ''not found'' else server_error)"

text \<open>http.NotFound\<close>

definition reply_not_found :: "unit page" where
  "reply_not_found = do {
     page_do (\<lambda>w. w\<lparr>wr_header := filter (\<lambda>p. fst p \<noteq> ''Content-Length'') (wr_header w)\<rparr>);
     page_do (set_header ''Content-Type'' ''text/plain; charset=utf-8'');
     page_do (set_header ''X-Content-Type-Options'' ''nosniff'');
     page_do (write_header 404);
     page_do (\<lambda>w. snd (write_bytes (''404 page not found'' @ [CHR 0x0A]) w)) }"

definition no_store :: "unit page" where
  "no_store = page_do (set_header ''Cache-Control'' ''no-store'')"

text \<open>The session cookie; its value is hexadecimal, so that nothing of it is dropped.\<close>

definition session_cookie :: string where
  "session_cookie = ''opencodeproxy_session''"

definition set_cookie :: "string \<Rightarrow> int \<Rightarrow> bool \<Rightarrow> unit page" where
  "set_cookie token age secure =
     page_do (\<lambda>w. w\<lparr>wr_header := header_add (wr_header w) ''Set-Cookie''
       (session_cookie @ ''='' @ token @ ''; Path=/; Max-Age='' @ int_text (max 0 age) @ ''; HttpOnly''
        @ (if secure then ''; Secure'' else []) @ ''; SameSite=Strict'')\<rparr>)"

definition cookie_age :: int where
  "cookie_age = 43200"

section \<open>Documents\<close>

definition json_when :: "string \<Rightarrow> ('a \<Rightarrow> json) \<Rightarrow> 'a option \<Rightarrow> (string \<times> json) list" where
  "json_when k f v = (case v of None \<Rightarrow> [] | Some a \<Rightarrow> [(k, f a)])"

definition json_text :: "string \<Rightarrow> string \<Rightarrow> (string \<times> json) list" where
  "json_text k v = omit_empty k (v = []) (JStr v)"

definition key_json :: "key \<Rightarrow> json" where
  "key_json k = JObj
     ([(''id'', json_int (k_id k)), (''name'', JStr (k_name k)), (''fingerprint'', JStr (k_fingerprint k)),
       (''priority'', json_int (k_priority k)), (''admin_enabled'', JBool (k_enabled k)),
       (''auth_state'', JStr (k_auth k)), (''quota_state'', JStr (k_quota k)),
       (''control_state'', JStr (k_control k)), (''pool_role'', JStr (k_role k))]
      @ json_text ''quota_window'' (k_window k) @ json_when ''cooling_until'' json_time (k_cooling k)
      @ json_text ''last_error'' (k_error k) @ json_when ''last_used_at'' json_time (k_used k)
      @ json_when ''last_checked_at'' json_time (k_checked k)
      @ json_when ''auto_probe_override'' JBool (k_override k)
      @ [(''created_at'', json_time (k_created k)), (''updated_at'', json_time (k_updated k))])"

definition settings_json :: "settings \<Rightarrow> json" where
  "settings_json v = JObj
     [(''auto_probe_enabled'', JBool (st_auto_probe v)), (''force_stream_usage'', JBool (st_force_usage v)),
      (''probe_model'', JStr (st_probe_model v)), (''probe_interval_sec'', json_int (st_probe_interval v)),
      (''models_cache_sec'', json_int (st_models_cache v))]"

definition request_json :: "request_record \<Rightarrow> json" where
  "request_json r = JObj
     ([(''id'', JStr (rq_id r)), (''started_at'', json_time (rq_started r))]
      @ json_when ''finished_at'' json_time (rq_finished r)
      @ [(''client_id'', JStr (rq_client r)), (''client_name'', JStr (rq_client_name r)),
         (''protocol'', JStr (rq_protocol r)), (''model'', JStr (rq_model r)), (''stream'', JBool (rq_stream r)),
         (''request_bytes'', json_int (rq_bytes r)), (''message_count'', json_int (rq_messages r)),
         (''tool_count'', json_int (rq_tools r))]
      @ json_when ''final_key_id'' json_int (rq_final_key r) @ json_text ''final_key_name'' (rq_final_name r)
      @ [(''attempt_count'', json_int (rq_attempts r)), (''http_status'', json_int (rq_status r)),
         (''outcome'', JStr (rq_outcome r))]
      @ json_text ''error_class'' (rq_error r) @ [(''latency_ms'', json_int (rq_latency r))]
      @ json_when ''ttft_ms'' json_int (rq_ttft r) @ json_when ''input_uncached'' json_int (rq_uncached r)
      @ json_when ''cache_read'' json_int (rq_cache_read r) @ json_when ''cache_write'' json_int (rq_cache_write r)
      @ json_when ''output_tokens'' json_int (rq_output r) @ json_when ''reasoning_tokens'' json_int (rq_reasoning r)
      @ json_when ''total_input'' json_int (rq_total_input r) @ [(''usage_state'', JStr (rq_usage_state r))])"

definition point_json :: "timeline_point \<Rightarrow> json" where
  "point_json p = JObj
     [(''bucket'', json_time (tp_bucket p)), (''input_uncached'', json_int (tp_uncached p)),
      (''cache_read'', json_int (tp_cache_read p)), (''cache_write'', json_int (tp_cache_write p)),
      (''output_tokens'', json_int (tp_output p)), (''requests'', json_int (tp_requests p))]"

definition share_json :: "key_aggregate \<Rightarrow> json" where
  "share_json a = JObj
     [(''key_id'', json_int (ka_id a)), (''key_name'', JStr (ka_name a)), (''requests'', json_int (ka_requests a)),
      (''successes'', json_int (ka_successes a)), (''input_uncached'', json_int (ka_uncached a)),
      (''cache_read'', json_int (ka_cache_read a)), (''cache_write'', json_int (ka_cache_write a)),
      (''output_tokens'', json_int (ka_output a)), (''avg_latency_ms'', json_int (ka_latency a))]"

definition dashboard_json :: "dashboard \<Rightarrow> json" where
  "dashboard_json d = JObj
     (json_when ''active_key'' key_json (da_active d)
      @ [(''key_counts'', map_obj (map (\<lambda>p. (fst p, json_int (snd p))) (da_key_counts d))),
         (''requests'', json_int (da_requests d)), (''successes'', json_int (da_successes d)),
         (''failures'', json_int (da_failures d)), (''failovers'', json_int (da_failovers d)),
         (''input_uncached'', json_int (da_uncached d)), (''cache_read'', json_int (da_cache_read d)),
         (''cache_write'', json_int (da_cache_write d)), (''output_tokens'', json_int (da_output d)),
         (''usage_complete'', json_int (da_complete d)), (''timeline'', JArr (map point_json (da_timeline d))),
         (''by_key'', JArr (map share_json (da_by_key d)))])"

definition client_json :: "client_token \<Rightarrow> json" where
  "client_json c = JObj
     [(''id'', JStr (ct_id c)), (''name'', JStr (ct_name c)), (''created_at'', json_time (ct_created c))]"

definition secrets_json :: "secrets \<Rightarrow> json" where
  "secrets_json v = JObj [(''access_key'', JStr (sc_access v)), (''recovery_key'', JStr (sc_recovery v))]"

text \<open>The result of a test is a map; its members are written in the order of their names.\<close>

definition sorted_map :: "json \<Rightarrow> json" where
  "sorted_map v = (case v of JObj kvs \<Rightarrow> map_obj kvs | _ \<Rightarrow> v)"

section \<open>Into the proxy\<close>

text \<open>
  The parameters of the handlers: the proxy's, Argon2, the texts of the errors of database and
  disk, and the two install scripts that the build embeds.
\<close>

record site_env =
  se_env :: env
  se_kdf :: kdf
  se_db_text :: "db_error \<Rightarrow> string"
  se_disk_text :: string
  se_script_ps :: string
  se_script_sh :: string

definition lift_server :: "'a handler \<Rightarrow> 'a page" where
  "lift_server m = State (\<lambda>s.
     case run_state m (server.truncate s) of (a, t) \<Rightarrow> (a, server.extend t (server.more s)))"

definition proxied :: "site_env \<Rightarrow> (env \<Rightarrow> 'a handler) \<Rightarrow> 'a page" where
  "proxied se h = State_Monad.bind State_Monad.get (\<lambda>s.
     lift_server (h ((se_env se)\<lparr>en_decrypt := (\<lambda>c. vault_decrypt c s)\<rparr>)))"

definition identity_text :: "site_env \<Rightarrow> identity_error \<Rightarrow> string" where
  "identity_text se e =
     (case e of
        AlreadyInitialized \<Rightarrow> ''instance is already initialized''
      | SetupRequired \<Rightarrow> setup_text
      | KeyLength \<Rightarrow> ''access key must contain 16 to 256 characters''
      | NameLength \<Rightarrow> ''client name must contain 1 to 80 characters''
      | TokenLimit \<Rightarrow> ''client token limit reached''
      | _ \<Rightarrow> se_disk_text se)"

end
