(* ===== verification/Admin.thy ===== *)
theory Admin
  imports Pages
begin

text \<open>
  The handlers of internal/httpapi/api.go and the two gates of auth.go in front of them.
\<close>

section \<open>Gates\<close>

definition same_origin :: "request \<Rightarrow> bool" where
  "same_origin q \<longleftrightarrow>
     (let origin = header_get (hq_header q) ''Origin''
      in origin = [] \<or> origin = ''http://'' @ hq_host q \<or> origin = ''https://'' @ hq_host q)"

definition setup_needed :: "unit page" where
  "setup_needed = reply_json 503
     (map_obj [(''error'', JStr setup_text), (''setup_required'', JBool True)])"

definition admin_auth :: "request \<Rightarrow> unit page \<Rightarrow> unit page" where
  "admin_auth q next = do {
     ready \<leftarrow> gets initialized;
     if \<not> ready then setup_needed
     else do {
       valid \<leftarrow> (case request_cookie (hq_header q) session_cookie of
                  None \<Rightarrow> State_Monad.return False | Some v \<Rightarrow> session_valid v);
       if \<not> valid then error_reply 401 ''admin authentication required''
       else if hq_verb q \<notin> {''GET'', ''HEAD'', ''OPTIONS''} \<and> \<not> same_origin q
       then error_reply 403 ''cross-origin request rejected''
       else next } }"

definition proxy_error :: "int \<Rightarrow> string \<Rightarrow> string \<Rightarrow> unit page" where
  "proxy_error status message type =
     reply_json status (JObj [(''error'', map_obj [(''message'', JStr message), (''type'', JStr type)])])"

definition proxy_token :: "header \<Rightarrow> string" where
  "proxy_token h =
     (let t = trim_space (trim_prefix (header_get h ''Authorization'') ''Bearer '')
      in if t = [] then header_get h ''X-Api-Key'' else t)"

definition proxy_auth :: "request \<Rightarrow> (incoming \<Rightarrow> unit page) \<Rightarrow> unit page" where
  "proxy_auth q next = do {
     ready \<leftarrow> gets initialized;
     if \<not> ready then proxy_error 503 ''OpencodeProxy setup is required'' ''setup_required''
     else do {
       who \<leftarrow> gets (authenticate_proxy (proxy_token (hq_header q)));
       case who of
         None \<Rightarrow> proxy_error 401 ''Invalid proxy token'' ''authentication_error''
       | Some p \<Rightarrow> next (incoming_of p q) } }"

section \<open>Login and setup\<close>

definition start_session :: "request \<Rightarrow> unit page" where
  "start_session q = do { token \<leftarrow> session_create; set_cookie token cookie_age (hq_tls q) }"

definition text_input :: "string \<Rightarrow> nat option \<Rightarrow> http_body \<Rightarrow> string \<times> bool" where
  "text_input name lim b = decode_body lim [(name, fd_str (\<lambda>v _. v))] b []"

definition login :: "site_env \<Rightarrow> request \<Rightarrow> unit page" where
  "login se q = do {
     ready \<leftarrow> gets initialized;
     if \<not> ready then setup_needed
     else do {
       let (password, good) = text_input ''password'' None (hq_body q);
       admin \<leftarrow> gets (verify_admin (se_kdf se) password);
       if \<not> good \<or> \<not> admin then error_reply 401 ''invalid password''
       else do { start_session q; reply_json 200 (JObj [(''ok'', JBool True)]) } } }"

definition setup_status :: "unit page" where
  "setup_status = do {
     no_store;
     ready \<leftarrow> gets initialized;
     reply_json 200 (JObj [(''initialized'', JBool ready)]) }"

definition setup_initialize :: "site_env \<Rightarrow> request \<Rightarrow> unit page" where
  "setup_initialize se q = do {
     no_store;
     ready \<leftarrow> gets initialized;
     if ready then reply_not_found
     else if \<not> same_origin q then error_reply 403 ''cross-origin request rejected''
     else do {
       r \<leftarrow> initialize (se_kdf se);
       case r of
         Inl e \<Rightarrow> if e = AlreadyInitialized then reply_not_found else server_error
       | Inr v \<Rightarrow> do {
           start_session q;
           reply_json 201 (map_obj [(''initialized'', JBool True), (''secrets'', secrets_json v)]) } } }"

definition access_key_status :: "unit page" where
  "access_key_status = do {
     u \<leftarrow> gets unified_access;
     reply_json 200 (JObj [(''unified'', JBool u)]) }"

definition small_body :: nat where
  "small_body = 8192"

definition change_access_key :: "site_env \<Rightarrow> request \<Rightarrow> unit page" where
  "change_access_key se q = do {
     no_store;
     let (key, good) = text_input ''access_key'' (Some small_body) (hq_body q);
     if \<not> good then error_reply 400 ''invalid request''
     else do {
       r \<leftarrow> rotate_access_key (se_kdf se) key;
       case r of
         Inl e \<Rightarrow> error_reply 400 (identity_text se e)
       | Inr k \<Rightarrow> do {
           session_reset;
           start_session q;
           reply_json 200 (map_obj [(''access_key'', JStr k), (''unified'', JBool True)]) } } }"

definition logout :: "request \<Rightarrow> unit page" where
  "logout q = do {
     (case request_cookie (hq_header q) session_cookie of
        None \<Rightarrow> State_Monad.return () | Some v \<Rightarrow> session_delete v);
     set_cookie [] (- 1) False;
     reply_json 200 (JObj [(''ok'', JBool True)]) }"

section \<open>Keys\<close>

definition list_keys_page :: "unit page" where
  "list_keys_page = do {
     r \<leftarrow> list_keys;
     case r of
       Inl _ \<Rightarrow> server_error
     | Inr ks \<Rightarrow> reply_json 200 (JObj [(''keys'', JArr (map key_json ks))]) }"

definition new_key :: "string \<Rightarrow> string \<Rightarrow> string \<Rightarrow> int \<Rightarrow> key" where
  "new_key name encrypted fp priority =
     \<lparr>k_id = 0, k_name = name, k_encrypted = encrypted, k_fingerprint = fp, k_priority = priority,
      k_enabled = True, k_auth = ''unknown'', k_quota = ''unknown'', k_control = ''unknown'', k_role = [],
      k_window = [], k_cooling = None, k_error = [], k_used = None, k_checked = None, k_override = None,
      k_created = zero_time, k_updated = zero_time\<rparr>"

text \<open>An error is its text.\<close>

definition persist_key :: "site_env \<Rightarrow> string \<Rightarrow> string \<Rightarrow> int \<Rightarrow> (string + key) page" where
  "persist_key se name raw priority =
     (let secret = trim_space raw; fp = fingerprint secret;
          n = (if trim_space name = [] then ''Key '' @ fp else trim_space name) in
      do {
        e \<leftarrow> vault_encrypt secret;
        case e of
          Inl text \<Rightarrow> State_Monad.return (Inl text)
        | Inr encrypted \<Rightarrow> do {
            r \<leftarrow> create_key (new_key n encrypted fp priority);
            State_Monad.return (case r of Inl err \<Rightarrow> Inl (se_db_text se err) | Inr k \<Rightarrow> Inr k) } })"

definition is_duplicate :: "string \<Rightarrow> bool" where
  "is_duplicate text \<longleftrightarrow> contains (to_lower text) ''unique''"

definition test_failed :: "string \<Rightarrow> json" where
  "test_failed text = JObj [(''ok'', JBool False), (''message'', JStr text)]"

definition run_test :: "site_env \<Rightarrow> key \<Rightarrow> bool \<Rightarrow> json page" where
  "run_test se k inference = do {
     r \<leftarrow> proxied se (\<lambda>ev. test_key ev k inference);
     State_Monad.return (sorted_map (case r of Inl text \<Rightarrow> test_failed text | Inr v \<Rightarrow> v)) }"

record key_input =
  ki_name :: string
  ki_key :: string
  ki_priority :: int
  ki_test :: bool

definition key_fields :: "key_input field list" where
  "key_fields =
     [(''name'', fd_str (\<lambda>v r. r\<lparr>ki_name := v\<rparr>)), (''key'', fd_str (\<lambda>v r. r\<lparr>ki_key := v\<rparr>)),
      (''priority'', fd_int (\<lambda>v r. r\<lparr>ki_priority := v\<rparr>)), (''test_inference'', fd_bool (\<lambda>v r. r\<lparr>ki_test := v\<rparr>))]"

definition default_priority :: "int \<Rightarrow> int" where
  "default_priority p = (if p = 0 then 100 else p)"

text \<open>The zero value of a key, which is what the page gets when reading it back fails.\<close>

definition zero_key :: key where
  "zero_key = (new_key [] [] [] 0)\<lparr>k_enabled := False, k_auth := [], k_quota := [], k_control := []\<rparr>"

definition create_key_page :: "site_env \<Rightarrow> request \<Rightarrow> unit page" where
  "create_key_page se q =
     (case decode_body None key_fields (hq_body q) \<lparr>ki_name = [], ki_key = [], ki_priority = 0, ki_test = False\<rparr> of
        (v, good) \<Rightarrow>
          if \<not> good \<or> trim_space (ki_key v) = [] then error_reply 400 ''key is required''
          else do {
            r \<leftarrow> persist_key se (ki_name v) (ki_key v) (default_priority (ki_priority v));
            case r of
              Inl text \<Rightarrow> if is_duplicate text then error_reply 409 ''key already exists'' else server_error
            | Inr k \<Rightarrow> do {
                t \<leftarrow> run_test se k (ki_test v);
                fresh \<leftarrow> key_by_id (k_id k);
                reply_json 201 (map_obj
                  [(''key'', key_json (case fresh of Inr f \<Rightarrow> f | Inl _ \<Rightarrow> zero_key)), (''test'', t)]) } })"

definition path_id :: "string \<Rightarrow> (int \<Rightarrow> unit page) \<Rightarrow> unit page" where
  "path_id param next = (case atoi param of None \<Rightarrow> error_reply 400 ''invalid id'' | Some i \<Rightarrow> next i)"

text \<open>The key of a path, or the answer that it is missing.\<close>

definition path_key :: "string \<Rightarrow> (int \<Rightarrow> key \<Rightarrow> unit page) \<Rightarrow> unit page" where
  "path_key param next = path_id param (\<lambda>i. do {
     r \<leftarrow> key_by_id i;
     case r of Inl e \<Rightarrow> not_found_or_error e | Inr k \<Rightarrow> next i k })"

record key_patch =
  kp_name :: "string option"
  kp_priority :: "int option"
  kp_enabled :: "bool option"
  kp_probe :: "string option"

definition patch_fields :: "key_patch field list" where
  "patch_fields =
     [(''name'', fd_ptr fd_str (\<lambda>v r. r\<lparr>kp_name := v\<rparr>)), (''priority'', fd_ptr fd_int (\<lambda>v r. r\<lparr>kp_priority := v\<rparr>)),
      (''admin_enabled'', fd_ptr fd_bool (\<lambda>v r. r\<lparr>kp_enabled := v\<rparr>)),
      (''auto_probe_mode'', fd_ptr fd_str (\<lambda>v r. r\<lparr>kp_probe := v\<rparr>))]"

definition no_patch :: key_patch where
  "no_patch = \<lparr>kp_name = None, kp_priority = None, kp_enabled = None, kp_probe = None\<rparr>"

definition default_to :: "'a \<Rightarrow> 'a option \<Rightarrow> 'a" where
  "default_to a v = (case v of None \<Rightarrow> a | Some b \<Rightarrow> b)"

text \<open>The override a mode asks for; None for a mode that does not exist.\<close>

definition probe_override :: "bool option \<Rightarrow> string option \<Rightarrow> bool option option" where
  "probe_override current mode =
     (case mode of
        None \<Rightarrow> Some current
      | Some m \<Rightarrow>
          if m = ''inherit'' then Some None
          else if m = ''enabled'' then Some (Some True)
          else if m = ''disabled'' then Some (Some False)
          else None)"

definition update_key_page :: "request \<Rightarrow> string \<Rightarrow> unit page" where
  "update_key_page q param = path_key param (\<lambda>i current.
     case decode_body None patch_fields (hq_body q) no_patch of
       (v, good) \<Rightarrow>
         if \<not> good then error_reply 400 ''invalid JSON''
         else case probe_override (k_override current) (kp_probe v) of
             None \<Rightarrow> error_reply 400 ''auto_probe_mode must be inherit, enabled, or disabled''
           | Some override \<Rightarrow> do {
               r \<leftarrow> update_key i (default_to (k_name current) (map_option trim_space (kp_name v)))
                     (default_to (k_priority current) (kp_priority v))
                     (default_to (k_enabled current) (kp_enabled v)) override;
               case r of
                 Inl _ \<Rightarrow> server_error
               | Inr k \<Rightarrow> reply_json 200 (JObj [(''key'', key_json k)]) })"

definition delete_key_page :: "string \<Rightarrow> unit page" where
  "delete_key_page param = path_id param (\<lambda>i. do {
     r \<leftarrow> delete_key i;
     case r of Inl _ \<Rightarrow> server_error | Inr _ \<Rightarrow> page_do (write_header 204) })"

definition activate_key :: "string \<Rightarrow> unit page" where
  "activate_key param = path_key param (\<lambda>i k.
     if \<not> k_enabled k \<or> k_auth k = ''invalid'' \<or> k_quota k = ''cooling''
     then error_reply 409 ''key is not eligible for activation''
     else do {
       r \<leftarrow> set_active i;
       case r of Inl _ \<Rightarrow> server_error | Inr _ \<Rightarrow> reply_json 200 (JObj [(''ok'', JBool True)]) })"

definition test_key_page :: "site_env \<Rightarrow> request \<Rightarrow> string \<Rightarrow> unit page" where
  "test_key_page se q param = path_key param (\<lambda>i k. do {
     let inference = fst (decode_body None [(''inference'', fd_bool (\<lambda>v _. v))] (hq_body q) False);
     r \<leftarrow> proxied se (\<lambda>ev. test_key ev k inference);
     case r of
       Inl text \<Rightarrow> reply_json 502 (map_obj [(''ok'', JBool False), (''error'', JStr text)])
     | Inr v \<Rightarrow> reply_json 200 (sorted_map v) })"

section \<open>Importing keys\<close>

record import_result =
  ir_line :: int
  ir_name :: string
  ir_fingerprint :: string
  ir_status :: string
  ir_error :: string
  ir_key :: "key option"
  ir_test :: "json option"

definition result_json :: "import_result \<Rightarrow> json" where
  "result_json r = JObj
     ([(''line'', json_int (ir_line r)), (''name'', JStr (ir_name r))] @ json_text ''fingerprint'' (ir_fingerprint r)
      @ [(''status'', JStr (ir_status r))] @ json_text ''error'' (ir_error r)
      @ json_when ''key'' key_json (ir_key r) @ json_when ''test'' id (ir_test r))"

record import_input =
  ii_keys :: "string list"
  ii_prefix :: string
  ii_priority :: int
  ii_validate :: bool
  ii_test :: bool

definition import_fields :: "import_input field list" where
  "import_fields =
     [(''keys'', fd_list [] (fd_str (\<lambda>v _. v)) (\<lambda>v r. r\<lparr>ii_keys := v\<rparr>)),
      (''name_prefix'', fd_str (\<lambda>v r. r\<lparr>ii_prefix := v\<rparr>)), (''priority'', fd_int (\<lambda>v r. r\<lparr>ii_priority := v\<rparr>)),
      (''validate'', fd_bool (\<lambda>v r. r\<lparr>ii_validate := v\<rparr>)), (''test_inference'', fd_bool (\<lambda>v r. r\<lparr>ii_test := v\<rparr>))]"

definition no_import :: import_input where
  "no_import = \<lparr>ii_keys = [], ii_prefix = [], ii_priority = 0, ii_validate = False, ii_test = False\<rparr>"

text \<open>The variables of the loop: fingerprints seen, results so far, and the three counters.\<close>

record import_state =
  im_seen :: "string list"
  im_results :: "import_result list"
  im_imported :: int
  im_duplicates :: int
  im_failed :: int

definition no_results :: import_state where
  "no_results = \<lparr>im_seen = [], im_results = [], im_imported = 0, im_duplicates = 0, im_failed = 0\<rparr>"

definition blank_result :: "nat \<Rightarrow> import_result" where
  "blank_result index =
     \<lparr>ir_line = int index + 1, ir_name = [], ir_fingerprint = [], ir_status = ''failed'', ir_error = [],
      ir_key = None, ir_test = None\<rparr>"

definition add_failed :: "string \<Rightarrow> import_result \<Rightarrow> import_state \<Rightarrow> import_state" where
  "add_failed text r im =
     im\<lparr>im_failed := im_failed im + 1, im_results := im_results im @ [r\<lparr>ir_error := text\<rparr>]\<rparr>"

definition add_duplicate :: "string \<Rightarrow> import_result \<Rightarrow> import_state \<Rightarrow> import_state" where
  "add_duplicate text r im =
     im\<lparr>im_duplicates := im_duplicates im + 1,
        im_results := im_results im @ [r\<lparr>ir_status := ''duplicate'', ir_error := text\<rparr>]\<rparr>"

definition add_imported :: "json option \<Rightarrow> key option \<Rightarrow> import_result \<Rightarrow> import_state \<Rightarrow> import_state" where
  "add_imported test fresh r im =
     im\<lparr>im_imported := im_imported im + 1,
        im_results := im_results im @ [r\<lparr>ir_status := ''imported'', ir_test := test, ir_key := fresh\<rparr>]\<rparr>"

text \<open>The number of a line in at least two digits.\<close>

definition line_text :: "nat \<Rightarrow> string" where
  "line_text index = (if index + 1 < 10 then ''0'' else []) @ int_text (int index + 1)"

definition import_name :: "import_input \<Rightarrow> nat \<Rightarrow> string \<Rightarrow> string" where
  "import_name v index fp =
     (let prefix = trim_space (ii_prefix v) in
      if prefix = [] then ''Key '' @ fp
      else if 1 < length (ii_keys v) then prefix @ '' '' @ line_text index
      else prefix)"

definition import_save :: "site_env \<Rightarrow> import_input \<Rightarrow> nat \<Rightarrow> string \<Rightarrow> import_result \<Rightarrow> import_state \<Rightarrow> import_state page" where
  "import_save se v index secret r im = do {
     saved \<leftarrow> persist_key se (ir_name r) secret (wrap64 (ii_priority v + int index));
     case saved of
       Inl text \<Rightarrow> State_Monad.return
         (if is_duplicate text then add_duplicate ''key already exists'' r im
          else add_failed ''could not save key'' r im)
     | Inr k \<Rightarrow> do {
         test \<leftarrow> (if ii_validate v \<or> ii_test v
                  then State_Monad.bind (run_test se k (ii_test v)) (\<lambda>t. State_Monad.return (Some t))
                  else State_Monad.return None);
         fresh \<leftarrow> key_by_id (k_id k);
         State_Monad.return (add_imported test (case fresh of Inr f \<Rightarrow> Some f | Inl _ \<Rightarrow> None) r im) } }"

definition import_one :: "site_env \<Rightarrow> import_input \<Rightarrow> nat \<times> string \<Rightarrow> import_state \<Rightarrow> import_state page" where
  "import_one se v item im =
     (case item of (index, raw) \<Rightarrow>
        let secret = trim_space raw; r = blank_result index; fp = fingerprint secret in
        if secret = [] then State_Monad.return (add_failed ''empty key'' r im)
        else if 4096 < length secret then State_Monad.return (add_failed ''key is too long'' r im)
        else if fp \<in> set (im_seen im)
        then State_Monad.return (add_duplicate ''duplicate key in this import'' (r\<lparr>ir_fingerprint := fp\<rparr>) im)
        else import_save se v index secret (r\<lparr>ir_fingerprint := fp, ir_name := import_name v index fp\<rparr>)
               (im\<lparr>im_seen := fp # im_seen im\<rparr>))"

fun import_each :: "site_env \<Rightarrow> import_input \<Rightarrow> (nat \<times> string) list \<Rightarrow> import_state \<Rightarrow> import_state page" where
  "import_each se v [] im = State_Monad.return im"
| "import_each se v (x # xs) im = State_Monad.bind (import_one se v x im) (import_each se v xs)"

definition import_limit :: nat where
  "import_limit = 1048576"

definition max_import_keys :: nat where
  "max_import_keys = 100"

definition import_keys :: "site_env \<Rightarrow> request \<Rightarrow> unit page" where
  "import_keys se q =
     (case decode_body (Some import_limit) import_fields (hq_body q) no_import of
        (v, good) \<Rightarrow>
          if \<not> good then error_reply 400 ''invalid JSON''
          else if ii_keys v = [] then error_reply 400 ''at least one key is required''
          else if max_import_keys < length (ii_keys v)
          then error_reply 400 ''at most 100 keys can be imported at once''
          else do {
            im \<leftarrow> import_each se (v\<lparr>ii_priority := default_priority (ii_priority v)\<rparr>)
                    (enumerate 0 (ii_keys v)) no_results;
            reply_json 200 (map_obj
              [(''total'', json_int (int (length (ii_keys v)))), (''imported'', json_int (im_imported im)),
               (''duplicates'', json_int (im_duplicates im)), (''failed'', json_int (im_failed im)),
               (''results'', JArr (map result_json (im_results im)))]) })"

section \<open>Settings and reports\<close>

definition get_settings_page :: "unit page" where
  "get_settings_page = do {
     r \<leftarrow> get_settings;
     case r of Inl _ \<Rightarrow> server_error | Inr v \<Rightarrow> reply_json 200 (settings_json v) }"

definition settings_fields :: "settings field list" where
  "settings_fields =
     [(''auto_probe_enabled'', fd_bool (\<lambda>v r. r\<lparr>st_auto_probe := v\<rparr>)),
      (''force_stream_usage'', fd_bool (\<lambda>v r. r\<lparr>st_force_usage := v\<rparr>)),
      (''probe_model'', fd_str (\<lambda>v r. r\<lparr>st_probe_model := v\<rparr>)),
      (''probe_interval_sec'', fd_int (\<lambda>v r. r\<lparr>st_probe_interval := v\<rparr>)),
      (''models_cache_sec'', fd_int (\<lambda>v r. r\<lparr>st_models_cache := v\<rparr>))]"

definition settings_allowed :: "settings \<Rightarrow> bool" where
  "settings_allowed v \<longleftrightarrow> st_probe_model v \<noteq> [] \<and> 60 \<le> st_probe_interval v \<and> 30 \<le> st_models_cache v"

definition update_settings_page :: "request \<Rightarrow> unit page" where
  "update_settings_page q =
     (case decode_body None settings_fields (hq_body q) zero_settings of
        (v, good) \<Rightarrow>
          if \<not> good then error_reply 400 ''invalid JSON''
          else if \<not> settings_allowed v then error_reply 400 ''invalid settings''
          else do {
            r \<leftarrow> update_settings v;
            case r of Inl _ \<Rightarrow> server_error | Inr _ \<Rightarrow> reply_json 200 (settings_json v) })"

text \<open>ParseInt with its error ignored: the nearest number of 64 bits, or zero for no number.\<close>

definition lenient_int :: "string \<Rightarrow> int" where
  "lenient_int s =
     (case atoi s of
        Some n \<Rightarrow> n
      | None \<Rightarrow>
          let (neg, ds) = (if prefix ''-'' s then (True, drop 1 s) else if prefix ''+'' s then (False, drop 1 s) else (False, s))
          in if \<not> all_digits ds then 0 else if neg then - (2 ^ 63) else 2 ^ 63 - 1)"

definition requests_page :: "request \<Rightarrow> unit page" where
  "requests_page q = do {
     r \<leftarrow> recent_requests (lenient_int (query_get (hq_query q) ''limit'')) (lenient_int (query_get (hq_query q) ''key_id''))
            (query_get (hq_query q) ''model'');
     case r of
       Inl _ \<Rightarrow> server_error
     | Inr rs \<Rightarrow> reply_json 200 (JObj [(''requests'', JArr (map request_json rs))]) }"

definition dashboard_window :: "string \<Rightarrow> duration" where
  "dashboard_window v =
     (if v = ''24h'' then 24 * hour
      else if v = ''7d'' then 7 * 24 * hour
      else if v = ''30d'' then 30 * 24 * hour
      else 5 * hour)"

definition dashboard_page :: "request \<Rightarrow> unit page" where
  "dashboard_page q = do {
     t \<leftarrow> now;
     r \<leftarrow> read_dashboard (t - dashboard_window (query_get (hq_query q) ''window''));
     case r of Inl _ \<Rightarrow> server_error | Inr d \<Rightarrow> reply_json 200 (dashboard_json d) }"

section \<open>The rest\<close>

text \<open>The stream of events, until the client has gone, which it has after n more ticks.\<close>

definition tick_event :: string where
  "tick_event = ''event: tick'' @ [CHR 0x0A] @ ''data: '' @ [CHR 0x7B, CHR 0x7D, CHR 0x0A, CHR 0x0A]"

fun tick_events :: "nat \<Rightarrow> unit page" where
  "tick_events 0 = page_do (\<lambda>w. snd (write_bytes tick_event w))"
| "tick_events (Suc n) = do { page_do (\<lambda>w. snd (write_bytes tick_event w)); tick_events n }"

definition events_page :: "nat \<Rightarrow> unit page" where
  "events_page n = do {
     page_do (set_header ''Content-Type'' ''text/event-stream'');
     page_do (set_header ''Cache-Control'' ''no-cache'');
     tick_events n }"

text \<open>The file webHandler serves; \<open>is_file\<close> is what os.Stat knows of the disk.\<close>

definition web_path :: "string \<Rightarrow> string" where
  "web_path url =
     (let p = trim_prefix (clean_path url) ''/'' in if p = ''.'' \<or> p = [] then ''index.html'' else p)"

definition web_file :: "string \<Rightarrow> (string \<Rightarrow> bool) \<Rightarrow> string \<Rightarrow> string" where
  "web_file root is_file url =
     (let full = join_path [root, web_path url]
      in if is_file full then full else join_path [root, ''index.html''])"

definition health_live :: "unit page" where
  "health_live = reply_json 200 (JObj [(''status'', JStr ''ok'')])"

definition health_ready :: "unit page" where
  "health_ready = do {
     r \<leftarrow> get_settings;
     case r of
       Inl _ \<Rightarrow> reply_json 503 (JObj [(''status'', JStr ''not_ready'')])
     | Inr _ \<Rightarrow> do {
         ready \<leftarrow> gets initialized;
         reply_json 200 (map_obj [(''status'', JStr ''ready''), (''initialized'', JBool ready)]) } }"

end
