(* ===== verification/Startup.thy ===== *)
theory Startup
  imports Sessions Config
begin

text \<open>
  The start of the process (main.go): the configuration, the database file with its migration
  (Open, migrate and ensureColumn of internal/store/sqlite.go), the identity, and empty stores of
  sessions and tickets. A start that fails ends the process.
\<close>

section \<open>The database file\<close>

text \<open>
  A file of an older version, or a new one: tables may be missing, the settings may have no row,
  and the table of requests may lack the two columns of the client; what its rows say of a missing
  column does not matter.
\<close>

record db_image =
  fi_keys :: "key_row list option"
  fi_key_seq :: int
  fi_settings :: "settings_row option option"
  fi_requests :: "request_row list option"
  fi_has_client :: bool
  fi_has_name :: bool
  fi_attempts :: "attempt_row list option"
  fi_events :: "quota_row list option"
  fi_cache :: "cache_row option option"

definition created :: "'a \<Rightarrow> 'a option \<Rightarrow> 'a option" where
  "created a t = (case t of None \<Rightarrow> Some a | Some b \<Rightarrow> Some b)"

text \<open>
  A part of the opening takes the faults of the statements to come; it returns whether all of its
  statements worked, the image and the faults that are left. The statements are not in a
  transaction, so that what has been done before a fault stays.
\<close>

type_synonym file_step = "bool list \<Rightarrow> db_image \<Rightarrow> bool \<times> db_image \<times> bool list"

definition statement :: "(db_image \<Rightarrow> db_image) \<Rightarrow> file_step" where
  "statement f bs d = (case bs of [] \<Rightarrow> (True, f d, []) | b # cs \<Rightarrow> if b then (False, d, cs) else (True, f d, cs))"

definition and_then :: "file_step \<Rightarrow> file_step \<Rightarrow> file_step" where
  "and_then m n bs d = (case m bs d of (good, e, cs) \<Rightarrow> if good then n cs e else (False, e, cs))"

fun in_order :: "file_step list \<Rightarrow> file_step" where
  "in_order [] = (\<lambda>bs d. (True, d, bs))"
| "in_order (m # ms) = and_then m (in_order ms)"

subsection \<open>migrate\<close>

definition make_keys :: "db_image \<Rightarrow> db_image" where
  "make_keys d = (if fi_keys d = None then d\<lparr>fi_keys := Some [], fi_key_seq := 0\<rparr> else d)"

definition make_settings :: "db_image \<Rightarrow> db_image" where
  "make_settings d = d\<lparr>fi_settings := created None (fi_settings d)\<rparr>"

definition fill_settings :: "db_image \<Rightarrow> db_image" where
  "fill_settings d =
     d\<lparr>fi_settings := map_option (\<lambda>s. created (db_settings migrated) s) (fi_settings d)\<rparr>"

definition make_requests :: "db_image \<Rightarrow> db_image" where
  "make_requests d =
     (if fi_requests d = None then d\<lparr>fi_requests := Some [], fi_has_client := True, fi_has_name := True\<rparr> else d)"

definition make_attempts :: "db_image \<Rightarrow> db_image" where
  "make_attempts d = d\<lparr>fi_attempts := created [] (fi_attempts d)\<rparr>"

definition make_events :: "db_image \<Rightarrow> db_image" where
  "make_events d = d\<lparr>fi_events := created [] (fi_events d)\<rparr>"

definition make_cache :: "db_image \<Rightarrow> db_image" where
  "make_cache d = d\<lparr>fi_cache := created None (fi_cache d)\<rparr>"

text \<open>An index changes no row.\<close>

definition make_index :: "db_image \<Rightarrow> db_image" where
  "make_index d = d"

definition schema :: "(db_image \<Rightarrow> db_image) list" where
  "schema =
     [make_keys, make_index, make_settings, fill_settings, make_requests, make_index, make_index, make_index,
      make_attempts, make_index, make_events, make_index, make_cache]"

text \<open>ensureColumn: the columns are read, and a missing one is added with its default.\<close>

definition ensure_column :: "(db_image \<Rightarrow> bool) \<Rightarrow> (db_image \<Rightarrow> db_image) \<Rightarrow> file_step" where
  "ensure_column present add =
     and_then (statement id) (\<lambda>bs d. if present d then (True, d, bs) else statement add bs d)"

definition add_client :: "db_image \<Rightarrow> db_image" where
  "add_client d = d\<lparr>fi_has_client := True,
     fi_requests := map_option (map (\<lambda>r. r\<lparr>pr_client := ''master''\<rparr>)) (fi_requests d)\<rparr>"

definition add_name :: "db_image \<Rightarrow> db_image" where
  "add_name d = d\<lparr>fi_has_name := True,
     fi_requests := map_option (map (\<lambda>r. r\<lparr>pr_client_name := master_name\<rparr>)) (fi_requests d)\<rparr>"

definition migrate :: file_step where
  "migrate = in_order (map statement schema @
     [ensure_column fi_has_client add_client, ensure_column fi_has_name add_name, statement make_index])"

text \<open>Open: the directory, four pragmas and the migration.\<close>

definition open_image :: file_step where
  "open_image = in_order (replicate 5 (statement id) @ [migrate])"

subsection \<open>Tables and images\<close>

definition image_of :: "db \<Rightarrow> db_image" where
  "image_of d =
     \<lparr>fi_keys = Some (db_keys d), fi_key_seq = db_key_seq d, fi_settings = Some (Some (db_settings d)),
      fi_requests = Some (db_requests d), fi_has_client = True, fi_has_name = True,
      fi_attempts = Some (db_attempts d), fi_events = Some (db_events d), fi_cache = Some (db_cache d)\<rparr>"

definition tables_of :: "db_image \<Rightarrow> db" where
  "tables_of d =
     \<lparr>db_keys = the (fi_keys d), db_key_seq = fi_key_seq d, db_settings = the (the (fi_settings d)),
      db_requests = the (fi_requests d), db_attempts = the (fi_attempts d), db_events = the (fi_events d),
      db_cache = the (fi_cache d)\<rparr>"

lemma tables_of_image [simp]: "tables_of (image_of d) = d"
  by (simp add: tables_of_def image_of_def)

subsection \<open>What a migration does\<close>

text \<open>The image that an undisturbed opening ends with.\<close>

definition filled :: "bool \<Rightarrow> bool \<Rightarrow> request_row \<Rightarrow> request_row" where
  "filled client name r =
     r\<lparr>pr_client := (if client then pr_client r else ''master''),
       pr_client_name := (if name then pr_client_name r else master_name)\<rparr>"

definition completed :: "db_image \<Rightarrow> db_image" where
  "completed d =
     \<lparr>fi_keys = created [] (fi_keys d), fi_key_seq = (if fi_keys d = None then 0 else fi_key_seq d),
      fi_settings = Some (created (db_settings migrated) (case fi_settings d of None \<Rightarrow> None | Some s \<Rightarrow> s)),
      fi_requests = Some (case fi_requests d of None \<Rightarrow> [] | Some rs \<Rightarrow> map (filled (fi_has_client d) (fi_has_name d)) rs),
      fi_has_client = True, fi_has_name = True,
      fi_attempts = created [] (fi_attempts d), fi_events = created [] (fi_events d), fi_cache = created None (fi_cache d)\<rparr>"

lemmas image_steps =
  make_keys_def make_index_def make_settings_def fill_settings_def make_requests_def make_attempts_def
  make_events_def make_cache_def add_client_def add_name_def

lemma filled_idem [simp]:
  "filled True True = (\<lambda>r. r)"
  "filled c n (r\<lparr>pr_client := ''master''\<rparr>) = (if c then (filled c n r)\<lparr>pr_client := ''master''\<rparr> else filled c n r)"
  by (auto simp: filled_def)

lemma completed_add:
  "\<not> fi_has_client d \<Longrightarrow> completed (add_client d) = completed d"
  "\<not> fi_has_name d \<Longrightarrow> completed (add_name d) = completed d"
  by (auto simp: completed_def add_client_def add_name_def created_def filled_def split: option.split)

lemma completed_make:
  "completed (make_keys d) = completed d" "completed (make_index d) = completed d"
  "completed (make_settings d) = completed d" "completed (fill_settings d) = completed d"
  "completed (make_requests d) = completed d" "completed (make_attempts d) = completed d"
  "completed (make_events d) = completed d" "completed (make_cache d) = completed d"
  by (auto simp: image_steps completed_def created_def split: option.split)

text \<open>
  A part works towards the completed image: whatever statements fail, the image is completed by the
  same rows, and a run without a failed statement is one on a working disk.
\<close>

definition towards :: "file_step \<Rightarrow> bool" where
  "towards m \<longleftrightarrow> (\<forall>bs d. case m bs d of (good, e, cs) \<Rightarrow> completed e = completed d \<and> (good \<longrightarrow> m [] d = (True, e, [])))"

lemma towards_statement: "(\<And>d. completed (f d) = completed d) \<Longrightarrow> towards (statement f)"
  by (auto simp: towards_def statement_def split: list.split)

lemma towards_and_then: "towards m \<Longrightarrow> towards n \<Longrightarrow> towards (and_then m n)"
  unfolding towards_def and_then_def by (fastforce split: prod.splits if_splits)

lemma towards_in_order: "list_all towards ms \<Longrightarrow> towards (in_order ms)"
proof (induction ms)
  case Nil
  show ?case by (simp add: towards_def)
qed (simp add: towards_and_then)

lemma towards_column:
  assumes "\<And>d. \<not> present d \<Longrightarrow> completed (add d) = completed d"
  shows "towards (ensure_column present add)"
  using assms by (auto simp: towards_def ensure_column_def and_then_def statement_def split: list.splits)

lemma towards_migrate: "towards migrate"
  unfolding migrate_def
  by (rule towards_in_order) (simp add: schema_def towards_statement towards_column completed_make completed_add)

lemma towards_open: "towards open_image"
  unfolding open_image_def
  by (rule towards_in_order) (simp add: towards_statement towards_migrate list_all_iff)

lemma working_statements:
  "in_order (map statement fs @ ms) [] d = in_order ms [] (fold (\<lambda>f. f) fs d)"
  by (induction fs arbitrary: d) (simp_all add: and_then_def statement_def)

lemma working_column:
  "ensure_column present add [] d = (True, if present d then d else add d, [])"
  by (simp add: ensure_column_def and_then_def statement_def)

lemma working_schema: "fold (\<lambda>f. f) schema d = (completed d)\<lparr>
    fi_requests := created [] (fi_requests d), fi_has_client := fi_requests d = None \<or> fi_has_client d,
    fi_has_name := fi_requests d = None \<or> fi_has_name d\<rparr>"
  by (cases d) (simp add: schema_def image_steps completed_def created_def split: option.split)

lemma working_migrate: "migrate [] d = (True, completed d, [])"
proof -
  have "migrate [] d = in_order [ensure_column fi_has_client add_client, ensure_column fi_has_name add_name,
      statement make_index] [] (fold (\<lambda>f. f) schema d)"
    by (simp add: migrate_def working_statements del: in_order.simps)
  then show ?thesis
    by (cases "fi_requests d") (auto simp: and_then_def working_column working_schema statement_def image_steps completed_def
      created_def filled_def comp_def)
qed

lemma open_working: "open_image [] d = (True, completed d, [])"
  using working_statements [of "replicate 5 id" "[migrate]" d] working_migrate
  by (simp add: open_image_def and_then_def numeral_eq_Suc)

lemma completed_image [simp]: "completed (image_of d) = image_of d"
  by (simp add: completed_def image_of_def created_def)

text \<open>A file of this version is left alone.\<close>

definition still :: "file_step \<Rightarrow> bool" where
  "still m \<longleftrightarrow> (\<forall>bs d. fst (snd (m bs (image_of d))) = image_of d)"

lemma still_statement: "(\<And>d. f (image_of d) = image_of d) \<Longrightarrow> still (statement f)"
  by (auto simp: still_def statement_def split: list.split)

lemma still_and_then: "still m \<Longrightarrow> still n \<Longrightarrow> still (and_then m n)"
  unfolding still_def and_then_def by (auto split: prod.split) (metis fst_conv snd_conv)+

lemma still_in_order: "list_all still ms \<Longrightarrow> still (in_order ms)"
proof (induction ms)
  case Nil
  show ?case by (simp add: still_def)
qed (simp add: still_and_then)

lemma still_column: "(\<And>d. present (image_of d)) \<Longrightarrow> still (ensure_column present add)"
  by (auto simp: still_def ensure_column_def and_then_def statement_def split: list.splits)

lemma image_made:
  "make_keys (image_of d) = image_of d" "make_index (image_of d) = image_of d"
  "make_settings (image_of d) = image_of d" "fill_settings (image_of d) = image_of d"
  "make_requests (image_of d) = image_of d" "make_attempts (image_of d) = image_of d"
  "make_events (image_of d) = image_of d" "make_cache (image_of d) = image_of d"
  "fi_has_client (image_of d)" "fi_has_name (image_of d)"
  by (simp_all add: image_steps image_of_def created_def)

lemma still_open: "still open_image"
proof -
  have "still migrate"
    unfolding migrate_def
    by (rule still_in_order) (simp add: schema_def still_statement still_column image_made)
  then show ?thesis
    unfolding open_image_def by (intro still_in_order) (simp add: still_statement list_all_iff)
qed

section \<open>The start\<close>

datatype start_error = BadConfig config_error | NoDatabase | NoIdentity identity_error

definition open_store :: "bool page" where
  "open_store = State (\<lambda>s.
     case open_image (h_faults s) (image_of (h_db s)) of
       (good, d, fs) \<Rightarrow> (good, s\<lparr>h_db := tables_of d, h_faults := fs\<rparr>))"

lemma run_open_store: "\<exists>good fs. run_state open_store s = (good, s\<lparr>h_faults := fs\<rparr>)"
proof -
  obtain good e fs where e: "open_image (h_faults s) (image_of (h_db s)) = (good, e, fs)"
    by (cases "open_image (h_faults s) (image_of (h_db s))")
  moreover have "e = image_of (h_db s)" using still_open e by (metis fst_conv snd_conv still_def)
  ultimately show ?thesis by (simp add: open_store_def) blast
qed

definition start_process :: "kdf \<Rightarrow> (string \<Rightarrow> string) \<Rightarrow> (start_error + config) page" where
  "start_process kdf en =
     (case load_config en of
        Inl e \<Rightarrow> State_Monad.return (Inl (BadConfig e))
      | Inr c \<Rightarrow> do {
          good \<leftarrow> open_store;
          if \<not> good then State_Monad.return (Inl NoDatabase)
          else do {
            r \<leftarrow> open_manager kdf (cf_master c) (cf_admin c) (cf_bootstrap c);
            case r of
              Inl e \<Rightarrow> State_Monad.return (Inl (NoIdentity e))
            | Inr _ \<Rightarrow> do {
                set_sessions (\<lambda>_. []);
                set_tickets (\<lambda>_. []);
                State_Monad.return (Inr c) } } })"

end
