(* ===== verification/PageProps.thy ===== *)
theory PageProps
  imports Admin Startup
begin

text \<open>
  Properties of single pages of the site and of the start: the counters of an import, the files the
  console can reach, and the migration of an old database.
\<close>

section \<open>The import of keys\<close>

definition counted :: "string \<Rightarrow> import_result list \<Rightarrow> int" where
  "counted status rs = int (length (filter (\<lambda>r. ir_status r = status) rs))"

lemma counted_simps [simp]:
  "counted x [] = 0" "counted x (xs @ ys) = counted x xs + counted x ys"
  "counted x (r # rs) = (if ir_status r = x then 1 else 0) + counted x rs"
  by (simp_all add: counted_def)

text \<open>What one line or several lines add to the variables of the loop.\<close>

definition tallies :: "nat list \<Rightarrow> import_result list \<Rightarrow> import_state \<Rightarrow> import_state \<Rightarrow> bool" where
  "tallies ns rs im im' \<longleftrightarrow>
     im_results im' = im_results im @ rs \<and> map ir_line rs = map (\<lambda>n. int n + 1) ns \<and>
     im_imported im' = im_imported im + counted ''imported'' rs \<and>
     im_duplicates im' = im_duplicates im + counted ''duplicate'' rs \<and>
     im_failed im' = im_failed im + counted ''failed'' rs \<and>
     (\<forall>r \<in> set rs. ir_status r \<in> {''imported'', ''duplicate'', ''failed''}) \<and>
     set (im_seen im) \<subseteq> set (im_seen im') \<and>
     (let fps = map ir_fingerprint (filter (\<lambda>r. ir_status r = ''imported'') rs)
      in distinct fps \<and> set fps \<subseteq> set (im_seen im') - set (im_seen im))"

lemma tallies_Nil: "tallies [] [] im im"
  by (simp add: tallies_def)

lemma tallies_append:
  assumes "tallies ms rs a b" "tallies ns qs b c"
  shows "tallies (ms @ ns) (rs @ qs) a c"
proof -
  let ?f = "\<lambda>xs. map ir_fingerprint (filter (\<lambda>r. ir_status r = ''imported'') xs)"
  from assms have "distinct (?f rs)" "distinct (?f qs)" "set (?f rs) \<subseteq> set (im_seen b) - set (im_seen a)"
    "set (?f qs) \<subseteq> set (im_seen c) - set (im_seen b)" "set (im_seen a) \<subseteq> set (im_seen b)" "set (im_seen b) \<subseteq> set (im_seen c)"
    by (simp_all add: tallies_def Let_def)
  then have "distinct (?f rs @ ?f qs)" "set (?f rs @ ?f qs) \<subseteq> set (im_seen c) - set (im_seen a)" "set (im_seen a) \<subseteq> set (im_seen c)"
    unfolding distinct_append set_append by blast+
  with assms show ?thesis by (auto simp: tallies_def Let_def)
qed

lemma tallies_result:
  assumes "ir_line r = int n + 1"
  shows "ir_status r = ''failed'' \<Longrightarrow> tallies [n] [r\<lparr>ir_error := x\<rparr>] im (add_failed x r im)"
    "tallies [n] [r\<lparr>ir_status := ''duplicate'', ir_error := x\<rparr>] im (add_duplicate x r im)"
  using assms by (simp_all add: tallies_def add_failed_def add_duplicate_def)

lemma tallies_seen:
  assumes "ir_line r = int n + 1" "ir_fingerprint r = fp" "fp \<notin> set (im_seen im)"
  shows "ir_status r = ''failed'' \<Longrightarrow> tallies [n] [r\<lparr>ir_error := x\<rparr>] im (add_failed x r (im\<lparr>im_seen := fp # im_seen im\<rparr>))"
    "tallies [n] [r\<lparr>ir_status := ''duplicate'', ir_error := x\<rparr>] im (add_duplicate x r (im\<lparr>im_seen := fp # im_seen im\<rparr>))"
    "tallies [n] [r\<lparr>ir_status := ''imported'', ir_test := t, ir_key := k\<rparr>] im
       (add_imported t k r (im\<lparr>im_seen := fp # im_seen im\<rparr>))"
  using assms by (auto simp: tallies_def add_failed_def add_duplicate_def add_imported_def)

lemma tallies_save:
  assumes "ir_line r = int n + 1" "ir_fingerprint r = fp" "fp \<notin> set (im_seen im)" "ir_status r = ''failed''"
  shows "\<exists>x. tallies [n] [x] im (fst (run_state (import_save se v n secret r (im\<lparr>im_seen := fp # im_seen im\<rparr>)) s))"
  using tallies_seen [OF assms(1-3)] assms(4)
  by (auto simp: import_save_def run_state_bind split: prod.split sum.split) blast+

lemma tallies_one: "\<exists>x. tallies [n] [x] im (fst (run_state (import_one se v (n, raw) im) s))"
proof -
  let ?r = "blank_result n"
  have r: "ir_line ?r = int n + 1" "ir_status ?r = ''failed''" by (simp_all add: blank_result_def)
  then show ?thesis
    using tallies_result(1) [of ?r n _ im] tallies_result(2) [of "?r\<lparr>ir_fingerprint := _\<rparr>" n _ im]
    by (auto simp: import_one_def Let_def intro: tallies_save)
qed

lemma tallies_each: "\<exists>rs. tallies (map fst xs) rs im (fst (run_state (import_each se v xs im) s))"
proof (induction xs arbitrary: im s)
  case Nil
  then show ?case by (auto intro: tallies_Nil)
next
  case (Cons x xs)
  obtain im' t where one: "run_state (import_one se v x im) s = (im', t)" by (cases "run_state (import_one se v x im) s")
  with tallies_one [of "fst x" im se v "snd x" s] obtain r where "tallies [fst x] [r] im im'" by auto
  moreover obtain rs where "tallies (map fst xs) rs im' (fst (run_state (import_each se v xs im') t))" using Cons.IH by blast
  ultimately have "tallies ([fst x] @ map fst xs) ([r] @ rs) im (fst (run_state (import_each se v xs im') t))" by (rule tallies_append)
  with one show ?case by (auto simp: run_state_bind)
qed

lemma counted_all:
  "\<forall>r \<in> set rs. ir_status r \<in> {''imported'', ''duplicate'', ''failed''} \<Longrightarrow>
     counted ''imported'' rs + counted ''duplicate'' rs + counted ''failed'' rs = int (length rs)"
  by (induction rs) auto

text \<open>
  C17. The import of keys answers every line once and in order, whatever statements of the database
  fail: the lines are numbered from 1, the three counters are the numbers of lines with the three
  statuses and add up to the number of lines, and no fingerprint is reported as imported twice.
\<close>

theorem import_counts:
  "let im = fst (run_state (import_each se v (enumerate 0 keys) no_results) s);
       number = (\<lambda>status. int (length (filter (\<lambda>r. ir_status r = status) (im_results im)))) in
   map ir_line (im_results im) = map (\<lambda>n. int n + 1) [0..<length keys] \<and>
   im_imported im = number ''imported'' \<and> im_duplicates im = number ''duplicate'' \<and> im_failed im = number ''failed'' \<and>
   im_imported im + im_duplicates im + im_failed im = int (length keys) \<and>
   distinct (map ir_fingerprint (filter (\<lambda>r. ir_status r = ''imported'') (im_results im)))"
proof -
  obtain rs where a: "tallies [0..<length keys] rs no_results (fst (run_state (import_each se v (enumerate 0 keys) no_results) s))"
    using tallies_each [of "enumerate 0 keys" no_results se v s] by auto
  from this have "map ir_line rs = map (\<lambda>n. int n + 1) [0..<length keys]" by (simp add: tallies_def)
  then have "length (map ir_line rs) = length keys" by simp
  then have "length rs = length keys" by simp
  with a show ?thesis
    using counted_all [of rs] by (simp add: tallies_def no_results_def counted_def Let_def)
qed

section \<open>The files of the console\<close>

lemma web_path_parts:
  assumes "rooted_path url"
  obtains ps where "ps \<noteq> []" "list_all name_part ps" "web_path url = join ''/'' ps"
proof (cases "path_parts url = []")
  case True
  then have "web_path url = join ''/'' [''index.html'']"
    using assms by (simp add: web_path_def clean_path_def trim_prefix_def)
  moreover have "list_all name_part [''index.html'']" by (simp add: name_part_def)
  ultimately show thesis using that [of "[''index.html'']"] by blast
next
  case False
  then have "web_path url = join ''/'' (path_parts url)"
    using assms join_names [OF rooted_parts [OF assms]] by (simp add: web_path_def clean_path_def trim_prefix_def)
  with that [of "path_parts url"] False rooted_parts [OF assms] show thesis by blast
qed

text \<open>
  C19. No path of a request leaves the directory of the console. Whatever a URL path that begins with
  a slash says, the file that is opened is named by the elements of the directory followed by at
  least one element, and none of those is empty, one dot or two dots.
\<close>

theorem web_file_inside:
  assumes "prefix ''/'' url"
  shows "\<exists>rest. rest \<noteq> [] \<and> list_all (\<lambda>p. p \<notin> {[], ''.'', ''..''} \<and> CHR ''/'' \<notin> set p) rest \<and>
    web_file root is_file url = (if prefix ''/'' root then ''/'' else []) @ join ''/'' (path_parts root @ rest)"
proof -
  from assms have "rooted_path url" by (simp add: rooted_path_def)
  then obtain ps where ps: "ps \<noteq> []" "list_all name_part ps" "web_path url = join ''/'' ps" by (rule web_path_parts)
  have index: "list_all name_part [''index.html'']" by (simp add: name_part_def)
  show ?thesis
  proof (cases "is_file (join_path [root, web_path url])")
    case True
    with ps join_below [OF ps(1,2), of root] show ?thesis
      by (intro exI [of _ ps]) (simp add: web_file_def name_part_def [abs_def] rooted_path_def)
  next
    case False
    with index join_below [OF _ index, of root] show ?thesis
      by (intro exI [of _ "[''index.html'']"]) (simp add: web_file_def name_part_def rooted_path_def)
  qed
qed

theorem web_file_inside_witness:
  "\<exists>rest. list_all (\<lambda>p. p \<noteq> ''..'') rest \<and>
     web_file ''web/dist'' (\<lambda>_. True) ''/../a/../../etc/passwd'' = join ''/'' (path_parts ''web/dist'' @ rest)"
  using web_file_inside [of "''/../a/../../etc/passwd''" "''web/dist''" "\<lambda>_. True"]
  by (auto simp: list_all_iff)

section \<open>The migration\<close>

lemma towardsD:
  assumes "towards m" "m bs d = (good, e, cs)"
  shows "completed e = completed d" "good \<longrightarrow> m [] d = (True, e, [])"
proof -
  have "case m bs d of (good, e, cs) \<Rightarrow> completed e = completed d \<and> (good \<longrightarrow> m [] d = (True, e, []))"
    using assms(1) unfolding towards_def by (elim allE)
  with assms(2) show "completed e = completed d" "good \<longrightarrow> m [] d = (True, e, [])" by simp_all
qed

text \<open>
  C18. The opening of the database can be repeated. Whatever statements of it fail, the file they
  leave becomes, at the next undisturbed opening, what the first file would have become; and an
  opening that reports no error kept every key, attempt, event and the cache, gave the requests of
  an older version the client of the master token and changed nothing else of them, and kept the
  settings or wrote their defaults.
\<close>

theorem migration_resumes:
  assumes "open_image faults d = (good, e, rest)"
  shows "open_image [] e = open_image [] d \<and> fst (open_image [] e) \<and>
    (good \<longrightarrow>
      fi_has_client e \<and> fi_has_name e \<and>
      fi_keys e = Some (case fi_keys d of None \<Rightarrow> [] | Some ks \<Rightarrow> ks) \<and>
      fi_requests e = Some (case fi_requests d of None \<Rightarrow> []
        | Some rs \<Rightarrow> map (\<lambda>r. r\<lparr>pr_client := (if fi_has_client d then pr_client r else ''master''),
            pr_client_name := (if fi_has_name d then pr_client_name r else master_name)\<rparr>) rs) \<and>
      fi_attempts e = Some (case fi_attempts d of None \<Rightarrow> [] | Some xs \<Rightarrow> xs) \<and>
      fi_events e = Some (case fi_events d of None \<Rightarrow> [] | Some xs \<Rightarrow> xs) \<and>
      fi_cache e = Some (case fi_cache d of None \<Rightarrow> None | Some c \<Rightarrow> c) \<and>
      fi_settings e = Some (Some (case fi_settings d of Some (Some v) \<Rightarrow> v | _ \<Rightarrow> db_settings migrated)))"
proof -
  have "completed e = completed d" "good \<longrightarrow> open_image [] d = (True, e, [])"
    by (rule towardsD [OF towards_open assms])+
  moreover from this(2) have "good \<longrightarrow> e = completed d" by (simp add: open_working)
  ultimately show ?thesis
    by (auto simp: open_working completed_def created_def filled_def [abs_def] split: option.split)
qed

text \<open>A file of the version before the client tokens, and an opening whose last column fails.\<close>

definition old_request :: request_row where
  "old_request =
     \<lparr>pr_id = ''r1'', pr_started = [], pr_finished = None, pr_client = [], pr_client_name = [], pr_protocol = ''openai'',
      pr_model = ''m'', pr_stream = 0, pr_bytes = 2, pr_messages = 1, pr_tools = 0, pr_final_key = None, pr_attempts = 1,
      pr_status = 200, pr_outcome = ''success'', pr_error = [], pr_latency = 5, pr_ttft = None, pr_uncached = None,
      pr_cache_read = None, pr_cache_write = None, pr_output = None, pr_reasoning = None, pr_total_input = None,
      pr_total = None, pr_usage_state = ''unavailable'', pr_raw = []\<rparr>"

definition old_image :: db_image where
  "old_image =
     \<lparr>fi_keys = Some [], fi_key_seq = 4, fi_settings = Some None, fi_requests = Some [old_request],
      fi_has_client = False, fi_has_name = False, fi_attempts = None, fi_events = None, fi_cache = None\<rparr>"

definition last_fails :: "bool list" where
  "last_fails = replicate 21 False @ [True]"

lemma old_image_opens:
  "\<not> fst (open_image last_fails old_image)" "fi_has_client (fst (snd (open_image last_fails old_image)))"
  "\<not> fi_has_name (fst (snd (open_image last_fails old_image)))"
  by code_simp+

theorem migration_resumes_witness:
  "\<exists>e rest. open_image last_fails old_image = (False, e, rest) \<and> fi_has_client e \<and> \<not> fi_has_name e \<and>
     open_image [] e = open_image [] old_image"
proof -
  obtain good e rest where e: "open_image last_fails old_image = (good, e, rest)"
    by (cases "open_image last_fails old_image")
  with migration_resumes [OF e] old_image_opens show ?thesis by auto
qed

end
