(* ===== verification/Pairing.thy ===== *)
theory Pairing
  imports Admin
begin

text \<open>
  internal/httpapi/client_setup.go: pairing a client with a ticket, the client tokens, and the
  dashboard of the clients.
\<close>

section \<open>Install scripts\<close>

definition install_page :: "string \<Rightarrow> string \<Rightarrow> unit page" where
  "install_page kind script = do {
     page_do (set_header ''Content-Type'' kind);
     page_do (set_header ''Cache-Control'' ''public, max-age=300'');
     page_do (\<lambda>w. snd (write_bytes script w)) }"

definition install_ps :: "site_env \<Rightarrow> unit page" where
  "install_ps se = install_page ''text/plain; charset=utf-8'' (se_script_ps se)"

definition install_sh :: "site_env \<Rightarrow> unit page" where
  "install_sh se = install_page ''text/x-shellscript; charset=utf-8'' (se_script_sh se)"

section \<open>Pairing\<close>

definition create_client_enrollment :: "request \<Rightarrow> unit page" where
  "create_client_enrollment q =
     (case text_input ''name'' (Some small_body) (hq_body q) of
        (raw, good) \<Rightarrow>
          let name = (if trim_space raw = [] then ''OpenCode client'' else trim_space raw) in
          if \<not> good then error_reply 400 ''invalid request''
          else if 80 < rune_count name then error_reply 400 ''client name is too long''
          else do {
            (ticket, expires) \<leftarrow> ticket_create name;
            no_store;
            reply_json 201 (map_obj [(''ticket'', JStr ticket), (''expires_at'', json_time expires)]) })"

text \<open>normalizeClientBaseURL\<close>

definition normalize_base_url :: "string \<Rightarrow> string option" where
  "normalize_base_url v =
     (case parse_url (trim_space v) of
        None \<Rightarrow> None
      | Some u \<Rightarrow>
          if ur_scheme u \<notin> {''http'', ''https''} \<or> ur_host u = [] \<or> ur_user u then None
          else Some (trim_right (url_string
            (u\<lparr>ur_path := trim_right (ur_path u) (CHR ''/''), ur_raw_query := [], ur_fragment := []\<rparr>)) (CHR ''/'')))"

definition named_models :: "(string \<times> string) list \<Rightarrow> json" where
  "named_models ms = map_obj (map (\<lambda>p. (fst p, JObj [(''name'', JStr (snd p))])) ms)"

definition openai_models :: "(string \<times> string) list" where
  "openai_models =
     [(''grok-4.5'', ''Grok 4.5''), (''glm-5.2'', ''GLM-5.2''), (''glm-5.1'', ''GLM-5.1''),
      (''kimi-k3'', ''Kimi K3''), (''kimi-k2.7-code'', ''Kimi K2.7 Code''), (''kimi-k2.6'', ''Kimi K2.6''),
      (''deepseek-v4-pro'', ''DeepSeek V4 Pro''), (''deepseek-v4-flash'', ''DeepSeek V4 Flash''),
      (''mimo-v2.5'', ''MiMo-V2.5''), (''mimo-v2.5-pro'', ''MiMo-V2.5-Pro'')]"

definition anthropic_models :: "(string \<times> string) list" where
  "anthropic_models =
     [(''minimax-m3'', ''MiniMax M3''), (''minimax-m2.7'', ''MiniMax M2.7''), (''minimax-m2.5'', ''MiniMax M2.5''),
      (''qwen3.7-max'', ''Qwen3.7 Max''), (''qwen3.7-plus'', ''Qwen3.7 Plus''), (''qwen3.6-plus'', ''Qwen3.6 Plus'')]"

definition provider_options :: "string \<Rightarrow> json" where
  "provider_options base = map_obj
     [(''baseURL'', JStr base), (''apiKey'', JStr ([CHR 0x7B] @ ''file:~/.config/opencode/opencodeproxy.token'' @ [CHR 0x7D])),
      (''timeout'', json_int 600000)]"

definition provider :: "string \<Rightarrow> string \<Rightarrow> string \<Rightarrow> (string \<times> string) list \<Rightarrow> json" where
  "provider npm name base models = map_obj
     [(''npm'', JStr npm), (''name'', JStr name), (''options'', provider_options base), (''models'', named_models models)]"

definition client_providers :: "string \<Rightarrow> json" where
  "client_providers base = map_obj
     [(''opencodeproxy-openai'', provider ''@ai-sdk/openai-compatible'' ''OpencodeProxy'' base openai_models),
      (''opencodeproxy-anthropic'', provider ''@ai-sdk/anthropic'' ''OpencodeProxy (Messages)'' base anthropic_models)]"

record enroll_input =
  ei_ticket :: string
  ei_base_url :: string

definition enroll_fields :: "enroll_input field list" where
  "enroll_fields =
     [(''ticket'', fd_str (\<lambda>v r. r\<lparr>ei_ticket := v\<rparr>)), (''base_url'', fd_str (\<lambda>v r. r\<lparr>ei_base_url := v\<rparr>))]"

definition issued_reply :: "string \<Rightarrow> client_token \<Rightarrow> string \<Rightarrow> unit page" where
  "issued_reply base c token = reply_json 201 (map_obj
     [(''client'', client_json c), (''proxy_token'', JStr token),
      (''default_model'', JStr ''opencodeproxy-openai/mimo-v2.5''), (''providers'', client_providers (base @ ''/v1''))])"

definition client_enroll :: "request \<Rightarrow> unit page" where
  "client_enroll q = do {
     no_store;
     ready \<leftarrow> gets initialized;
     if \<not> ready then error_reply 503 setup_text
     else case decode_body (Some small_body) enroll_fields (hq_body q) \<lparr>ei_ticket = [], ei_base_url = []\<rparr> of
         (v, good) \<Rightarrow>
           if \<not> good then error_reply 400 ''invalid request''
           else case normalize_base_url (ei_base_url v) of
               None \<Rightarrow> error_reply 400 ''base_url must be an HTTP or HTTPS origin''
             | Some base \<Rightarrow> do {
                 item \<leftarrow> ticket_consume (trim_space (ei_ticket v));
                 case item of
                   None \<Rightarrow> error_reply 401 ''pairing ticket is invalid, expired, or already used''
                 | Some e \<Rightarrow> do {
                     r \<leftarrow> issue_client_token (er_name e);
                     case r of
                       Inl _ \<Rightarrow> server_error
                     | Inr (c, token) \<Rightarrow> issued_reply base c token } } }"

section \<open>Client tokens\<close>

definition list_tokens_page :: "unit page" where
  "list_tokens_page = do {
     cs \<leftarrow> gets list_client_tokens;
     reply_json 200 (JObj [(''tokens'', JArr (map client_json cs))]) }"

definition create_client_token :: "request \<Rightarrow> unit page" where
  "create_client_token q =
     (case text_input ''name'' (Some small_body) (hq_body q) of
        (raw, good) \<Rightarrow>
          let name = trim_space raw in
          if \<not> good then error_reply 400 ''invalid request''
          else if name = [] \<or> 80 < rune_count name
          then error_reply 400 ''client name must contain 1 to 80 characters''
          else do {
            r \<leftarrow> issue_client_token name;
            case r of
              Inl _ \<Rightarrow> server_error
            | Inr (c, token) \<Rightarrow> do {
                no_store;
                reply_json 201 (map_obj [(''client'', client_json c), (''proxy_token'', JStr token)]) } })"

text \<open>os.IsNotExist also holds for an error of the disk that says so.\<close>

definition rename_token_page :: "site_env \<Rightarrow> request \<Rightarrow> string \<Rightarrow> unit page" where
  "rename_token_page se q param =
     (case text_input ''name'' (Some small_body) (hq_body q) of
        (name, good) \<Rightarrow>
          if \<not> good then error_reply 400 ''invalid request''
          else do {
            r \<leftarrow> rename_client_token param name;
            case r of
              Inl e \<Rightarrow>
                if e = NotExist then error_reply 404 ''client token not found''
                else error_reply 400 (identity_text se e)
            | Inr c \<Rightarrow> do {
                d \<leftarrow> rename_request_client (ct_id c) (ct_name c);
                case d of Inl _ \<Rightarrow> server_error | Inr _ \<Rightarrow> reply_json 200 (client_json c) } })"

definition revoke_token_page :: "string \<Rightarrow> unit page" where
  "revoke_token_page param = do {
     r \<leftarrow> revoke_client_token param;
     case r of
       Inl e \<Rightarrow> if e = NotExist then error_reply 404 ''client token not found'' else server_error
     | Inr _ \<Rightarrow> page_do (write_header 204) }"

section \<open>The dashboard of the clients\<close>

record client_item =
  cl_item_id :: string
  cl_item_name :: string
  cl_item_kind :: string
  cl_item_active :: bool
  cl_item_created :: time
  cl_item_totals :: client_aggregate

definition no_totals :: client_aggregate where
  "no_totals = \<lparr>ca_id = [], ca_name = [], ca_requests = 0, ca_successes = 0, ca_failures = 0, ca_failovers = 0,
     ca_uncached = 0, ca_cache_read = 0, ca_cache_write = 0, ca_output = 0, ca_complete = 0, ca_latency = 0\<rparr>"

definition totals_of :: "client_aggregate list \<Rightarrow> string \<Rightarrow> client_aggregate" where
  "totals_of cs i = (case find (\<lambda>c. ca_id c = i) cs of None \<Rightarrow> no_totals | Some c \<Rightarrow> c)"

definition master_item :: "client_aggregate list \<Rightarrow> client_item" where
  "master_item cs = \<lparr>cl_item_id = ''master'', cl_item_name = master_name, cl_item_kind = ''master'',
     cl_item_active = True, cl_item_created = zero_time, cl_item_totals = totals_of cs ''master''\<rparr>"

definition token_item :: "client_aggregate list \<Rightarrow> client_token \<Rightarrow> client_item" where
  "token_item cs c = \<lparr>cl_item_id = ct_id c, cl_item_name = ct_name c, cl_item_kind = ''client'',
     cl_item_active = True, cl_item_created = ct_created c, cl_item_totals = totals_of cs (ct_id c)\<rparr>"

definition gone_item :: "client_aggregate \<Rightarrow> client_item" where
  "gone_item c = \<lparr>cl_item_id = ca_id c, cl_item_name = ca_name c, cl_item_kind = ''client'',
     cl_item_active = False, cl_item_created = zero_time, cl_item_totals = c\<rparr>"

text \<open>
  Each token takes its totals out of the map, so that a second token with its id would find none.
\<close>

fun token_items :: "client_aggregate list \<Rightarrow> client_token list \<Rightarrow> client_item list \<times> client_aggregate list" where
  "token_items cs [] = ([], cs)"
| "token_items cs (c # tokens) =
     (case token_items (filter (\<lambda>a. ca_id a \<noteq> ct_id c) cs) tokens of
        (items, rest) \<Rightarrow> (token_item cs c # items, rest))"

text \<open>
  The items: the master first, the rest by name. Equal names keep the order in which they were
  appended; that of the clients without a token is the order of a map, here that of the totals.
\<close>

definition client_items :: "client_aggregate list \<Rightarrow> client_token list \<Rightarrow> client_item list" where
  "client_items cs tokens =
     (case token_items (filter (\<lambda>a. ca_id a \<noteq> ''master'') cs) tokens of
        (items, rest) \<Rightarrow> master_item cs # sort_key cl_item_name (items @ map gone_item rest))"

definition item_json :: "client_item \<Rightarrow> json" where
  "item_json i =
     (let t = cl_item_totals i in JObj
       [(''id'', JStr (cl_item_id i)), (''name'', JStr (cl_item_name i)), (''kind'', JStr (cl_item_kind i)),
        (''active'', JBool (cl_item_active i)), (''created_at'', json_time (cl_item_created i)),
        (''requests'', json_int (ca_requests t)), (''successes'', json_int (ca_successes t)),
        (''failures'', json_int (ca_failures t)), (''failovers'', json_int (ca_failovers t)),
        (''input_uncached'', json_int (ca_uncached t)), (''cache_read'', json_int (ca_cache_read t)),
        (''cache_write'', json_int (ca_cache_write t)), (''output_tokens'', json_int (ca_output t)),
        (''usage_complete'', json_int (ca_complete t)), (''avg_latency_ms'', json_int (ca_latency t))])"

definition client_dashboard :: "request \<Rightarrow> unit page" where
  "client_dashboard q = do {
     t \<leftarrow> now;
     r \<leftarrow> client_aggregates (t - dashboard_window (query_get (hq_query q) ''window''));
     case r of
       Inl _ \<Rightarrow> server_error
     | Inr cs \<Rightarrow> do {
         tokens \<leftarrow> gets list_client_tokens;
         reply_json 200 (JObj [(''clients'', JArr (map item_json (client_items cs tokens)))]) } }"

end
