(* ===== verification/Router.thy ===== *)
theory Router
  imports Pairing
begin

text \<open>
  The routes of internal/httpapi/api.go (Router): which handler a request reaches and behind which
  gate, and a request as one step of the whole state.
\<close>

section \<open>Endpoints\<close>

datatype admin_endpoint =
    Me
  | Logout
  | ListKeys
  | CreateKey
  | ImportKeys
  | UpdateKey string
  | DeleteKey string
  | ActivateKey string
  | TestKey string
  | GetSettings
  | PutSettings
  | AccessKeyStatus
  | ChangeAccessKey
  | ListTokens
  | CreateToken
  | RenameToken string
  | CreateEnrollment
  | RevokeToken string
  | ClientDashboard
  | ListRequests
  | ReadDashboard
  | Events

datatype endpoint =
    HealthLive
  | HealthReady
  | SetupStatus
  | SetupInitialize
  | InstallPs
  | InstallSh
  | Enroll
  | ModelList
  | Inference string
  | Login
  | Admin admin_endpoint
  | Web

text \<open>
  The routes. A pattern is matched segment by segment, an {id} takes one segment; what no pattern
  takes goes to the console.
\<close>

definition fixed_routes :: "((string \<times> string) \<times> endpoint) list" where
  "fixed_routes =
     [((''GET'', ''/health/live''), HealthLive), ((''GET'', ''/health/ready''), HealthReady),
      ((''GET'', ''/api/setup/status''), SetupStatus), ((''POST'', ''/api/setup/initialize''), SetupInitialize),
      ((''GET'', ''/api/client/install.ps1''), InstallPs), ((''GET'', ''/api/client/install.sh''), InstallSh),
      ((''POST'', ''/api/client/enroll''), Enroll),
      ((''GET'', ''/v1/models''), ModelList), ((''POST'', ''/v1/chat/completions''), Inference ''openai''),
      ((''POST'', ''/v1/messages''), Inference ''anthropic''),
      ((''POST'', ''/api/admin/login''), Login),
      ((''GET'', ''/api/admin/me''), Admin Me), ((''POST'', ''/api/admin/logout''), Admin Logout),
      ((''GET'', ''/api/admin/keys''), Admin ListKeys), ((''POST'', ''/api/admin/keys''), Admin CreateKey),
      ((''POST'', ''/api/admin/keys/import''), Admin ImportKeys),
      ((''GET'', ''/api/admin/settings''), Admin GetSettings), ((''PUT'', ''/api/admin/settings''), Admin PutSettings),
      ((''GET'', ''/api/admin/access-key''), Admin AccessKeyStatus),
      ((''PUT'', ''/api/admin/access-key''), Admin ChangeAccessKey),
      ((''GET'', ''/api/admin/client-tokens''), Admin ListTokens),
      ((''POST'', ''/api/admin/client-tokens''), Admin CreateToken),
      ((''POST'', ''/api/admin/client-enrollments''), Admin CreateEnrollment),
      ((''GET'', ''/api/admin/client-dashboard''), Admin ClientDashboard),
      ((''GET'', ''/api/admin/requests''), Admin ListRequests), ((''GET'', ''/api/admin/dashboard''), Admin ReadDashboard),
      ((''GET'', ''/api/admin/stream''), Admin Events)]"

definition id_route :: "string \<Rightarrow> string list \<Rightarrow> admin_endpoint option" where
  "id_route verb parts =
     (case parts of
        [[], api, admin, kind, i] \<Rightarrow>
          if api \<noteq> ''api'' \<or> admin \<noteq> ''admin'' \<or> i = [] then None
          else if kind = ''keys'' \<and> verb = ''PATCH'' then Some (UpdateKey i)
          else if kind = ''keys'' \<and> verb = ''DELETE'' then Some (DeleteKey i)
          else if kind = ''client-tokens'' \<and> verb = ''PATCH'' then Some (RenameToken i)
          else if kind = ''client-tokens'' \<and> verb = ''DELETE'' then Some (RevokeToken i)
          else None
      | [[], api, admin, kind, i, act] \<Rightarrow>
          if api \<noteq> ''api'' \<or> admin \<noteq> ''admin'' \<or> kind \<noteq> ''keys'' \<or> verb \<noteq> ''POST'' then None
          else if act = ''activate'' then Some (ActivateKey i)
          else if act = ''test'' then Some (TestKey i)
          else None
      | _ \<Rightarrow> None)"

definition route_path :: "request \<Rightarrow> string" where
  "route_path q = (let p = (if hq_raw_path q \<noteq> [] then hq_raw_path q else hq_path q) in if p = [] then ''/'' else p)"

definition find_route :: "request \<Rightarrow> endpoint" where
  "find_route q =
     (case map_of fixed_routes (hq_verb q, route_path q) of
        Some e \<Rightarrow> e
      | None \<Rightarrow> (case id_route (hq_verb q) (split_on (CHR ''/'') (route_path q)) of
          Some e \<Rightarrow> Admin e
        | None \<Rightarrow> Web))"

section \<open>Handlers\<close>

definition security_headers :: "unit page" where
  "security_headers = do {
     page_do (set_header ''X-Content-Type-Options'' ''nosniff'');
     page_do (set_header ''X-Frame-Options'' ''DENY'');
     page_do (set_header ''Referrer-Policy'' ''no-referrer'');
     page_do (set_header ''Content-Security-Policy''
       (''default-src '' @ [CHR 0x27] @ ''self'' @ [CHR 0x27] @ ''; style-src '' @ [CHR 0x27] @ ''self'' @ [CHR 0x27]
        @ '' '' @ [CHR 0x27] @ ''unsafe-inline'' @ [CHR 0x27] @ ''; script-src '' @ [CHR 0x27] @ ''self'' @ [CHR 0x27]
        @ ''; connect-src '' @ [CHR 0x27] @ ''self'' @ [CHR 0x27])) }"

text \<open>\<open>n\<close> is the number of ticks a stream of events lives.\<close>

definition admin_page :: "site_env \<Rightarrow> request \<Rightarrow> nat \<Rightarrow> admin_endpoint \<Rightarrow> unit page" where
  "admin_page se q n e =
     (case e of
        Me \<Rightarrow> reply_json 200 (JObj [(''authenticated'', JBool True)])
      | Logout \<Rightarrow> logout q
      | ListKeys \<Rightarrow> list_keys_page
      | CreateKey \<Rightarrow> create_key_page se q
      | ImportKeys \<Rightarrow> import_keys se q
      | UpdateKey i \<Rightarrow> update_key_page q i
      | DeleteKey i \<Rightarrow> delete_key_page i
      | ActivateKey i \<Rightarrow> activate_key i
      | TestKey i \<Rightarrow> test_key_page se q i
      | GetSettings \<Rightarrow> get_settings_page
      | PutSettings \<Rightarrow> update_settings_page q
      | AccessKeyStatus \<Rightarrow> access_key_status
      | ChangeAccessKey \<Rightarrow> change_access_key se q
      | ListTokens \<Rightarrow> list_tokens_page
      | CreateToken \<Rightarrow> create_client_token q
      | RenameToken i \<Rightarrow> rename_token_page se q i
      | CreateEnrollment \<Rightarrow> create_client_enrollment q
      | RevokeToken i \<Rightarrow> revoke_token_page i
      | ClientDashboard \<Rightarrow> client_dashboard q
      | ListRequests \<Rightarrow> requests_page q
      | ReadDashboard \<Rightarrow> dashboard_page q
      | Events \<Rightarrow> events_page n)"

text \<open>
  \<open>rid\<close> is the id a new inference request gets. The console's files are sent by http.ServeFile,
  which touches none of the state; which file it is says \<open>web_file\<close>.
\<close>

definition endpoint_page :: "site_env \<Rightarrow> request \<Rightarrow> string \<Rightarrow> nat \<Rightarrow> endpoint \<Rightarrow> unit page" where
  "endpoint_page se q rid n e =
     (case e of
        HealthLive \<Rightarrow> health_live
      | HealthReady \<Rightarrow> health_ready
      | SetupStatus \<Rightarrow> setup_status
      | SetupInitialize \<Rightarrow> setup_initialize se q
      | InstallPs \<Rightarrow> install_ps se
      | InstallSh \<Rightarrow> install_sh se
      | Enroll \<Rightarrow> client_enroll q
      | ModelList \<Rightarrow> proxy_auth q (\<lambda>inc. proxied se handle_models)
      | Inference protocol \<Rightarrow> proxy_auth q (\<lambda>inc. proxied se (\<lambda>ev. handle_inference ev protocol rid inc))
      | Login \<Rightarrow> login se q
      | Admin a \<Rightarrow> admin_auth q (admin_page se q n a)
      | Web \<Rightarrow> State_Monad.return ())"

text \<open>A connection of its own for every request.\<close>

definition new_connection :: "nat option \<Rightarrow> unit page" where
  "new_connection budget =
     page_do (\<lambda>_. \<lparr>wr_header = [], wr_sent = None, wr_body = [], wr_budget = budget\<rparr>)"

definition serve_request :: "site_env \<Rightarrow> nat option \<Rightarrow> request \<Rightarrow> string \<Rightarrow> nat \<Rightarrow> unit page" where
  "serve_request se budget q rid n = do {
     new_connection budget;
     security_headers;
     endpoint_page se q rid n (find_route q) }"

end
