(* ===== verification/SiteInv.thy ===== *)
theory SiteInv
  imports Router ServerInv
begin

text \<open>
  Invariants of whole requests. What does not depend on the parts of the state that an operation
  writes is kept by it: locale host_invariant for the store, vault_invariant for the identity; a
  predicate that the single operations keep is kept by every page (locale page_invariant), the
  well-formedness of the tables for one.
\<close>

section \<open>What does not depend on the host\<close>

locale clock_invariant =
  fixes I :: "'z host_scheme \<Rightarrow> bool"
  assumes any_tick: "\<And>h. I h \<Longrightarrow> I (h\<lparr>h_ticks := Suc (h_ticks h)\<rparr>)"
    and any_faults: "\<And>h fs. I h \<Longrightarrow> I (h\<lparr>h_faults := fs\<rparr>)"
begin

lemma at_now: "keeps I now"
  by (rule keepsI) (simp add: run_now any_tick)

lemma at_now_text: "keeps I now_text"
  unfolding now_text_def by (intro keep_intros at_now)

lemma at_fault: "keeps I fault"
  by (rule keepsI) (simp add: run_fault any_faults split: list.split)

lemma at_query: "keeps I (query f)"
  unfolding query_def by (intro keep_intros at_fault)

lemma at_try: "keeps I m \<Longrightarrow> (\<And>a. keeps I (f a)) \<Longrightarrow> keeps I (try_bind m f)"
  unfolding try_bind_def by (intro keep_intros)

end

locale host_invariant = clock_invariant I for I :: "'z host_scheme \<Rightarrow> bool" +
  assumes any_db: "\<And>h d. I h \<Longrightarrow> I (h\<lparr>h_db := d\<rparr>)"
begin

lemma at_exec: "keeps I (exec f)"
  unfolding exec_def by (intro keep_intros at_fault keepsI) (auto split: sum.split prod.split intro: any_db)

lemma at_transaction:
  assumes "keeps I body" shows "keeps I (transaction body)"
proof (rule keepsI)
  fix h assume h: "I h"
  let ?m = "try_bind (query id) (\<lambda>_. try_bind body (\<lambda>a. query (\<lambda>_. a)))"
  have "keeps I ?m" by (intro at_try at_query assms)
  from keepsD [OF this h] have "I (snd (run_state ?m h))" .
  then show "I (snd (run_state (transaction body) h))"
    by (auto simp: transaction_def split: prod.split sum.split intro: any_db)
qed

lemmas parts = at_now at_now_text at_query at_exec at_try at_transaction

lemma at_store:
  "keeps I (key_by_id i)" "keeps I (create_key k)" "keeps I list_keys" "keeps I (update_key i n p e ov)"
  "keeps I (delete_key i)" "keeps I (set_active i)" "keeps I (mark_checked i x c q err)"
  "keeps I (mark_used i)" "keeps I (mark_invalid i msg)" "keeps I (mark_quota i w rs msg)"
  "keeps I mark_half_open_due" "keeps I eligible_keys" "keeps I auth_valid_keys" "keeps I get_settings"
  "keeps I (update_settings v)" "keeps I (begin_request r)" "keeps I (add_attempt a)"
  "keeps I (finish_request r u)" "keeps I (rename_request_client s n)" "keeps I (purge_before t)"
  "keeps I (save_model_cache s i)" "keeps I model_cache"
  unfolding store_defs by (intro keep_intros parts)+

lemma at_reports:
  "keeps I (recent_requests n i m)" "keeps I (client_aggregates t)" "keeps I (read_dashboard t)"
  unfolding recent_requests_def client_aggregates_def read_dashboard_def query_sum_def list_keys_def fail_def ok_def
    Let_def
  by (intro keep_intros parts)+

end

section \<open>What does not depend on the identity\<close>

locale vault_invariant = clock_invariant I for I :: "'z vault_scheme \<Rightarrow> bool" +
  assumes any_drawn: "\<And>s n. I s \<Longrightarrow> I (s\<lparr>ch_drawn := n\<rparr>)"
    and any_disk: "\<And>s d. I s \<Longrightarrow> I (s\<lparr>vt_disk := d\<rparr>)"
    and any_state: "\<And>s st. I s \<Longrightarrow> I (s\<lparr>vt_state := st\<rparr>)"
    and any_cipher: "\<And>s c. I s \<Longrightarrow> I (s\<lparr>vt_cipher := c\<rparr>)"
begin

lemma at_draw: "keeps I (draw n)"
  by (rule keepsI) (simp add: run_draw any_drawn)

lemma at_disk: "keeps I (disk_do f)"
  unfolding disk_do_def by (intro keep_intros any_disk)

lemma at_run_steps: "keeps I (run_steps fs)"
proof (induction fs)
  case (Cons f fs)
  show ?case unfolding run_steps.simps fail_def by (intro keep_intros at_fault at_disk Cons)
qed (simp add: ok_def)

lemma at_persist: "keeps I (persist st)"
  unfolding persist_def fail_def by (intro keep_intros at_try at_run_steps at_disk)

lemma at_install: "keeps I (install st c)"
  unfolding install_def by (intro keep_intros) (blast intro: any_state any_cipher)

lemma at_save: "keeps I (save old st v)"
  unfolding save_def put_state_def fail_def ok_def by (intro keep_intros at_persist any_state)

lemma at_hash: "keeps I (hash_password kdf p)"
  unfolding hash_password_def by (intro keep_intros at_draw)

lemma at_requested: "keeps I (requested_key q)"
  unfolding requested_key_def by (intro keep_intros at_draw)

lemma at_manager:
  "keeps I (initialize kdf)" "keeps I (rotate_access_key kdf q)" "keeps I (issue_client_token n)"
  "keeps I (rename_client_token i n)" "keeps I (revoke_client_token i)" "keeps I (vault_encrypt p)"
  unfolding initialize_def finish_setup_def rotate_access_key_def issue_client_token_def
    rename_client_token_def revoke_client_token_def vault_encrypt_def encrypt_def with_state_def Let_def fail_def ok_def
  by (intro keep_intros at_now at_draw at_hash at_requested at_save at_install at_persist)+

lemma at_open: "keeps I (open_manager kdf m a k)"
  unfolding open_manager_def open_document_def open_legacy_def Let_def fail_def ok_def
  by (intro keep_intros at_now at_fault at_hash at_install at_persist)

end

section \<open>What every page keeps\<close>

lemma keeps_get_bind [keep_intros]: "(\<And>a. keeps I (f a)) \<Longrightarrow> keeps I (State_Monad.bind State_Monad.get f)"
  by (intro keep_intros)

locale writer_invariant =
  fixes I :: "site \<Rightarrow> bool"
  assumes at_clock: "keeps I now"
    and at_writer: "\<And>s w. I s \<Longrightarrow> I (s\<lparr>sv_writer := w\<rparr>)"
begin

lemma keeps_page_do: "keeps I (page_do f)"
  unfolding page_do_def by (intro keep_intros at_writer)

lemma keeps_replies:
  "keeps I (reply_json st v)" "keeps I (error_reply st x)" "keeps I server_error" "keeps I (not_found_or_error e)"
  "keeps I reply_not_found" "keeps I no_store" "keeps I (set_cookie t a b)" "keeps I setup_needed"
  "keeps I (proxy_error st m k)"
  unfolding reply_json_def error_reply_def server_error_def not_found_or_error_def reply_not_found_def no_store_def
    set_cookie_def setup_needed_def proxy_error_def
  by (intro keep_intros keeps_page_do)+

end

text \<open>
  The pages that store or issue a name take it from the request or from a ticket, the saving of a
  key takes its cipher text from the identity, and the calls to the upstream come from the
  configuration: what these keep may depend on it.
\<close>

locale page_invariant = writer_invariant I for I :: "site \<Rightarrow> bool" +
  fixes se :: site_env
  assumes at_keys: "\<And>i. keeps I (key_by_id i)" "keeps I list_keys"
      "\<And>i n p e ov. keeps I (update_key i n p e ov)" "\<And>i. keeps I (delete_key i)" "\<And>i. keeps I (set_active i)"
    and at_persist_key: "\<And>n r p. keeps I (persist_key se n r p)"
    and at_settings: "keeps I get_settings" "\<And>v. keeps I (update_settings v)"
    and at_reports: "\<And>n i m. keeps I (recent_requests n i m)" "\<And>t. keeps I (client_aggregates t)"
      "\<And>t. keeps I (read_dashboard t)"
    and at_identity: "\<And>kdf. keeps I (initialize kdf)" "\<And>kdf q. keeps I (rotate_access_key kdf q)"
      "\<And>i. keeps I (revoke_client_token i)"
    and at_sessions: "keeps I session_create" "\<And>t. keeps I (session_delete t)" "keeps I session_reset"
    and at_names: "\<And>q. keeps I (create_client_enrollment q)" "\<And>q. keeps I (client_enroll q)"
      "\<And>q. keeps I (create_client_token q)" "\<And>q i. keeps I (rename_token_page se q i)"
    and at_proxy: "\<And>d k b. keeps I (lift_server (test_key ((se_env se)\<lparr>en_decrypt := d\<rparr>) k b))"
      "\<And>d. keeps I (lift_server (handle_models ((se_env se)\<lparr>en_decrypt := d\<rparr>)))"
      "\<And>d p i inc. keeps I (lift_server (handle_inference ((se_env se)\<lparr>en_decrypt := d\<rparr>) p i inc))"
begin

lemmas steps = at_clock at_keys at_persist_key at_settings at_reports at_identity at_sessions at_names at_proxy

lemmas page_steps = steps keeps_page_do keeps_replies

lemma keeps_session_valid: "keeps I (session_valid t)"
  unfolding session_valid_def by (intro keep_intros steps)

lemma keeps_start_session: "keeps I (start_session q)"
  unfolding start_session_def by (intro keep_intros page_steps)

lemma keeps_admin_auth: "keeps I m \<Longrightarrow> keeps I (admin_auth q m)"
  unfolding admin_auth_def by (intro keep_intros page_steps keeps_session_valid)

lemma keeps_proxy_auth: "(\<And>inc. keeps I (m inc)) \<Longrightarrow> keeps I (proxy_auth q m)"
  unfolding proxy_auth_def by (intro keep_intros page_steps)

lemma keeps_proxied:
  "keeps I (proxied se (\<lambda>ev. test_key ev k b))" "keeps I (proxied se handle_models)"
  "keeps I (proxied se (\<lambda>ev. handle_inference ev p i inc))"
  unfolding proxied_def by (intro keep_intros at_proxy)+

lemma keeps_login_pages:
  "keeps I (login se q)" "keeps I setup_status" "keeps I (setup_initialize se q)" "keeps I access_key_status"
  "keeps I (change_access_key se q)" "keeps I (logout q)"
  unfolding login_def setup_status_def setup_initialize_def access_key_status_def change_access_key_def logout_def Let_def
  by (intro keep_intros page_steps keeps_start_session)+

lemma keeps_run_test: "keeps I (run_test se k b)"
  unfolding run_test_def by (intro keep_intros keeps_proxied)

lemma keeps_path_id: "(\<And>i. keeps I (m i)) \<Longrightarrow> keeps I (path_id x m)"
  unfolding path_id_def by (intro keep_intros page_steps)

lemma keeps_path_key: "(\<And>i k. keeps I (m i k)) \<Longrightarrow> keeps I (path_key x m)"
  unfolding path_key_def by (intro keep_intros page_steps keeps_path_id)

lemma keeps_key_pages:
  "keeps I list_keys_page" "keeps I (create_key_page se q)" "keeps I (update_key_page q x)"
  "keeps I (delete_key_page x)" "keeps I (activate_key x)" "keeps I (test_key_page se q x)"
  unfolding list_keys_page_def create_key_page_def update_key_page_def delete_key_page_def activate_key_def
    test_key_page_def Let_def
  by (intro keep_intros page_steps keeps_run_test keeps_path_id keeps_path_key keeps_proxied)+

lemma keeps_import_one: "keeps I (import_one se v x im)"
  unfolding import_one_def import_save_def Let_def
  by (intro keep_intros page_steps keeps_run_test)

lemma keeps_import_each: "keeps I (import_each se v xs im)"
  by (induction xs arbitrary: im) (auto intro: keep_intros keeps_import_one)

lemma keeps_import_keys: "keeps I (import_keys se q)"
  unfolding import_keys_def by (intro keep_intros page_steps keeps_import_each)

lemma keeps_tick_events: "keeps I (tick_events n)"
  by (induction n) (auto intro: keep_intros keeps_page_do)

lemma keeps_report_pages:
  "keeps I get_settings_page" "keeps I (update_settings_page q)" "keeps I (requests_page q)"
  "keeps I (dashboard_page q)" "keeps I (events_page n)" "keeps I health_live" "keeps I health_ready"
  unfolding get_settings_page_def update_settings_page_def requests_page_def dashboard_page_def events_page_def
    health_live_def health_ready_def
  by (intro keep_intros page_steps keeps_tick_events)+

lemma keeps_client_pages:
  "keeps I (install_ps se)" "keeps I (install_sh se)" "keeps I list_tokens_page"
  "keeps I (revoke_token_page x)" "keeps I (client_dashboard q)"
  unfolding install_ps_def install_sh_def install_page_def list_tokens_page_def revoke_token_page_def
    client_dashboard_def Let_def
  by (intro keep_intros page_steps)+

lemma keeps_admin_page: "keeps I (admin_page se q n e)"
  unfolding admin_page_def
  by (cases e) (simp_all add: keeps_replies keeps_login_pages keeps_key_pages keeps_import_keys keeps_report_pages
    keeps_client_pages at_names)

lemma keeps_endpoint_page: "keeps I (endpoint_page se q rid n e)"
  unfolding endpoint_page_def
  by (cases e) (simp_all add: keeps_report_pages keeps_login_pages keeps_client_pages at_names keeps_proxy_auth keeps_proxied
    keeps_admin_auth keeps_admin_page)

lemma keeps_serve_request: "keeps I (serve_request se b q rid n)"
  unfolding serve_request_def new_connection_def security_headers_def
  by (intro keep_intros keeps_page_do keeps_endpoint_page)

end

text \<open>When any name and any key may be stored.\<close>

locale plain_invariant = writer_invariant I for I :: "site \<Rightarrow> bool" +
  assumes at_key: "\<And>k. keeps I (create_key k)" "\<And>p. keeps I (vault_encrypt p)"
    and at_tokens: "\<And>n. keeps I (issue_client_token n)" "\<And>i n. keeps I (rename_client_token i n)"
      "\<And>i n. keeps I (rename_request_client i n)"
    and at_tickets: "\<And>n. keeps I (ticket_create n)" "\<And>t. keeps I (ticket_consume t)"
begin

lemma keeps_persist_key: "keeps I (persist_key se n r p)"
  unfolding persist_key_def Let_def by (intro keep_intros at_key)

lemma keeps_names:
  "keeps I (create_client_enrollment q)" "keeps I (client_enroll q)" "keeps I (create_client_token q)"
  "keeps I (rename_token_page se q i)"
  unfolding create_client_enrollment_def client_enroll_def issued_reply_def create_client_token_def
    rename_token_page_def Let_def
  by (intro keep_intros at_tokens at_tickets keeps_page_do keeps_replies)+

end

section \<open>The tables\<close>

lemma on_db_drawn [simp]: "on_db P (s\<lparr>ch_drawn := n\<rparr>) = on_db P s"
  by (simp add: on_db_def)

lemma on_db_vault [simp]:
  "on_db P (s\<lparr>vt_disk := d\<rparr>) = on_db P s" "on_db P (s\<lparr>vt_state := st\<rparr>) = on_db P s"
  "on_db P (s\<lparr>vt_cipher := c\<rparr>) = on_db P s"
  by (simp_all add: on_db_def)

lemma on_db_site [simp]:
  "on_db P (s\<lparr>si_sessions := a\<rparr>) = on_db P s" "on_db P (s\<lparr>si_tickets := b\<rparr>) = on_db P s"
  by (simp_all add: on_db_def)

lemma on_db_lift [simp]: "on_db P (server.truncate s) = on_db P s" "on_db P (server.extend t m) = on_db P t"
  by (simp_all add: on_db_def server.defs)

lemma lift_on_db: "keeps (on_db P) m \<Longrightarrow> keeps (on_db P) (lift_server m)"
  using keepsD [of "on_db P" m] by (intro keepsI) (simp add: lift_server_def split_beta)

context row_invariant
begin

lemma keeps_reports:
  "keeps (on_db P) (recent_requests n i m)" "keeps (on_db P) (client_aggregates t)" "keeps (on_db P) (read_dashboard t)"
  unfolding recent_requests_def client_aggregates_def read_dashboard_def query_sum_def list_keys_def fail_def ok_def Let_def
  by (intro keep_intros)+

end

interpretation table_vault: vault_invariant "on_db P"
  by unfold_locales simp_all

lemma on_db_draw: "keeps (on_db P) (draw n)"
  by (rule keepsI) (simp add: run_draw)

lemma on_db_sessions:
  "keeps (on_db P) session_create" "keeps (on_db P) (session_delete t)" "keeps (on_db P) session_reset"
  unfolding session_create_def session_delete_def session_reset_def set_sessions_def Let_def
  by (intro keep_intros on_db_draw | simp)+

lemma on_db_tickets: "keeps (on_db P) (ticket_create n)" "keeps (on_db P) (ticket_consume t)"
  unfolding ticket_create_def ticket_consume_def drop_expired_def set_tickets_def Let_def
  by (intro keep_intros on_db_draw | simp)+

interpretation table_writer: writer_invariant "on_db P" for P
  by unfold_locales (intro keep_intros | simp)+

sublocale table_invariant \<subseteq> plain: plain_invariant "on_db P"
  by unfold_locales
    (intro keep_intros keeps_store keeps_create_key on_db_tickets table_vault.at_manager | simp)+

sublocale table_invariant \<subseteq> pages: page_invariant "on_db P" se for se
  by unfold_locales
    (intro keeps_store keeps_reports on_db_sessions lift_on_db handlers.keeps_test_key handlers.keeps_handle_models
       handlers.keeps_handle_inference table_vault.at_manager plain.keeps_persist_key plain.keeps_names)+

end
