(* ===== verification/GoUtf8.thy ===== *)
theory GoUtf8
  imports GoJsonRound
begin

text \<open>
  The texts that a decoded JSON document holds are valid UTF-8, whatever bytes were read, and
  cutting white space or trailing code points off keeps them valid.
\<close>

section \<open>Sequences\<close>

text \<open>The bytes of one code point.\<close>

definition utf8_seq :: "string \<Rightarrow> bool" where
  "utf8_seq w \<longleftrightarrow> w \<noteq> [] \<and> utf8_len (hd w) (tl w) = length w"

lemma utf8_ok_seq: "utf8_seq w \<Longrightarrow> utf8_ok (w @ t) \<longleftrightarrow> utf8_ok t"
proof -
  assume w: "utf8_seq w"
  then obtain c s where cs: "w = c # s" "utf8_len c s = Suc (length s)" by (cases w) (auto simp: utf8_seq_def)
  with utf8_len_prefix [of c s t] show ?thesis by (simp add: utf8_ok.simps(2))
qed

lemma utf8_seq_take: "utf8_len c s \<noteq> 0 \<Longrightarrow> utf8_seq (c # take (utf8_len c s - 1) s)"
  using utf8_len_prefix [of c s "[]"] by (simp add: utf8_seq_def)

lemma utf8_seq_ascii: "c < CHR 0x80 \<Longrightarrow> utf8_seq [c]"
  by (simp add: utf8_seq_def utf8_len_ascii)

lemma utf8_seq_bad: "utf8_seq utf8_bad"
  by (simp add: utf8_seq_def utf8_bad_def utf8_len_def cont_def less_char_def less_eq_char_def)

section \<open>Encoding a code point\<close>

lemma of_char_byte [simp]: "0 \<le> n \<Longrightarrow> n < 256 \<Longrightarrow> (of_char (byte n) :: nat) = nat n"
  by (simp add: byte_def nat_less_iff)

lemma byte_order:
  assumes "0 \<le> m" "m < 256" "0 \<le> n" "n < 256"
  shows "byte m \<le> byte n \<longleftrightarrow> m \<le> n" "byte m < byte n \<longleftrightarrow> m < n" "byte m = byte n \<longleftrightarrow> m = n"
proof -
  show "byte m \<le> byte n \<longleftrightarrow> m \<le> n" "byte m < byte n \<longleftrightarrow> m < n"
    using assms by (auto simp: less_eq_char_def less_char_def)
  show "byte m = byte n \<longleftrightarrow> m = n"
    using assms by (metis of_char_byte eq_nat_nat_iff)
qed

lemma bytes:
  "CHR 0x80 = byte 0x80" "CHR 0x8F = byte 0x8F" "CHR 0x90 = byte 0x90" "CHR 0x9F = byte 0x9F" "CHR 0xA0 = byte 0xA0"
  "CHR 0xBF = byte 0xBF" "CHR 0xC2 = byte 0xC2" "CHR 0xDF = byte 0xDF" "CHR 0xE0 = byte 0xE0" "CHR 0xED = byte 0xED"
  "CHR 0xEF = byte 0xEF" "CHR 0xF0 = byte 0xF0" "CHR 0xF4 = byte 0xF4"
  by (rule sym, simp add: byte_def char_of_eq)+

lemma cont_byte: "0 \<le> n \<Longrightarrow> n < 64 \<Longrightarrow> cont (byte (128 + n))"
  unfolding cont_def bytes by (simp add: byte_order)

text \<open>A Unicode code point that is no surrogate.\<close>

definition rune_ok :: "int \<Rightarrow> bool" where
  "rune_ok u \<longleftrightarrow> 0 \<le> u \<and> u \<le> 0x10FFFF \<and> (u < 0xD800 \<or> 0xDFFF < u)"

lemma utf8_seq_enc1: "0 \<le> u \<Longrightarrow> u < 128 \<Longrightarrow> utf8_seq (utf8_enc u)"
  by (simp add: utf8_enc_def) (rule utf8_seq_ascii, unfold bytes, simp add: byte_order)

lemma utf8_seq2: "2 \<le> a \<Longrightarrow> a < 32 \<Longrightarrow> cont d \<Longrightarrow> utf8_seq [byte (192 + a), d]"
  unfolding utf8_seq_def utf8_len_def bytes by (simp add: byte_order)

lemma utf8_seq3:
  assumes "0 \<le> a" "a < 16" "0 \<le> b" "b < 64" "cont e" "a = 0 \<Longrightarrow> 32 \<le> b" "a = 13 \<Longrightarrow> b < 32"
  shows "utf8_seq [byte (224 + a), byte (128 + b), e]"
proof -
  have "cont (byte (128 + b))" using assms(3,4) by (rule cont_byte)
  moreover have "byte (224 + a) = byte 224 \<longrightarrow> byte 160 \<le> byte (128 + b)"
    "byte (224 + a) = byte 237 \<longrightarrow> byte (128 + b) \<le> byte 159"
    using assms by (auto simp: byte_order)
  moreover have "\<not> byte (224 + a) < byte 128" "\<not> byte (224 + a) \<le> byte 223" "byte 224 \<le> byte (224 + a)"
    "byte (224 + a) \<le> byte 239"
    using assms by (simp_all add: byte_order)
  ultimately show ?thesis using assms(5) unfolding utf8_seq_def utf8_len_def bytes by simp
qed

lemma utf8_seq4:
  assumes "0 \<le> a" "a \<le> 4" "0 \<le> b" "b < 64" "cont e" "cont f" "a = 0 \<Longrightarrow> 16 \<le> b" "a = 4 \<Longrightarrow> b < 16"
  shows "utf8_seq [byte (240 + a), byte (128 + b), e, f]"
proof -
  have "cont (byte (128 + b))" using assms(3,4) by (rule cont_byte)
  moreover have "byte (240 + a) = byte 240 \<longrightarrow> byte 144 \<le> byte (128 + b)"
    "byte (240 + a) = byte 244 \<longrightarrow> byte (128 + b) \<le> byte 143"
    using assms by (auto simp: byte_order)
  moreover have "\<not> byte (240 + a) < byte 128" "\<not> byte (240 + a) \<le> byte 223" "\<not> byte (240 + a) \<le> byte 239"
    "byte 240 \<le> byte (240 + a)" "byte (240 + a) \<le> byte 244"
    using assms by (simp_all add: byte_order)
  ultimately show ?thesis using assms(5,6) unfolding utf8_seq_def utf8_len_def bytes by simp
qed

lemma utf8_seq_enc2: "128 \<le> u \<Longrightarrow> u < 2048 \<Longrightarrow> utf8_seq (utf8_enc u)"
  unfolding utf8_enc_def by (simp, intro utf8_seq2 cont_byte) linarith+

lemma mod64: "0 \<le> (u :: int) mod 64" "u mod 64 < 64"
  by simp_all

lemma div64: "(u :: int) div 64 mod 64 = u div 64 - 64 * (u div 4096)"
  "u div 4096 mod 64 = u div 4096 - 64 * (u div 262144)"
  by (simp_all add: minus_mult_div_eq_mod [symmetric] zdiv_zmult2_eq [symmetric])

lemma utf8_seq_enc3:
  assumes "2048 \<le> u" "u < 65536" "u < 0xD800 \<or> 0xDFFF < u" shows "utf8_seq (utf8_enc u)"
proof -
  have "utf8_seq [byte (224 + u div 4096), byte (128 + u div 64 mod 64), byte (128 + u mod 64)]"
  proof (rule utf8_seq3)
    show "0 \<le> u div 4096" "u div 4096 < 16" using assms(1,2) by linarith+
    show "32 \<le> u div 64 mod 64" if "u div 4096 = 0" using assms(1) that unfolding div64 by linarith
    show "u div 64 mod 64 < 32" if "u div 4096 = 13" using assms(3) that unfolding div64 by linarith
  qed (simp_all add: mod64 cont_byte)
  then show ?thesis using assms(1,2) by (simp add: utf8_enc_def)
qed

lemma utf8_seq_enc4:
  assumes "65536 \<le> u" "u \<le> 0x10FFFF" shows "utf8_seq (utf8_enc u)"
proof -
  have "utf8_seq [byte (240 + u div 262144), byte (128 + u div 4096 mod 64), byte (128 + u div 64 mod 64),
      byte (128 + u mod 64)]"
  proof (rule utf8_seq4)
    show "0 \<le> u div 262144" "u div 262144 \<le> 4" using assms by linarith+
    show "16 \<le> u div 4096 mod 64" if "u div 262144 = 0" using assms(1) that unfolding div64 by linarith
    show "u div 4096 mod 64 < 16" if "u div 262144 = 4" using assms(2) that unfolding div64 by linarith
  qed (simp_all add: mod64 cont_byte)
  then show ?thesis using assms by (simp add: utf8_enc_def)
qed

lemma utf8_seq_enc: "rune_ok u \<Longrightarrow> utf8_seq (utf8_enc u)"
  unfolding rune_ok_def
  by (cases "u < 128"; cases "u < 2048"; cases "u < 65536")
    (auto intro: utf8_seq_enc1 utf8_seq_enc2 utf8_seq_enc3 utf8_seq_enc4)

section \<open>Decoding\<close>

lemma hex_val_range: "hex_val c = Some v \<Longrightarrow> 0 \<le> v \<and> v < 16"
  by (auto simp: hex_val_def is_digit_def digit_val_def less_eq_char_def of_char_int split: if_splits)

lemma hex_digits_range:
  "hex_digits k n s = Some u \<Longrightarrow> n * 16 ^ k \<le> u \<and> u < (n + 1) * 16 ^ k"
proof (induction k n s rule: hex_digits.induct)
  case (3 k n c s)
  then obtain d where d: "hex_val c = Some d" "hex_digits k (16 * n + d) s = Some u" by (auto split: option.splits)
  from 3(1) [OF d] hex_val_range [OF d(1)] have "(16 * n + d) * 16 ^ k \<le> u" "u < (16 * n + d + 1) * 16 ^ k" "0 \<le> d" "d < 16"
    by auto
  moreover from this(3,4) have "16 * n * 16 ^ k \<le> (16 * n + d) * 16 ^ k" "(16 * n + d + 1) * 16 ^ k \<le> 16 * (n + 1) * 16 ^ k"
    by (auto intro!: mult_right_mono)
  moreover have "n * 16 ^ Suc k = 16 * n * 16 ^ k" "(n + 1) * 16 ^ Suc k = 16 * (n + 1) * 16 ^ k" by simp_all
  ultimately show ?case by linarith
qed simp_all

lemma unicode_escape_rune: "unicode_escape s = Some (u, t) \<Longrightarrow> rune_ok u"
  using hex_digits_range [of 4 0]
  by (fastforce simp: unicode_escape_def Let_def rune_ok_def split: option.splits if_splits)

lemma escape_val_ascii: "escape_val e = Some x \<Longrightarrow> x < CHR 0x80"
  by (auto simp: escape_val_def less_char_def dquote_def backslash_def split: if_splits)

lemma parse_str_utf8: "parse_str s = Some (v, t) \<Longrightarrow> utf8_ok v"
proof (induction s arbitrary: v t rule: parse_str.induct)
  case (1 s)
  obtain c s' where s: "s = c # s'" using 1(4) by (cases s) (auto simp: parse_str.simps [of "[]"])
  show ?case
  proof (cases "c = dquote \<or> c < CHR 0x20 \<or> c = backslash")
    case False
    let ?n = "utf8_len c s'"
    from False 1(4) obtain w where w: "parse_str (drop (?n - 1) s') = Some (w, t)"
      "v = (if ?n = 0 then utf8_bad else c # take (?n - 1) s') @ w"
      by (subst (asm) parse_str.simps) (auto simp: s Let_def)
    from False w(1) have "utf8_ok w" by (intro 1(3) [OF s]) simp_all
    moreover have "utf8_seq (if ?n = 0 then utf8_bad else c # take (?n - 1) s')"
      using utf8_seq_take [of c s'] by (simp add: utf8_seq_bad)
    ultimately show ?thesis by (simp add: w(2) utf8_ok_seq)
  next
    case True
    show ?thesis
    proof (cases "c = dquote \<or> c < CHR 0x20")
      case True
      with 1(4) show ?thesis by (subst (asm) parse_str.simps) (auto simp: s split: if_splits)
    next
      case False
      with True have c: "c \<noteq> dquote" "\<not> c < CHR 0x20" "c = backslash" by auto
      with 1(4) obtain e u where u: "s' = e # u"
        by (subst (asm) parse_str.simps) (auto simp: s split: list.splits)
      show ?thesis
      proof (cases "e = CHR ''u''")
        case True
        with 1(4) c obtain r u' w where w: "unicode_escape u = Some (r, u')" "parse_str u' = Some (w, t)" "v = utf8_enc r @ w"
          by (subst (asm) parse_str.simps) (auto simp: s u split: option.splits)
        have "utf8_ok w" by (rule 1(1) [OF s c(1,2,3) u True w(1) refl w(2)])
        with w show ?thesis by (simp add: utf8_ok_seq utf8_seq_enc unicode_escape_rune)
      next
        case False
        with 1(4) c obtain x w where w: "escape_val e = Some x" "parse_str u = Some (w, t)" "v = [x] @ w"
          by (subst (asm) parse_str.simps) (auto simp: s u split: option.splits)
        have "utf8_ok w" by (rule 1(2) [OF s c(1,2,3) u False w(1,2)])
        with w show ?thesis by (simp add: utf8_ok_seq utf8_seq_ascii escape_val_ascii del: append.simps)
      qed
    qed
  qed
qed

text \<open>Every text of a document is valid.\<close>

fun json_utf8 :: "json \<Rightarrow> bool" where
  "json_utf8 (JStr s) \<longleftrightarrow> utf8_ok s"
| "json_utf8 (JArr vs) \<longleftrightarrow> list_all json_utf8 vs"
| "json_utf8 (JObj kvs) \<longleftrightarrow> list_all (\<lambda>kv. utf8_ok (fst kv) \<and> json_utf8 (snd kv)) kvs"
| "json_utf8 v \<longleftrightarrow> True"

lemma parse_value_utf8:
  "parse_value n d s = Some (v, t) \<Longrightarrow> json_utf8 v"
  "parse_elems n d s = Some (vs, t) \<Longrightarrow> list_all json_utf8 vs"
  "parse_members n d s = Some (kvs, t) \<Longrightarrow> list_all (\<lambda>kv. utf8_ok (fst kv) \<and> json_utf8 (snd kv)) kvs"
proof (induction n d s and n d s and n d s arbitrary: v t and vs t and kvs t
    rule: parse_value_parse_elems_parse_members.induct)
  case (2 n d s)
  then show ?case
    by (auto simp: parse_str_utf8 split: list.splits if_splits)
next
  case (4 n d s)
  then show ?case by (fastforce split: option.splits list.splits if_splits)
next
  case (6 n d s)
  then show ?case by (fastforce intro: parse_str_utf8 split: option.splits list.splits if_splits)
qed simp_all

lemma first_value_utf8: "first_value lim b = Some v \<Longrightarrow> json_utf8 v"
  by (auto simp: first_value_def Let_def simp del: parse_value.simps intro: parse_value_utf8(1)
    split: option.splits prod.splits if_splits)

section \<open>Cutting\<close>

text \<open>A text is cut at a byte that begins a sequence.\<close>

lemma utf8_len_cont: "i < utf8_len a s - 1 \<Longrightarrow> cont (s ! i)"
  unfolding utf8_len_def
  by (cases s; cases "tl s"; cases "tl (tl s)")
    (auto simp: less_Suc_eq numeral_eq_Suc split: if_splits)

lemma utf8_ok_cut: "\<not> cont c \<Longrightarrow> utf8_ok (s @ c # t) \<Longrightarrow> utf8_ok s"
proof (induction "length s" arbitrary: s rule: less_induct)
  case less
  show ?case
  proof (cases s)
    case (Cons a s1)
    let ?n = "utf8_len a (s1 @ c # t)"
    from less(3) Cons have n: "?n \<noteq> 0" "utf8_ok (drop (?n - 1) (s1 @ c # t))" by (simp_all add: utf8_ok.simps(2))
    have "?n - 1 \<le> length s1"
    proof (rule ccontr)
      assume "\<not> ?n - 1 \<le> length s1"
      then have "cont ((s1 @ c # t) ! length s1)" by (intro utf8_len_cont [of _ a]) simp
      with less(2) show False by simp
    qed
    with n(2) have cut: "utf8_ok (drop (?n - 1) s1 @ c # t)" by simp
    from \<open>?n - 1 \<le> length s1\<close> utf8_len_prefix [OF n(1), of "drop (?n - 1) s1"] have "utf8_len a s1 = ?n" by simp
    with n(1) cut less(1) [OF _ less(2) cut] show ?thesis by (simp add: Cons utf8_ok.simps(2))
  qed simp
qed

lemma space1_seq: "space1 c \<Longrightarrow> utf8_seq [c]" "space1 c \<Longrightarrow> \<not> cont c"
proof -
  assume "space1 c"
  then have c: "c < CHR 0x80" by (auto simp: space1_def less_eq_char_def less_char_def)
  then show "utf8_seq [c]" by (rule utf8_seq_ascii)
  from c show "\<not> cont c" by (auto simp: cont_def not_le)
qed

lemma space2_seq: "space2 c d \<Longrightarrow> utf8_seq [c, d]" "space2 c d \<Longrightarrow> \<not> cont c"
  by (auto simp: space2_def utf8_seq_def utf8_len_def cont_def less_char_def less_eq_char_def)

lemma space3_lead: "space3 c d e \<Longrightarrow> c \<in> {CHR 0xE1, CHR 0xE2, CHR 0xE3}" "space3 c d e \<Longrightarrow> cont d" "space3 c d e \<Longrightarrow> cont e"
  by (auto simp: space3_def cont_def less_eq_char_def)

lemma space3_seq: "space3 c d e \<Longrightarrow> utf8_seq [c, d, e]" "space3 c d e \<Longrightarrow> \<not> cont c"
  using space3_lead [of c d e]
  by (auto simp: utf8_seq_def utf8_len_def cont_def less_char_def less_eq_char_def)

lemmas space_seq = space1_seq(1) space2_seq(1) space3_seq(1)
lemmas space_start = space1_seq(2) space2_seq(2) space3_seq(2)

lemma trim_left_utf8: "utf8_ok s \<Longrightarrow> utf8_ok (trim_left s)"
proof -
  have "utf8_ok s \<Longrightarrow> utf8_ok (trim_run p2 p3 s)"
    if "\<And>c d. p2 c d \<Longrightarrow> utf8_seq [c, d]" "\<And>c d e. p3 c d e \<Longrightarrow> utf8_seq [c, d, e]" for p2 p3
    using that utf8_ok_seq [OF space_seq(1)]
  proof (induction p2 p3 s rule: trim_run.induct)
    case (3 p2 p3 c d)
    then show ?case using utf8_ok_seq [of "[c]" "[d]"] space_seq(1) [of c] by auto
  next
    case (4 p2 p3 c d e s)
    then show ?case
      using utf8_ok_seq [of "[c]" "d # e # s"] utf8_ok_seq [of "[c, d]" "e # s"] utf8_ok_seq [of "[c, d, e]" s]
        space_seq(1) [of c] by auto
  qed auto
  then show "utf8_ok s \<Longrightarrow> utf8_ok (trim_left s)"
    unfolding trim_left_def by (metis space_seq(2,3))
qed

lemma trim_end_utf8: "utf8_ok s \<Longrightarrow> utf8_ok (trim_end s)"
proof -
  have "utf8_ok (rev s) \<Longrightarrow> utf8_ok (rev (trim_run p2 p3 s))"
    if "\<And>c d. p2 c d \<Longrightarrow> \<not> cont d" "\<And>c d e. p3 c d e \<Longrightarrow> \<not> cont e" for p2 p3 s
    using that
  proof (induction p2 p3 s rule: trim_run.induct)
    case (2 p2 p3 c)
    then show ?case by simp
  next
    case (3 p2 p3 c d)
    then show ?case using utf8_ok_cut [of c "[d]" "[]"] space_start(1) [of c] by auto
  next
    case (4 p2 p3 c d e s)
    then show ?case
      using utf8_ok_cut [of c "rev s @ [e, d]" "[]"] utf8_ok_cut [of d "rev s @ [e]" "[c]"]
        utf8_ok_cut [of e "rev s" "[d, c]"] space_start(1) [of c] by auto
  qed auto
  from this [of "\<lambda>d c. space2 c d" "\<lambda>e d c. space3 c d e" "rev s"]
  show "utf8_ok s \<Longrightarrow> utf8_ok (trim_end s)" unfolding trim_end_def by (auto dest: space_start)
qed

lemma trim_space_utf8: "utf8_ok s \<Longrightarrow> utf8_ok (trim_space s)"
  unfolding trim_space_def by (intro trim_end_utf8 trim_left_utf8)

end
