(* ===== verification/SiteKeys.thy ===== *)
theory SiteKeys
  imports SiteInv GoUtf8 ManagerProps
begin

text \<open>
  Store and identity together: every stored upstream key can be decrypted with the cipher in memory,
  to a secret with the stored fingerprint. The tables change under the methods of the store, the
  cipher under the operations of the identity, and saving a key ties the two.
\<close>

section \<open>Keys that open\<close>

definition opens :: "string option \<Rightarrow> string \<Rightarrow> string \<Rightarrow> bool" where
  "opens c encrypted fp \<longleftrightarrow>
     (case c of
        None \<Rightarrow> False
      | Some k \<Rightarrow> (case decrypt k encrypted of Inl _ \<Rightarrow> False | Inr p \<Rightarrow> fingerprint p = fp))"

definition all_open :: "string option \<Rightarrow> db \<Rightarrow> bool" where
  "all_open c d \<longleftrightarrow> list_all (\<lambda>r. opens c (kr_encrypted r) (kr_fingerprint r)) (db_keys d)"

lemma all_open_None: "all_open None d \<longleftrightarrow> db_keys d = []"
  by (cases "db_keys d") (simp_all add: all_open_def opens_def)

lemma all_open_update: "all_open c d \<Longrightarrow> tame f \<Longrightarrow> all_open c (update_keys Q f d)"
  by (auto simp: all_open_def list_all_iff tame_def)

lemma all_open_activate: "all_open c d \<Longrightarrow> all_open c (promote i t2 (demote t1 d))"
  by (auto simp: all_open_def list_all_iff promote_def demote_def)

lemma all_open_same_keys: "db_keys d' = db_keys d \<Longrightarrow> all_open c d \<Longrightarrow> all_open c d'"
  by (simp add: all_open_def)

lemma keys_untouched:
  "insert_event q d = Inr (u, d') \<Longrightarrow> db_keys d' = db_keys d"
  "insert_request r d = Inr (u, d') \<Longrightarrow> db_keys d' = db_keys d"
  "insert_attempt a d = Inr (u, d') \<Longrightarrow> db_keys d' = db_keys d"
  "update_request s final f d = Inr (u, d') \<Longrightarrow> db_keys d' = db_keys d"
  "put_cache c d = Inr (u, d') \<Longrightarrow> db_keys d' = db_keys d"
  by (auto simp: insert_event_def insert_request_def insert_attempt_def update_request_def put_cache_def
    split: if_splits)

lemmas all_open_untouched = keys_untouched [THEN all_open_same_keys]

lemma all_open_removed:
  "all_open c d \<Longrightarrow> all_open c (remove_key i d)" "all_open c d \<Longrightarrow> all_open c (remove_requests t d)"
  by (auto simp: all_open_def list_all_iff remove_key_def remove_requests_def Let_def)

interpretation key_rows: row_invariant "all_open c" for c
  by unfold_locales
    (erule (1) all_open_update all_open_untouched | erule all_open_activate all_open_removed
      | erule (1) all_open_untouched [rotated] | simp add: all_open_def)+

lemma insert_key_open:
  assumes "insert_key t k d = Inr (i, d')" "all_open c d" "opens c (k_encrypted k) (k_fingerprint k)"
  shows "all_open c d'"
  using assms by (auto simp: insert_key_def all_open_def Let_def split: if_splits)

lemma keeps_open_create:
  assumes "opens c (k_encrypted k) (k_fingerprint k)"
  shows "keeps (on_db (all_open c)) (create_key k)"
  unfolding create_key_def
  by (intro keep_intros key_rows.keeps_key_by_id keeps_exec) (blast intro: insert_key_open assms)

section \<open>The vault and the names\<close>

text \<open>Tickets carry names of valid UTF-8, so that the identity's file can hold them.\<close>

definition names_ok_of :: "(string \<times> enrollment) list \<Rightarrow> bool" where
  "names_ok_of m \<longleftrightarrow> list_all (\<lambda>p. utf8_ok (er_name (snd p))) m"

lemma names_del [simp]: "names_ok_of m \<Longrightarrow> names_ok_of (map_del k m)"
  by (auto simp: names_ok_of_def map_del_def list_all_iff)

lemma names_put [simp]: "names_ok_of m \<Longrightarrow> utf8_ok (er_name v) \<Longrightarrow> names_ok_of (map_put k v m)"
  by (auto simp: names_ok_of_def map_put_def list_all_iff)

lemma names_find: "names_ok_of m \<Longrightarrow> map_of m k = Some e \<Longrightarrow> utf8_ok (er_name e)"
  by (force simp: names_ok_of_def list_all_iff dest: map_of_SomeD)

definition rested :: "string option \<Rightarrow> site \<Rightarrow> bool" where
  "rested c s \<longleftrightarrow> vault_ok s \<and> names_ok_of (si_tickets s) \<and> vt_cipher s = c"

lemma vault_ok_frame [simp]:
  "vault_ok (s\<lparr>h_ticks := n\<rparr>) = vault_ok s" "vault_ok (s\<lparr>h_faults := fs\<rparr>) = vault_ok s"
  "vault_ok (s\<lparr>h_db := d\<rparr>) = vault_ok s"
  by (simp_all add: vault_ok_def cong: option.case_cong)

lemma vault_ok_frame_writer [simp]: "vault_ok (s\<lparr>sv_writer := w\<rparr>) = vault_ok s"
  by (simp add: vault_ok_def cong: option.case_cong)

lemma vault_ok_frame_drawn [simp]: "vault_ok (s\<lparr>ch_drawn := n\<rparr>) = vault_ok s"
  by (simp add: vault_ok_def cong: option.case_cong)

lemma vault_ok_frame_site [simp]:
  "vault_ok (s\<lparr>si_sessions := a\<rparr>) = vault_ok s" "vault_ok (s\<lparr>si_tickets := b\<rparr>) = vault_ok s"
  by (simp_all add: vault_ok_def cong: option.case_cong)

interpretation rested_host: host_invariant "rested c" for c
  by unfold_locales (simp_all add: rested_def)

definition safe :: "site \<Rightarrow> bool" where
  "safe s \<longleftrightarrow> vault_ok s \<and> names_ok_of (si_tickets s) \<and> all_open (vt_cipher s) (h_db s)"

lemma keeps_safe:
  assumes "\<And>c. keeps (rested c) m" "\<And>c. keeps (on_db (all_open c)) m"
  shows "keeps safe m"
proof (rule keepsI)
  fix s assume "safe s"
  then have "rested (vt_cipher s) s" "on_db (all_open (vt_cipher s)) s" by (simp_all add: safe_def rested_def on_db_def)
  from keepsD [OF assms(1) this(1)] keepsD [OF assms(2) this(2)]
  show "safe (snd (run_state m s))" by (simp add: safe_def rested_def on_db_def)
qed

section \<open>Steps of the pages\<close>

lemma lifted_vault [simp]:
  "vt_state (server.extend t (server.more s)) = vt_state s" "vt_cipher (server.extend t (server.more s)) = vt_cipher s"
  "vt_disk (server.extend t (server.more s)) = vt_disk s" "si_tickets (server.extend t (server.more s)) = si_tickets s"
  by (cases s, simp add: server.defs)+

lemma vault_ok_lift [simp]: "vault_ok (server.extend t (server.more s)) = vault_ok (s :: site)"
  by (simp only: vault_ok_def lifted_vault)

lemma lift_safe: "(\<And>c. keeps (on_db (all_open c)) m) \<Longrightarrow> keeps safe (lift_server m)"
proof (rule keeps_safe)
  fix c show "keeps (rested c) (lift_server m)"
    by (rule keepsI) (simp add: lift_server_def split_beta rested_def)
qed (rule lift_on_db)

lemma rested_draw: "keeps (rested c) (draw n)"
  by (rule keepsI) (simp add: run_draw rested_def)

lemma rested_sessions:
  "keeps (rested c) session_create" "keeps (rested c) (session_delete t)" "keeps (rested c) session_reset"
  unfolding session_create_def session_delete_def session_reset_def set_sessions_def Let_def
  by (intro keep_intros rested_draw rested_host.at_now | simp add: rested_def)+

lemma rested_ticket_create: "utf8_ok n \<Longrightarrow> keeps (rested c) (ticket_create n)"
  unfolding ticket_create_def drop_expired_def set_tickets_def Let_def
  by (intro keep_intros rested_draw rested_host.at_now | simp add: rested_def)+

lemma safe_ticket_create: "utf8_ok n \<Longrightarrow> keeps safe (ticket_create n)"
  by (rule keeps_safe) (auto intro: rested_ticket_create on_db_tickets)

lemma safe_ticket_consume:
  assumes "run_state (ticket_consume t) s = (r, s')" "safe s"
  shows "safe s' \<and> (\<forall>e. r = Some e \<longrightarrow> utf8_ok (er_name e))"
  using assms by (auto simp: run_ticket_consume safe_def names_find split: option.splits if_splits)

section \<open>Operations of the identity\<close>

interpretation frame: vault_invariant "\<lambda>s. h_db s = d \<and> si_tickets s = a" for d :: db and a
  by unfold_locales simp_all

lemma vault_cipher_state: "vault_ok s \<Longrightarrow> vt_cipher s \<noteq> None \<Longrightarrow> vt_state s \<noteq> None"
  by (auto simp: vault_ok_def split: option.splits)

lemma safe_identity:
  assumes call: "\<And>s r t. run_state m s = (r, t) \<Longrightarrow> vault_ok s \<Longrightarrow> vault_ok t \<and> (vt_state s \<noteq> None \<longrightarrow> vt_cipher t = vt_cipher s)"
    and rest: "\<And>d a. keeps (\<lambda>s. h_db s = d \<and> si_tickets s = a) m"
  shows "keeps safe m"
proof (rule keepsI)
  fix s assume s: "safe s"
  obtain r t where t: "run_state m s = (r, t)" by (cases "run_state m s")
  have "h_db t = h_db s \<and> si_tickets t = si_tickets s" using keepsD [OF rest, of s] t by simp
  moreover from call [OF t] s have "vault_ok t" "vt_state s \<noteq> None \<longrightarrow> vt_cipher t = vt_cipher s" by (simp_all add: safe_def)
  moreover have "all_open (vt_cipher t) (h_db s)"
  proof (cases "vt_cipher s")
    case None
    with s have "db_keys (h_db s) = []" by (simp add: safe_def all_open_None)
    then show ?thesis by (simp add: all_open_def)
  next
    case (Some k)
    with s calculation(3) vault_cipher_state [of s] show ?thesis by (simp add: safe_def)
  qed
  ultimately show "safe (snd (run_state m s))" using s t by (simp add: safe_def)
qed

lemma safe_call:
  assumes "\<And>s r t. run_state m s = (r, t) \<Longrightarrow> \<exists>q. run_state (run_call kdf c) s = (q, t)" "names_ok c"
    and "\<And>d a. keeps (\<lambda>s. h_db s = d \<and> si_tickets s = a) m"
  shows "keeps safe m"
proof (rule safe_identity)
  fix s t r assume "run_state m s = (r, t)" and s: "vault_ok s"
  with assms(1) obtain q where q: "run_state (run_call kdf c) s = (q, t)" by blast
  from vault_ok_call [OF q assms(2) s] call_summary [OF q]
  show "vault_ok t \<and> (vt_state s \<noteq> None \<longrightarrow> vt_cipher t = vt_cipher s)" by (simp add: summary_def)
qed (rule assms(3))

lemma run_dropped: "run_state m s = (r, t) \<Longrightarrow> \<exists>q. run_state (drop_result m) s = (q, t)"
  by (simp add: drop_result_def run_state_bind)

lemma safe_manager:
  "keeps safe (initialize kdf)" "keeps safe (rotate_access_key kdf q)" "keeps safe (revoke_client_token i)"
proof -
  show "keeps safe (initialize kdf)"
    by (rule safe_call [where c = CInitialize and kdf = kdf]) (auto intro: run_dropped frame.at_manager)
  show "keeps safe (rotate_access_key kdf q)"
    by (rule safe_call [where c = "CRotate q" and kdf = kdf]) (auto intro: run_dropped frame.at_manager)
  show "keeps safe (revoke_client_token i)"
    by (rule safe_call [where c = "CRevoke i"]) (auto intro: frame.at_manager)
qed

lemma safe_issue: "utf8_ok (client_name n) \<Longrightarrow> keeps safe (issue_client_token n)"
  by (rule safe_call [where c = "CIssue n"]) (auto intro: run_dropped frame.at_manager)

lemma safe_rename: "utf8_ok (trim_space n) \<Longrightarrow> keeps safe (rename_client_token i n)"
  by (rule safe_call [where c = "CRename i n"]) (auto intro: run_dropped frame.at_manager)

section \<open>Saving a key\<close>

lemma run_vault_encrypt:
  "run_state (vault_encrypt p) s =
     (case vt_cipher s of
        None \<Rightarrow> (Inl setup_text, s)
      | Some k \<Rightarrow> (case run_state (encrypt k p) s of (e, t) \<Rightarrow> (Inr e, t)))"
  by (simp add: vault_encrypt_def run_state_bind split: option.split prod.split)

lemma encrypt_frame: "run_state (encrypt k p) s = (e, t) \<Longrightarrow> \<exists>n. t = s\<lparr>ch_drawn := n\<rparr>"
  by (auto simp: encrypt_def run_simps)

lemma vault_key_length: "vault_ok s \<Longrightarrow> vt_cipher s = Some k \<Longrightarrow> length k = 32"
  by (rule keyed_state [of k s]) (simp_all add: keyed_def)

lemma safe_create:
  assumes "\<And>s. safe s \<Longrightarrow> I s \<Longrightarrow> opens (vt_cipher s) (k_encrypted k) (k_fingerprint k)"
  shows "safe s \<Longrightarrow> I s \<Longrightarrow> safe (snd (run_state (create_key k) s))"
proof -
  assume s: "safe s" "I s"
  have "rested (vt_cipher s) (snd (run_state (create_key k) s))"
    using s(1) by (intro keepsD [OF rested_host.at_store(2)]) (simp add: safe_def rested_def)
  moreover have "on_db (all_open (vt_cipher s)) (snd (run_state (create_key k) s))"
    using s(1) by (intro keepsD [OF keeps_open_create]) (rule assms [OF s], simp add: safe_def on_db_def)
  ultimately show ?thesis by (simp add: safe_def rested_def on_db_def)
qed

lemma safe_persist_key: "keeps safe (persist_key se n raw p)"
proof (rule keepsI)
  fix s assume s: "safe s"
  show "safe (snd (run_state (persist_key se n raw p) s))"
  proof (cases "vt_cipher s")
    case None
    with s show ?thesis by (simp add: persist_key_def Let_def run_state_bind run_vault_encrypt)
  next
    case (Some k)
    obtain e t where t: "run_state (encrypt k (trim_space raw)) s = (e, t)"
      by (cases "run_state (encrypt k (trim_space raw)) s")
    from encrypt_frame [OF t] obtain m where m: "t = s\<lparr>ch_drawn := m\<rparr>" by blast
    have "decrypt k e = Inr (trim_space raw)"
      using s Some by (intro decrypt_encrypt [OF _ t] vault_key_length) (simp_all add: safe_def)
    then have key: "opens (Some k) e (fingerprint (trim_space raw))" by (simp add: opens_def)
    have "safe t" using s m by (simp add: safe_def)
    then have "safe (snd (run_state (create_key (new_key nm e (fingerprint (trim_space raw)) p)) t))" for nm
      using Some m key by (intro safe_create [where I = "\<lambda>s. vt_cipher s = Some k"]) (simp_all add: new_key_def)
    then show ?thesis
      by (simp add: persist_key_def Let_def run_state_bind run_vault_encrypt Some t split_beta)
  qed
qed

section \<open>The pages that store a name\<close>

lemma fd_str_utf8: "json_utf8 v \<Longrightarrow> utf8_ok r \<Longrightarrow> utf8_ok (fst (fd_str (\<lambda>v _. v) v r))"
  by (cases v) (simp_all add: fd_str_def)

lemma decode_text_utf8:
  "list_all (\<lambda>kv. utf8_ok (fst kv) \<and> json_utf8 (snd kv)) kvs \<Longrightarrow> utf8_ok r \<Longrightarrow>
     utf8_ok (fst (decode_members [(n, fd_str (\<lambda>v _. v))] kvs r))"
proof (induction kvs arbitrary: r)
  case (Cons kv kvs)
  obtain k v where kv: "kv = (k, v)" by (cases kv)
  obtain r1 ok1 where r1: "(case find_field [(n, fd_str (\<lambda>v _. v))] k of None \<Rightarrow> (r, True) | Some f \<Rightarrow> snd f v r) = (r1, ok1)"
    by (cases "case find_field [(n, fd_str (\<lambda>v (_ :: string). v))] k of None \<Rightarrow> (r, True) | Some f \<Rightarrow> snd f v r")
  have "utf8_ok r1"
    using r1 Cons(2,3) fd_str_utf8 [of v r] by (auto simp: kv find_field_def split: if_splits)
  with Cons kv r1 show ?case by (simp split: prod.split) (metis fst_conv)
qed simp

lemma text_input_utf8:
  assumes "text_input n lim b = (raw, good)" shows "utf8_ok raw"
proof (cases "first_value lim b")
  case (Some v)
  from first_value_utf8 [OF this] have v: "json_utf8 v" .
  from Some assms have "raw = fst (decode_struct [(n, fd_str (\<lambda>v _. v))] v [])"
    by (simp add: text_input_def decode_body_def)
  then show ?thesis using v decode_text_utf8 [of _ "[]" n] by (cases v) (simp_all add: decode_struct_def)
qed (use assms in \<open>simp add: text_input_def decode_body_def\<close>)

lemma rune_take_utf8: "utf8_ok s \<Longrightarrow> utf8_ok (rune_take n s)"
proof (induction n s rule: rune_take.induct)
  case (3 n c s)
  let ?k = "utf8_len c s"
  from 3(2) have k: "?k \<noteq> 0" "utf8_ok (drop (?k - 1) s)" by (simp_all add: utf8_ok.simps(2))
  from 3(1) [OF refl k(2)] utf8_ok_seq [OF utf8_seq_take [OF k(1)], of "rune_take n (drop (?k - 1) s)"] k(1)
  show ?case by (simp add: Let_def)
qed simp_all

lemma default_name_utf8: "utf8_ok ''OpenCode client''"
  by (rule utf8_ok_ascii) (simp add: less_char_def)

lemma client_name_utf8: "utf8_ok n \<Longrightarrow> utf8_ok (client_name n)"
  by (auto simp: client_name_def Let_def rune_take_utf8 trim_space_utf8 default_name_utf8)

interpretation safe_writer: writer_invariant safe
proof
  show "keeps safe now" by (rule keeps_safe) (auto intro: rested_host.at_now keep_intros)
  show "safe (s\<lparr>sv_writer := w\<rparr>)" if "safe s" for s w using that by (simp add: safe_def)
qed

lemma safe_host:
  "keeps safe (key_by_id i)" "keeps safe list_keys" "keeps safe (update_key i n p e ov)" "keeps safe (delete_key i)"
  "keeps safe (set_active i)" "keeps safe get_settings" "keeps safe (update_settings v)"
  "keeps safe (rename_request_client j m)"
  by (rule keeps_safe; intro rested_host.at_store key_rows.keeps_store)+

lemma safe_reports:
  "keeps safe (recent_requests n i m)" "keeps safe (client_aggregates t)" "keeps safe (read_dashboard t)"
  by (rule keeps_safe; intro rested_host.at_reports key_rows.keeps_reports)+

text \<open>
  The names that pages store or issue are valid UTF-8: what the operations keep for such names, the
  pages keep.
\<close>

locale name_invariant = writer_invariant I for I :: "site \<Rightarrow> bool" +
  assumes at_ticket_create: "utf8_ok n \<Longrightarrow> keeps I (ticket_create n)"
    and at_ticket_consume: "run_state (ticket_consume t) s = (r, s') \<Longrightarrow> I s \<Longrightarrow>
      I s' \<and> (\<forall>e. r = Some e \<longrightarrow> utf8_ok (er_name e))"
    and at_issue: "utf8_ok (client_name n) \<Longrightarrow> keeps I (issue_client_token n)"
    and at_rename: "utf8_ok (trim_space n) \<Longrightarrow> keeps I (rename_client_token i n)"
    and at_rename_request: "keeps I (rename_request_client j m)"
begin

lemma keeps_enrollment: "keeps I (create_client_enrollment q)"
proof -
  obtain raw good where raw: "text_input ''name'' (Some small_body) (hq_body q) = (raw, good)"
    by (cases "text_input ''name'' (Some small_body) (hq_body q)")
  have "utf8_ok (if trim_space raw = [] then ''OpenCode client'' else trim_space raw)"
    using text_input_utf8 [OF raw] by (simp add: trim_space_utf8 default_name_utf8)
  then show ?thesis
    unfolding create_client_enrollment_def raw prod.case Let_def
    by (intro keep_intros at_ticket_create keeps_replies)
qed

lemma keeps_create_token: "keeps I (create_client_token q)"
proof -
  obtain raw good where raw: "text_input ''name'' (Some small_body) (hq_body q) = (raw, good)"
    by (cases "text_input ''name'' (Some small_body) (hq_body q)")
  have "utf8_ok (client_name (trim_space raw))"
    using text_input_utf8 [OF raw] by (simp add: trim_space_utf8 client_name_utf8)
  then show ?thesis
    unfolding create_client_token_def raw prod.case Let_def
    by (intro keep_intros at_issue keeps_replies)
qed

lemma keeps_rename_page: "keeps I (rename_token_page se q i)"
proof -
  obtain name good where raw: "text_input ''name'' (Some small_body) (hq_body q) = (name, good)"
    by (cases "text_input ''name'' (Some small_body) (hq_body q)")
  have "utf8_ok (trim_space name)" using text_input_utf8 [OF raw] by (rule trim_space_utf8)
  then show ?thesis
    unfolding rename_token_page_def raw prod.case
    by (intro keep_intros at_rename at_rename_request keeps_replies)
qed

lemma keeps_consume_case:
  assumes "keeps I m" "\<And>e. utf8_ok (er_name e) \<Longrightarrow> keeps I (g e)"
  shows "keeps I (State_Monad.bind (ticket_consume t) (\<lambda>item. case item of None \<Rightarrow> m | Some e \<Rightarrow> g e))"
proof (rule keepsI)
  fix s assume s: "I s"
  obtain item s' where c: "run_state (ticket_consume t) s = (item, s')" by (cases "run_state (ticket_consume t) s")
  from at_ticket_consume [OF c s] have "I s'" "\<And>e. item = Some e \<Longrightarrow> utf8_ok (er_name e)" by auto
  then have "I (snd (run_state (case item of None \<Rightarrow> m | Some e \<Rightarrow> g e) s'))"
    using assms by (cases item) (auto intro: keepsD)
  with c show "I (snd (run_state (State_Monad.bind (ticket_consume t)
      (\<lambda>item. case item of None \<Rightarrow> m | Some e \<Rightarrow> g e)) s))"
    by (simp add: run_state_bind)
qed

lemma keeps_enroll: "keeps I (client_enroll q)"
  unfolding client_enroll_def issued_reply_def
  by (rule keeps_consume_case | rule keeps_replies | rule keep_intros | rule at_issue, erule client_name_utf8)+

end

interpretation safe_names: name_invariant safe
  by unfold_locales (intro safe_ticket_create safe_issue safe_rename safe_host; assumption | erule (1) safe_ticket_consume)+

interpretation safe_pages: page_invariant safe se for se
proof
  show "keeps safe session_create" "keeps safe session_reset" and "keeps safe (session_delete t)" for t
    by (rule keeps_safe; intro rested_sessions on_db_sessions)+
qed (intro safe_host safe_reports safe_manager safe_persist_key safe_names.keeps_enrollment
  safe_names.keeps_create_token safe_names.keeps_rename_page safe_names.keeps_enroll lift_safe key_rows.handlers.keeps_test_key key_rows.handlers.keeps_handle_models
  key_rows.handlers.keeps_handle_inference)+

end
