(* ===== verification/SiteDates.thy ===== *)
theory SiteDates
  imports SiteInv
begin

text \<open>
  The life of sessions and tickets: every expiry that the stores of Sessions hold is a reading of
  the clock in the past plus the fixed lifetime, whatever requests have been served.
\<close>

section \<open>What leaves sessions and tickets alone\<close>

text \<open>A program that leaves the clock, its past readings, the sessions and the tickets as they are.\<close>

definition steady :: "(nat \<Rightarrow> time) \<Rightarrow> nat \<Rightarrow> (string \<times> time) list \<Rightarrow> (string \<times> enrollment) list \<Rightarrow> site \<Rightarrow> bool" where
  "steady c n a b s \<longleftrightarrow> h_clock s = c \<and> n \<le> h_ticks s \<and> si_sessions s = a \<and> si_tickets s = b"

interpretation steady_host: host_invariant "steady c n a b" for c n a b
  by unfold_locales (simp_all add: steady_def)

interpretation steady_vault: vault_invariant "steady c n a b" for c n a b
  by unfold_locales (simp_all add: steady_def)

definition aged :: "(nat \<Rightarrow> time) \<Rightarrow> nat \<Rightarrow> server \<Rightarrow> bool" where
  "aged c n s \<longleftrightarrow> h_clock s = c \<and> n \<le> h_ticks s"

interpretation aged_host: host_invariant "aged c n" for c n
  by unfold_locales (simp_all add: aged_def)

lemma aged_send: "keeps (aged c n) (send x)"
  by (rule keepsI) (simp add: send_def aged_def)

interpretation aged_handlers: call_invariant "aged c n" ev for c n ev
  by unfold_locales (intro aged_host.at_now aged_host.at_store aged_send | simp add: aged_def)+

lemma aged_scheduler: "keeps (aged c n) (scheduler_run ev)"
  unfolding scheduler_run_def
  by (intro keep_intros aged_host.at_now aged_host.at_store aged_handlers.keeps_test_key)

lemma lifted [simp]:
  "h_clock (server.extend t m) = h_clock t" "h_ticks (server.extend t m) = h_ticks t"
  "h_clock (server.truncate s) = h_clock s" "h_ticks (server.truncate s) = h_ticks s"
  by (simp_all add: server.defs)

lemma lifted_rest [simp]:
  "si_sessions (server.extend t (server.more s)) = si_sessions s"
  "si_tickets (server.extend t (server.more s)) = si_tickets s"
  by (cases s, simp add: server.defs)+

lemma lift_steady:
  assumes "keeps (aged (h_clock s) (h_ticks s)) m"
  shows "steady (h_clock s) (h_ticks s) (si_sessions s) (si_tickets s) (snd (run_state (lift_server m) s))"
  using keepsD [OF assms, of "server.truncate s"]
  by (simp add: lift_server_def split_beta steady_def aged_def)

text \<open>Every expiry is a reading of the clock in the past plus the lifetime.\<close>

definition dated :: "site \<Rightarrow> bool" where
  "dated s \<longleftrightarrow>
     list_all (\<lambda>p. \<exists>n < h_ticks s. snd p = h_clock s n + session_life) (si_sessions s) \<and>
     list_all (\<lambda>p. \<exists>n < h_ticks s. er_expires (snd p) = h_clock s n + ticket_life) (si_tickets s)"

lemma dated_later:
  assumes s: "dated s" and t: "h_clock t = h_clock s" "h_ticks s \<le> h_ticks t"
    "set (si_sessions t) \<subseteq> set (si_sessions s)" "set (si_tickets t) \<subseteq> set (si_tickets s)"
  shows "dated t"
proof -
  have "\<exists>n < h_ticks t. x = h_clock t n + l" if "\<exists>n < h_ticks s. x = h_clock s n + l" for x l
    using that t(1,2) by (auto intro: less_le_trans)
  then show ?thesis
    using s t(3,4) unfolding dated_def list_all_iff by blast
qed

lemma dated_steady:
  assumes "dated s" "steady (h_clock s) (h_ticks s) (si_sessions s) (si_tickets s) t"
  shows "dated t"
  using assms(2) by (intro dated_later [OF assms(1)]) (auto simp: steady_def)

lemma steady_dated:
  assumes "\<And>c n a b. keeps (steady c n a b) m"
  shows "keeps dated m"
  by (rule keepsI, rule dated_steady, assumption, rule keepsD [OF assms]) (simp add: steady_def)

lemma lift_dated: "(\<And>c n. keeps (aged c n) m) \<Longrightarrow> keeps dated (lift_server m)"
  by (rule keepsI, rule dated_steady, assumption, rule lift_steady) blast

lemma dated_session_create: "keeps dated session_create"
proof (rule keepsI)
  fix s assume s: "dated s"
  let ?t = "snd (run_state session_create s)"
  have t: "h_ticks ?t = Suc (h_ticks s)" "h_clock ?t = h_clock s" "si_tickets ?t = si_tickets s"
    "set (si_sessions ?t) \<subseteq> insert (hex_encode (map (ch_random s) [ch_drawn s..<ch_drawn s + 32]), h_clock s (h_ticks s) + session_life)
       (set (si_sessions s))"
    using set_map_put by (fastforce simp: session_create_def set_sessions_def Let_def run_state_bind run_draw run_now)+
  have old: "dated (?t\<lparr>si_sessions := si_sessions s\<rparr>)" by (rule dated_later [OF s]) (simp_all add: t)
  show "dated ?t"
    unfolding dated_def list_all_iff
  proof (intro conjI ballI)
    fix p assume "p \<in> set (si_sessions ?t)"
    with t(4) consider "snd p = h_clock s (h_ticks s) + session_life" | "p \<in> set (si_sessions s)" by auto
    then show "\<exists>n<h_ticks ?t. snd p = h_clock ?t n + session_life"
    proof cases
      case 1
      then show ?thesis using t by (intro exI [of _ "h_ticks s"]) simp
    next
      case 2
      then show ?thesis using old by (auto simp: dated_def list_all_iff)
    qed
  next
    fix p assume "p \<in> set (si_tickets ?t)"
    then show "\<exists>n<h_ticks ?t. er_expires (snd p) = h_clock ?t n + ticket_life"
      using old by (auto simp: dated_def list_all_iff)
  qed
qed

section \<open>Tickets\<close>

lemma dated_parts: "keeps dated now" "keeps dated (draw n)"
  by (intro steady_dated steady_host.at_now steady_vault.at_draw)+

lemma dated_sessions: "(\<And>m. set (f m) \<subseteq> set m) \<Longrightarrow> keeps dated (set_sessions f)"
  unfolding set_sessions_def by (intro keep_intros) (erule dated_later, auto)

lemma dated_tickets: "(\<And>m. set (f m) \<subseteq> set m) \<Longrightarrow> keeps dated (set_tickets f)"
  unfolding set_tickets_def by (intro keep_intros) (erule dated_later, auto)

lemma dated_drop: "keeps dated (drop_expired p)"
  unfolding drop_expired_def by (intro keep_intros dated_parts dated_tickets set_map_del)

definition aged_site :: "(nat \<Rightarrow> time) \<Rightarrow> nat \<Rightarrow> site \<Rightarrow> bool" where
  "aged_site c n s \<longleftrightarrow> h_clock s = c \<and> n \<le> h_ticks s"

interpretation aged_site: clock_invariant "aged_site c n" for c n
  by unfold_locales (simp_all add: aged_site_def)

lemma aged_drop: "keeps (aged_site c n) (drop_expired p)"
  unfolding drop_expired_def set_tickets_def by (intro keep_intros aged_site.at_now) (simp add: aged_site_def)

lemma dated_put:
  assumes "dated s" "n < h_ticks s"
  shows "dated (s\<lparr>si_tickets := map_put k \<lparr>er_name = nm, er_expires = h_clock s n + ticket_life\<rparr> (si_tickets s)\<rparr>)"
  using assms by (auto simp: dated_def list_all_iff map_put_def)

lemma dated_ticket_create: "keeps dated (ticket_create name)"
proof (rule keepsI)
  fix s assume s: "dated s"
  define u where "u = snd (run_state now (snd (run_state (draw 32) s)))"
  have u: "h_clock u = h_clock s" "h_ticks u = Suc (h_ticks s)" "si_tickets u = si_tickets s"
    by (simp_all add: u_def run_draw run_now)
  have "dated u" unfolding u_def by (intro keepsD [OF dated_parts(1)] keepsD [OF dated_parts(2)] s)
  define v where "v = snd (run_state (for_each drop_expired (si_tickets u)) u)"
  have v: "dated v" unfolding v_def by (rule keepsD [OF keeps_for_each [OF dated_drop] \<open>dated u\<close>])
  have "aged_site (h_clock s) (Suc (h_ticks s)) v"
    unfolding v_def by (rule keepsD [OF keeps_for_each [OF aged_drop]]) (simp add: aged_site_def u)
  then have n: "h_clock v = h_clock s" "h_ticks s < h_ticks v" by (simp_all add: aged_site_def)
  have "snd (run_state (ticket_create name) s) =
      v\<lparr>si_tickets := map_put (sha256 (b64_encode True False (map (ch_random s) [ch_drawn s..<ch_drawn s + 32])))
        \<lparr>er_name = name, er_expires = h_clock v (h_ticks s) + ticket_life\<rparr> (si_tickets v)\<rparr>"
    unfolding n(1) unfolding v_def u_def
    by (simp add: ticket_create_def set_tickets_def Let_def run_state_bind run_draw run_now split: prod.split)
  with dated_put [OF v n(2)] show "dated (snd (run_state (ticket_create name) s))" by simp
qed

lemma dated_ticket_consume: "keeps dated (ticket_consume t)"
  unfolding ticket_consume_def Let_def by (intro keep_intros dated_parts dated_tickets set_map_del)

interpretation dated_plain: plain_invariant dated
proof
  show "keeps dated (create_key k)" "keeps dated (rename_request_client i n)" for k i n
    by (intro steady_dated steady_host.at_store)+
qed (intro steady_dated steady_vault.at_manager dated_parts dated_ticket_create dated_ticket_consume
  | erule dated_later, simp_all)+

interpretation dated_pages: page_invariant dated se for se
proof
  show "keeps dated session_create" "keeps dated (session_delete t)" "keeps dated session_reset" for t
    unfolding session_delete_def session_reset_def
    by (intro dated_session_create dated_sessions set_map_del empty_subsetI | simp)+
qed (intro steady_dated steady_host.at_store steady_host.at_reports steady_vault.at_manager
  dated_plain.keeps_persist_key dated_plain.keeps_names lift_dated aged_handlers.keeps_test_key
  aged_handlers.keeps_handle_models aged_handlers.keeps_handle_inference)+

end
