(* ===== verification/SiteSteps.thy ===== *)
theory SiteSteps
  imports SiteKeys SiteDates Startup
begin

text \<open>
  The whole program as a transition system: requests, passes of the scheduler and restarts, one
  after the other in any order, under any configuration and with whatever statements and writes
  failing, also those of starts that come to nothing. Its invariants are those of the pages, which scheduler and restart keep as well.
\<close>

section \<open>Steps\<close>

definition failed_start :: "site \<Rightarrow> site \<Rightarrow> bool" where
  "failed_start s t \<longleftrightarrow> (\<exists>kdf en e. run_state (start_process kdf en) s = (Inl e, t))"

inductive site_step :: "site \<Rightarrow> site \<Rightarrow> bool" where
  request: "run_state (serve_request se budget q rid n) s = ((), t) \<Longrightarrow> site_step s t"
| tick: "run_state (proxied se scheduler_run) s = ((), t) \<Longrightarrow> site_step s t"
| restart: "failed_start\<^sup>*\<^sup>* s u \<Longrightarrow> run_state (start_process kdf en) u = (Inr c, t) \<Longrightarrow> site_step s t"
| surroundings: "site_step s (s\<lparr>h_faults := fs\<rparr>)"

inductive site_reachable :: "site \<Rightarrow> bool" where
  start: "h_db s = migrated \<Longrightarrow> vt_state s = None \<Longrightarrow> vt_cipher s = None \<Longrightarrow> dk_file (vt_disk s) = None \<Longrightarrow>
     si_sessions s = [] \<Longrightarrow> si_tickets s = [] \<Longrightarrow> site_reachable s"
| step: "site_reachable s \<Longrightarrow> site_step s t \<Longrightarrow> site_reachable t"

inductive_cases site_stepE: "site_step s t"

section \<open>Restarts\<close>

lemma keeps_step: "keeps I m \<Longrightarrow> run_state m s = (a, t) \<Longrightarrow> I s \<Longrightarrow> I t"
  using keepsD [of I m s] by simp

lemma run_start_process:
  "run_state (start_process kdf en) s =
     (case load_config en of
        Inl e \<Rightarrow> (Inl (BadConfig e), s)
      | Inr c \<Rightarrow>
          (case run_state open_store s of (good, s1) \<Rightarrow>
             if \<not> good then (Inl NoDatabase, s1)
             else (case run_state (open_manager kdf (cf_master c) (cf_admin c) (cf_bootstrap c)) s1 of
                 (Inl e, u) \<Rightarrow> (Inl (NoIdentity e), u)
               | (Inr _, u) \<Rightarrow> (Inr c, u\<lparr>si_sessions := [], si_tickets := []\<rparr>))))"
  by (simp add: start_process_def run_state_bind set_sessions_def set_tickets_def split: sum.split prod.split)

lemma start_process_Inr:
  assumes "run_state (start_process kdf en) s = (Inr c, t)"
  obtains fs u where "run_state (open_manager kdf (cf_master c) (cf_admin c) (cf_bootstrap c)) (s\<lparr>h_faults := fs\<rparr>) = (Inr (), u)"
    "t = u\<lparr>si_sessions := [], si_tickets := []\<rparr>" "h_db u = h_db s"
proof -
  obtain good fs where o: "run_state open_store s = (good, s\<lparr>h_faults := fs\<rparr>)" using run_open_store by blast
  from assms obtain u where u:
    "run_state (open_manager kdf (cf_master c) (cf_admin c) (cf_bootstrap c)) (s\<lparr>h_faults := fs\<rparr>) = (Inr (), u)"
    "t = u\<lparr>si_sessions := [], si_tickets := []\<rparr>"
    by (auto simp: run_start_process o split: sum.splits prod.splits if_splits)
  moreover have "h_db u = h_db s"
    using keeps_step [OF frame.at_open [of "h_db s" "si_tickets s"] u(1)] by simp
  ultimately show thesis using that by blast
qed

lemma failed_startE:
  assumes "failed_start s t"
  obtains kdf fs where "h_db t = h_db s"
    "vt_disk t = vt_disk s \<or> failed_open kdf (s\<lparr>h_faults := fs\<rparr>) t"
proof -
  from assms obtain kdf en e where run: "run_state (start_process kdf en) s = (Inl e, t)" by (auto simp: failed_start_def)
  obtain good fs where o: "run_state open_store s = (good, s\<lparr>h_faults := fs\<rparr>)" using run_open_store by blast
  show thesis
  proof (cases "vt_disk t = vt_disk s \<and> h_db t = h_db s")
    case False
    with run obtain c :: config and x where x:
      "run_state (open_manager kdf (cf_master c) (cf_admin c) (cf_bootstrap c)) (s\<lparr>h_faults := fs\<rparr>) = (Inl x, t)"
      by (auto simp: run_start_process o split: sum.splits prod.splits if_splits)
    then have "failed_open kdf (s\<lparr>h_faults := fs\<rparr>) t" by (auto simp: failed_open_def)
    moreover have "h_db t = h_db s"
      using keeps_step [OF frame.at_open [of "h_db s" "si_tickets s"] x] by simp
    ultimately show thesis using that by blast
  qed (use that in blast)
qed

text \<open>
  Between two processes: the file of the identity is missing or whole, and the keys of the database
  open with the key it holds.
\<close>

definition parked :: "site \<Rightarrow> bool" where
  "parked s \<longleftrightarrow> file_ok (dk_file (vt_disk s)) \<and>
     (db_keys (h_db s) = [] \<or> (\<exists>k. stored k s \<and> all_open (Some k) (h_db s)))"

lemma safe_parked: "safe s \<Longrightarrow> parked s"
proof (cases "vt_cipher s")
  case (Some k)
  assume "safe s"
  moreover from this Some have "stored k s" by (intro keyed_stored) (simp add: keyed_def safe_def)
  ultimately show ?thesis using Some by (auto simp: safe_def parked_def vault_ok_file)
qed (simp add: safe_def parked_def all_open_None vault_ok_file)

lemma parked_failed:
  assumes "failed_start s t" "parked s"
  shows "parked t"
proof -
  from assms(1) obtain kdf fs where t: "h_db t = h_db s" "vt_disk t = vt_disk s \<or> failed_open kdf (s\<lparr>h_faults := fs\<rparr>) t"
    by (rule failed_startE)
  from t(2) assms(2) show ?thesis
    using failed_opens_file [of kdf "s\<lparr>h_faults := fs\<rparr>" t] failed_opens_stored [of kdf "s\<lparr>h_faults := fs\<rparr>" t]
    unfolding parked_def t(1) stored_def by (elim disjE) (simp_all add: r_into_rtranclp, blast)
qed

lemma parked_restart:
  assumes "run_state (start_process kdf en) s = (Inr c, t)" "parked s"
  shows "safe t"
proof -
  from assms(1) obtain fs u where u:
    "run_state (open_manager kdf (cf_master c) (cf_admin c) (cf_bootstrap c)) (s\<lparr>h_faults := fs\<rparr>) = (Inr (), u)"
    "t = u\<lparr>si_sessions := [], si_tickets := []\<rparr>" "h_db u = h_db s"
    by (rule start_process_Inr)
  have "all_open (vt_cipher u) (h_db s)"
  proof (cases "db_keys (h_db s) = []")
    case False
    with assms(2) obtain k where "stored k s" "all_open (Some k) (h_db s)" by (auto simp: parked_def)
    moreover from this have "keyed k u" using keyed_opened [OF u(1)] by (simp add: stored_def)
    ultimately show ?thesis by (simp add: keyed_def)
  qed (simp add: all_open_def)
  moreover have "vault_ok u" using vault_ok_opened [OF u(1)] assms(2) by (simp add: parked_def)
  ultimately show ?thesis by (simp add: safe_def u(2,3) names_ok_of_def)
qed

lemma failed_starts_db: "failed_start\<^sup>*\<^sup>* s t \<Longrightarrow> h_db t = h_db s"
  by (induction rule: rtranclp_induct) (auto elim: failed_startE)

lemma failed_starts_parked: "failed_start\<^sup>*\<^sup>* s t \<Longrightarrow> parked s \<Longrightarrow> parked t"
  by (induction rule: rtranclp_induct) (auto intro: parked_failed)

lemma restart_db: "run_state (start_process kdf en) s = (Inr c, t) \<Longrightarrow> h_db t = h_db s"
  by (erule start_process_Inr) simp

lemma restart_stores:
  "run_state (start_process kdf en) s = (Inr c, t) \<Longrightarrow> si_sessions t = [] \<and> si_tickets t = []"
  by (erule start_process_Inr) simp

section \<open>The invariants\<close>

lemma proxied_keeps: "(\<And>ev. keeps I (lift_server (h ev))) \<Longrightarrow> keeps I (proxied se h)"
  unfolding proxied_def by (intro keep_intros)

lemma site_step_invariant:
  assumes "site_step s t" "I s"
    and request: "\<And>se b q rid n. keeps I (serve_request se b q rid n)"
    and tick: "\<And>se. keeps I (proxied se scheduler_run)"
    and restart: "\<And>kdf en s u c t. failed_start\<^sup>*\<^sup>* s u \<Longrightarrow> run_state (start_process kdf en) u = (Inr c, t) \<Longrightarrow> I s \<Longrightarrow> I t"
    and faults: "\<And>s fs. I s \<Longrightarrow> I (s\<lparr>h_faults := fs\<rparr>)"
  shows "I t"
  using assms(1,2) by (elim site_stepE) (auto intro: keeps_step [OF request] keeps_step [OF tick] restart faults)

lemma step_tables: "site_step s t \<Longrightarrow> on_db db_ok s \<Longrightarrow> on_db db_ok t"
  by (erule (1) site_step_invariant) (intro tables.pages.keeps_serve_request proxied_keeps lift_on_db tables.keeps_scheduler_run
      | simp add: on_db_def restart_db failed_starts_db)+

lemma step_safe: "site_step s t \<Longrightarrow> safe s \<Longrightarrow> safe t"
  by (erule (1) site_step_invariant) (intro safe_pages.keeps_serve_request proxied_keeps lift_safe key_rows.keeps_scheduler_run
      | erule parked_restart, erule failed_starts_parked, erule safe_parked | simp add: safe_def)+

lemma step_dated: "site_step s t \<Longrightarrow> dated s \<Longrightarrow> dated t"
  by (erule (1) site_step_invariant) (intro dated_pages.keeps_serve_request proxied_keeps lift_dated aged_scheduler
      | drule restart_stores | simp add: dated_def)+

lemma reachable_invariant: "site_reachable s \<Longrightarrow> on_db db_ok s \<and> safe s \<and> dated s"
proof (induction rule: site_reachable.induct)
  case (start s)
  then show ?case
    by (simp add: on_db_def migrated_ok safe_def vault_ok_def names_ok_of_def all_open_def dated_def) (simp add: migrated_def)
next
  case (step s t)
  then show ?case by (blast intro: step_tables step_safe step_dated)
qed

text \<open>The invariants in the terms of the components.\<close>

lemma opens_iff: "opens c e fp \<longleftrightarrow> (\<exists>k p. c = Some k \<and> decrypt k e = Inr p \<and> fingerprint p = fp)"
  by (auto simp: opens_def split: option.splits sum.splits)

lemma safe_view:
  assumes "db_ok (h_db s)" "safe s"
  shows "list_all (\<lambda>r. \<exists>k p. vt_cipher s = Some k \<and> decrypt k (kr_encrypted r) = Inr p \<and> fingerprint p = kr_fingerprint r)
      (db_keys (h_db s)) \<and>
    (case vt_cipher s of
       None \<Rightarrow> vt_state s = None
     | Some k \<Rightarrow> \<exists>st st'. vt_state s = Some st \<and> load_cipher st = Inr k \<and>
         holds_state (dk_file (vt_disk s)) st' \<and> load_cipher st' = Inr k) \<and>
    length (active_rows (db_keys (h_db s))) \<le> 1"
proof -
  have "list_all (\<lambda>r. \<exists>k p. vt_cipher s = Some k \<and> decrypt k (kr_encrypted r) = Inr p \<and> fingerprint p = kr_fingerprint r)
      (db_keys (h_db s))"
    using assms(2) by (simp add: safe_def all_open_def opens_iff)
  moreover have "case vt_cipher s of None \<Rightarrow> vt_state s = None
      | Some k \<Rightarrow> \<exists>st st'. vt_state s = Some st \<and> load_cipher st = Inr k \<and>
          holds_state (dk_file (vt_disk s)) st' \<and> load_cipher st' = Inr k"
  proof (cases "vt_cipher s")
    case None
    with assms(2) show ?thesis by (auto simp: safe_def vault_ok_def split: option.splits)
  next
    case (Some k)
    with assms(2) have "keyed k s" by (simp add: keyed_def safe_def)
    then obtain st st' where "vt_state s = Some st" "load_cipher st = Inr k" "holds_state (dk_file (vt_disk s)) st'"
      "ds_master st' = ds_master st" by (rule keyed_state)
    moreover from this(2,4) load_cipher_cong [of st' st] have "load_cipher st' = Inr k" by simp
    ultimately show ?thesis using Some by auto
  qed
  moreover have "length (active_rows (db_keys (h_db s))) \<le> 1" using assms(1) by (simp add: db_ok_def rows_ok_def)
  ultimately show ?thesis by blast
qed

section \<open>A sample site\<close>

definition sample_site :: site where
  "sample_site = vault.extend blank_vault \<lparr>si_sessions = [], si_tickets = []\<rparr>"

definition sample_site_env :: site_env where
  "sample_site_env =
     \<lparr>se_env = \<lparr>en_base_url = ''https://opencode.ai/zen/go/v1'', en_max_request = 67108864, en_retention = 0,
        en_decrypt = (\<lambda>c. Inr c), en_order = (\<lambda>n xs. xs), en_read_error = []\<rparr>,
      se_kdf = sample_kdf, se_db_text = (\<lambda>_. ''UNIQUE constraint failed''), se_disk_text = [],
      se_script_ps = [], se_script_sh = []\<rparr>"

definition sample_request :: "string \<Rightarrow> string \<Rightarrow> string \<Rightarrow> request" where
  "sample_request verb path body =
     \<lparr>hq_verb = verb, hq_path = path, hq_raw_path = [], hq_query = [], hq_host = ''localhost'', hq_tls = False,
      hq_header = [], hq_body = \<lparr>bd_data = body, bd_fails = False\<rparr>\<rparr>"

lemma sample_site_fields [simp]:
  "h_db sample_site = migrated" "h_faults sample_site = []" "h_clock sample_site = (\<lambda>n. 0)"
  "vt_state sample_site = None" "vt_cipher sample_site = None" "dk_file (vt_disk sample_site) = None"
  "si_sessions sample_site = []" "si_tickets sample_site = []"
  by (simp_all add: sample_site_def blank_vault_def vault.defs)

lemma sample_site_reachable: "site_reachable sample_site"
  by (rule site_reachable.start) simp_all

end
