(* ===== verification/Gates.thy ===== *)
theory Gates
  imports SiteSteps
begin

text \<open>
  What the client gets: programs that only write an answer, and the two gates in front of the
  handlers. A request that a gate turns away has changed nothing but its own connection, the clock
  readings and at most a session that had expired.
\<close>

section \<open>Answers\<close>

definition status_of :: "site \<Rightarrow> int option" where
  "status_of s = map_option fst (wr_sent (sv_writer s))"

text \<open>A program that does nothing but answer with a status.\<close>

definition answers :: "int \<Rightarrow> unit page \<Rightarrow> bool" where
  "answers c m \<longleftrightarrow> (\<forall>s. wr_sent (sv_writer s) = None \<longrightarrow>
     (\<exists>w. run_state m s = ((), s\<lparr>sv_writer := w\<rparr>) \<and> map_option fst (wr_sent w) = Some c))"

lemma run_page_do [simp]: "run_state (page_do f) s = ((), s\<lparr>sv_writer := f (sv_writer s)\<rparr>)"
  by (simp add: page_do_def)

lemma sent_header [simp]: "wr_sent (set_header k v w) = wr_sent w"
  by (simp add: set_header_def)

lemma sent_bytes: "wr_sent w \<noteq> None \<Longrightarrow> wr_sent (snd (write_bytes bs w)) = wr_sent w"
  by (auto simp: write_bytes_def write_header_def Let_def split: option.split nat.split)

lemma sent_status: "wr_sent w = None \<Longrightarrow> map_option fst (wr_sent (write_header c w)) = Some c"
  by (simp add: write_header_def)

lemma answers_json: "answers c (reply_json c v)"
  unfolding answers_def
proof (intro allI impI)
  fix s :: site assume s: "wr_sent (sv_writer s) = None"
  let ?h = "write_header c (set_header ''Content-Type'' ''application/json'' (sv_writer s))"
  let ?w = "snd (write_bytes (render v @ [CHR 0x0A]) ?h)"
  have "map_option fst (wr_sent ?w) = Some c" using s sent_status [of "set_header ''Content-Type'' ''application/json'' (sv_writer s)"]
    by (simp add: sent_bytes)
  then show "\<exists>w. run_state (reply_json c v) s = ((), s\<lparr>sv_writer := w\<rparr>) \<and> map_option fst (wr_sent w) = Some c"
    by (intro exI [of _ ?w]) (simp add: reply_json_def run_state_bind)
qed

lemma answers_replies:
  "answers c (error_reply c x)" "answers 500 server_error" "answers 503 setup_needed" "answers c (proxy_error c m k)"
  unfolding error_reply_def server_error_def setup_needed_def proxy_error_def by (rule answers_json)+

lemma answersD:
  assumes "answers c m" "wr_sent (sv_writer s) = None" "run_state m s = ((), t)"
  shows "status_of t = Some c" "\<exists>w. t = s\<lparr>sv_writer := w\<rparr>"
proof -
  from assms(1,2) obtain w where "run_state m s = ((), s\<lparr>sv_writer := w\<rparr>)" "map_option fst (wr_sent w) = Some c"
    unfolding answers_def by blast
  with assms(3) show "status_of t = Some c" "\<exists>w. t = s\<lparr>sv_writer := w\<rparr>" by (auto simp: status_of_def)
qed

text \<open>A program that only writes.\<close>

lemma run_reply_json: "\<exists>w. run_state (reply_json c v) s = ((), s\<lparr>sv_writer := w\<rparr>)"
  by (rule exI, simp add: reply_json_def run_state_bind)

lemma run_start_session:
  "\<exists>w. run_state (start_session q) s = ((), (snd (run_state session_create s))\<lparr>sv_writer := w\<rparr>)"
  by (rule exI, simp add: start_session_def set_cookie_def run_state_bind split_beta)

text \<open>Before the handler runs, nothing has been sent.\<close>

lemma run_serve:
  obtains w where "wr_sent w = None"
    "run_state (serve_request se b q rid n) s = run_state (endpoint_page se q rid n (find_route q)) (s\<lparr>sv_writer := w\<rparr>)"
  by (rule that [rotated])
    (simp add: serve_request_def new_connection_def security_headers_def run_state_bind, simp)

section \<open>The admin gate\<close>

definition cookie_valid :: "request \<Rightarrow> site \<Rightarrow> bool" where
  "cookie_valid q s \<longleftrightarrow>
     (case request_cookie (hq_header q) session_cookie of
        None \<Rightarrow> False | Some v \<Rightarrow> fst (run_state (session_valid v) s))"

definition safe_verb :: "request \<Rightarrow> bool" where
  "safe_verb q \<longleftrightarrow> hq_verb q \<in> {''GET'', ''HEAD'', ''OPTIONS''}"

text \<open>What a request that was turned away leaves as it was.\<close>

definition unchanged :: "site \<Rightarrow> site \<Rightarrow> bool" where
  "unchanged s t \<longleftrightarrow>
     h_db t = h_db s \<and> vt_state t = vt_state s \<and> vt_cipher t = vt_cipher s \<and> vt_disk t = vt_disk s \<and>
     sv_calls t = sv_calls s \<and> si_tickets t = si_tickets s \<and>
     (\<forall>k. session_expiry t k = session_expiry s k \<or> session_expiry t k = None)"

lemma unchanged_writer: "unchanged s t \<Longrightarrow> unchanged s (t\<lparr>sv_writer := w\<rparr>)"
  by (simp add: unchanged_def session_expiry_def)

lemma unchanged_check: "unchanged s (snd (run_state (session_valid k) s))"
proof -
  have "h_db t = h_db s \<and> vt_state t = vt_state s \<and> vt_cipher t = vt_cipher s \<and> vt_disk t = vt_disk s \<and>
      sv_calls t = sv_calls s \<and> si_tickets t = si_tickets s" if "t = snd (run_state (session_valid k) s)" for t
    using that by (auto simp: run_session_valid split: option.splits)
  then show ?thesis using sessions.admitting [of k s] by (simp add: unchanged_def)
qed

lemma initialized_writer [simp]: "initialized (s\<lparr>sv_writer := w\<rparr>) = initialized s"
  by (simp add: initialized_def)

lemma cookie_valid_writer [simp]: "cookie_valid q (s\<lparr>sv_writer := w\<rparr>) = cookie_valid q s"
  by (simp add: cookie_valid_def run_session_valid split: option.split)

lemma writer_after_check [simp]: "sv_writer (snd (run_state (session_valid k) s)) = sv_writer s"
  by (simp add: run_session_valid split: option.split)

definition checked :: "request \<Rightarrow> bool page" where
  "checked q = (case request_cookie (hq_header q) session_cookie of
     None \<Rightarrow> State_Monad.return False | Some v \<Rightarrow> session_valid v)"

lemma run_checked: "fst (run_state (checked q) s) = cookie_valid q s" "unchanged s (snd (run_state (checked q) s))"
    "sv_writer (snd (run_state (checked q) s)) = sv_writer s"
  using unchanged_check by (auto simp: checked_def cookie_valid_def unchanged_def split: option.split)

lemma run_admin_auth:
  "run_state (admin_auth q next) s =
     (if \<not> initialized s then run_state setup_needed s
      else (case run_state (checked q) s of (valid, u) \<Rightarrow>
         if \<not> valid then run_state (error_reply 401 ''admin authentication required'') u
         else if \<not> safe_verb q \<and> \<not> same_origin q
         then run_state (error_reply 403 ''cross-origin request rejected'') u
         else run_state next u))"
  by (simp add: admin_auth_def run_state_bind checked_def safe_verb_def split: prod.split)

lemma admin_turned_away:
  assumes "run_state (admin_auth q next) s = ((), t)" "wr_sent (sv_writer s) = None"
    and "\<not> (initialized s \<and> cookie_valid q s \<and> (safe_verb q \<or> same_origin q))"
  shows "status_of t = Some (if \<not> initialized s then 503 else if \<not> cookie_valid q s then 401 else 403) \<and> unchanged s t"
proof -
  obtain valid u where u: "run_state (checked q) s = (valid, u)" by (cases "run_state (checked q) s")
  with run_checked [where q = q and s = s] have c: "valid = cookie_valid q s" "unchanged s u" "wr_sent (sv_writer u) = None"
    using assms(2) by simp_all
  have "unchanged s s" by (simp add: unchanged_def)
  consider "\<not> initialized s" | "initialized s" "\<not> valid" | "initialized s" "valid" "\<not> safe_verb q" "\<not> same_origin q"
    using assms(3) c(1) by blast
  then show ?thesis
  proof cases
    case 1
    with assms(1) have "run_state setup_needed s = ((), t)" by (simp add: run_admin_auth)
    from answersD [OF answers_replies(3) assms(2) this] 1 \<open>unchanged s s\<close> show ?thesis by (auto intro: unchanged_writer)
  next
    case 2
    with assms(1) u have "run_state (error_reply 401 ''admin authentication required'') u = ((), t)" by (simp add: run_admin_auth)
    from answersD [OF answers_replies(1) c(3) this] 2 c show ?thesis by (auto intro: unchanged_writer)
  next
    case 3
    with assms(1) u have "run_state (error_reply 403 ''cross-origin request rejected'') u = ((), t)" by (simp add: run_admin_auth)
    from answersD [OF answers_replies(1) c(3) this] 3 c show ?thesis by (auto intro: unchanged_writer)
  qed
qed

end
