(* ===== verification/ManagerTokens.thy ===== *)
theory ManagerTokens
  imports ManagerProps
begin

text \<open>
  Which tokens the manager accepts, and as whom: after issuing, renaming and revoking a client
  token and after rotating the access key; and that these operations succeed when the disk does.
\<close>

section \<open>Accepting tokens\<close>

lemma hash_matches_token [simp]: "hash_matches (sha256 x) (token_hash y) \<longleftrightarrow> sha256 y = sha256 x"
  by (simp add: hash_matches_def token_hash_def)

lemma issue_success:
  assumes "run_state (issue_client_token n) s = (Inr v, t)"
  obtains old new where "vt_state s = Some old" "vt_state t = Some new" "issued n v old new"
  using issue_effect [OF assms] by (cases "vt_state s") (auto simp: changes_def)

lemma rotate_success:
  assumes "run_state (rotate_access_key kdf q) s = (Inr v, t)"
  obtains old new where "vt_state s = Some old" "vt_state t = Some new" "rotated kdf v old new"
  using rotate_effect [OF assms] by (cases "vt_state s") (auto simp: changes_def)

lemma revoke_success:
  assumes "run_state (revoke_client_token i) s = (Inr v, t)"
  obtains old new where "vt_state s = Some old" "vt_state t = Some new" "revoked i v old new"
  using revoke_effect [OF assms] by (cases "vt_state s") (auto simp: changes_def)

lemma rename_success:
  assumes "run_state (rename_client_token i n) s = (Inr v, t)"
  obtains old new where "vt_state s = Some old" "vt_state t = Some new" "renamed i n v old new"
  using rename_effect [OF assms] by (cases "vt_state s") (auto simp: changes_def)

text \<open>The tokens have ids and hashes of their own.\<close>

definition distinct_tokens :: "token_state list \<Rightarrow> bool" where
  "distinct_tokens cs \<longleftrightarrow> distinct (map ts_id cs) \<and> distinct (map (\<lambda>c. hex_decode (ts_hash c)) cs)"

lemma client_principal_append:
  "client_principal h (xs @ ys) =
     (case client_principal h xs of Some p \<Rightarrow> Some p | None \<Rightarrow> client_principal h ys)"
  by (induction xs) (auto simp: client_principal_def)

lemma client_principal_one:
  "client_principal (sha256 x) [new_token n token i t] =
     (if sha256 x = sha256 token then Some \<lparr>pp_id = hex_encode i, pp_name = client_name n, pp_kind = ''client''\<rparr> else None)"
  by (auto simp: client_principal_def new_token_def principal_of_def)

lemma authenticate_tokens:
  "ds_proxy new = ds_proxy old \<Longrightarrow> authenticate new x =
     (if hash_matches (sha256 x) (ds_proxy old) then Some master_principal
      else client_principal (sha256 x) (ds_tokens new))"
  by (simp add: authenticate_def Let_def)

text \<open>
  C34. Issuing a client token: afterwards the token is accepted as the new client, unless a token
  with the same hash was accepted before; every other token is accepted or rejected as before. The
  list of clients grows by the new one, and never past a hundred.
\<close>

theorem issue_grants:
  assumes "run_state (issue_client_token n) s = (Inr (c, token), t)"
  shows "authenticate_proxy x t =
      (case authenticate_proxy x s of
         Some p \<Rightarrow> Some p
       | None \<Rightarrow> if sha256 x = sha256 token
                 then Some \<lparr>pp_id = ct_id c, pp_name = ct_name c, pp_kind = ''client''\<rparr> else None) \<and>
    list_client_tokens t = list_client_tokens s @ [c] \<and> length (list_client_tokens t) \<le> 100"
proof -
  from assms obtain old new where st: "vt_state s = Some old" "vt_state t = Some new" "issued n (c, token) old new"
    by (rule issue_success)
  then obtain i t0 where c: "c = client_of (new_token n token i t0)" "length (ds_tokens old) < max_tokens"
    "new = old\<lparr>ds_tokens := ds_tokens old @ [new_token n token i t0], ds_updated := t0\<rparr>"
    by (auto simp: issued_def)
  have name: "ct_id c = hex_encode i" "ct_name c = client_name n" by (simp_all add: c(1) client_of_def new_token_def)
  have "authenticate new x =
      (case authenticate old x of
         Some p \<Rightarrow> Some p
       | None \<Rightarrow> if sha256 x = sha256 token
                 then Some \<lparr>pp_id = ct_id c, pp_name = ct_name c, pp_kind = ''client''\<rparr> else None)"
    using authenticate_tokens [of new old x] authenticate_tokens [of old old x]
    by (simp add: c(3) client_principal_append client_principal_one name split: option.split)
  moreover have "list_client_tokens t = list_client_tokens s @ [c]" "length (list_client_tokens t) \<le> 100"
    using st c by (simp_all add: list_client_tokens_def max_tokens_def)
  ultimately show ?thesis using st by (simp add: authenticate_proxy_def)
qed

definition client_vault :: vault where
  "client_vault = snd (run_state (issue_client_token ''laptop'') set_up_vault)"

lemma client_run:
  obtains c token st where "run_state (issue_client_token ''laptop'') set_up_vault = (Inr (c, token), client_vault)"
    "healthy client_vault" "vt_state client_vault = Some st" "times_ok st" "ds_tokens st \<noteq> []"
    "distinct_tokens (ds_tokens st)"
proof -
  obtain st where st: "healthy set_up_vault" "vt_state set_up_vault = Some st" "times_ok st" "ds_tokens st = []"
    by (rule set_up_run)
  from succeeds_issue [OF this(1-3), of "''laptop''"] st(4) obtain c token where
    run: "run_state (issue_client_token ''laptop'') set_up_vault = (Inr (c, token), client_vault)" "healthy client_vault"
    by (auto simp: succeeds_def client_vault_def max_tokens_def)
  from issue_effect [OF run(1)] st obtain new where
    "vt_state client_vault = Some new" "issued ''laptop'' (c, token) st new" "written new (dk_file (vt_disk client_vault))"
    by (auto simp: changes_def)
  with run st(4) show ?thesis
    using that by (auto simp: issued_def distinct_tokens_def written_def document_def split: if_splits)
qed

theorem issue_grants_witness:
  "\<exists>c token. run_state (issue_client_token ''laptop'') set_up_vault = (Inr (c, token), client_vault) \<and>
     authenticate_proxy token client_vault \<noteq> None"
proof -
  obtain c token where run: "run_state (issue_client_token ''laptop'') set_up_vault = (Inr (c, token), client_vault)"
    by (rule client_run)
  with issue_grants [OF run, of token] show ?thesis by (auto split: option.splits)
qed

text \<open>
  C32. Rotating the access key: afterwards the new key is accepted as the master's, and any other
  token exactly if it is that of a client; the previous access key is rejected from then on. The
  new key also opens the console, it has 16 to 256 characters, and the clients are the same.
\<close>

theorem rotate_replaces:
  assumes "run_state (rotate_access_key kdf q) s = (Inr k, t)" "\<And>p salt. length (kdf p salt 3 65536 1 32) = 32"
  shows "authenticate_proxy x t =
      (if sha256 x = sha256 k then Some master_principal
       else case vt_state s of None \<Rightarrow> None | Some st \<Rightarrow> client_principal (sha256 x) (ds_tokens st)) \<and>
    verify_admin kdf k t \<and> 16 \<le> rune_count k \<and> rune_count k \<le> 256 \<and>
    list_client_tokens t = list_client_tokens s"
proof -
  from assms(1) obtain old new where st: "vt_state s = Some old" "vt_state t = Some new" "rotated kdf k old new"
    by (rule rotate_success)
  then obtain salt t0 where k: "key_length_ok k"
    "new = old\<lparr>ds_admin := hash_text kdf k salt, ds_proxy := token_hash k, ds_unified := True, ds_updated := t0\<rparr>"
    by (auto simp: rotated_def)
  have "authenticate new x =
      (if sha256 x = sha256 k then Some master_principal else client_principal (sha256 x) (ds_tokens old))"
    by (auto simp: authenticate_def k(2))
  moreover have "verify_password kdf k (ds_admin new)"
    using verify_hash_text [of kdf k salt k] assms(2) by (simp add: k(2))
  ultimately show ?thesis
    using st k by (simp add: authenticate_proxy_def verify_admin_def key_length_ok_def list_client_tokens_def)
qed

theorem rotate_replaces_witness:
  "\<exists>k t. run_state (rotate_access_key sample_kdf []) set_up_vault = (Inr k, t) \<and>
     authenticate_proxy k t = Some master_principal \<and> verify_admin sample_kdf k t"
proof -
  obtain st where st: "healthy set_up_vault" "vt_state set_up_vault = Some st" "times_ok st" by (rule set_up_run)
  from succeeds_rotate [OF this, of sample_kdf] obtain k t where
    run: "run_state (rotate_access_key sample_kdf []) set_up_vault = (Inr k, t)"
    by (auto simp: succeeds_def)
  have "length (sample_kdf p salt 3 65536 1 32) = 32" for p salt by (simp add: sample_kdf_def)
  from rotate_replaces [OF run this, of k] run show ?thesis by simp
qed

lemma client_principal_Cons:
  "client_principal h (c # cs) =
     (if hash_matches h (ts_hash c) then Some (principal_of c) else client_principal h cs)"
  by (simp add: client_principal_def)

lemma client_principal_in:
  "client_principal h cs = Some p \<Longrightarrow> \<exists>c \<in> set cs. p = principal_of c \<and> hex_decode (ts_hash c) = Some h"
  by (induction cs) (auto simp: client_principal_Cons hash_matches_def client_principal_def [of h "[]"] split: if_splits)

lemma client_principal_remove:
  "distinct_tokens cs \<Longrightarrow>
     client_principal h (map_first (\<lambda>c. ts_id c = i) (\<lambda>_. []) cs) =
       (case client_principal h cs of None \<Rightarrow> None | Some p \<Rightarrow> if pp_id p = i then None else Some p)"
proof (induction cs)
  case (Cons c cs)
  then have IH: "client_principal h (map_first (\<lambda>c. ts_id c = i) (\<lambda>_. []) cs) =
      (case client_principal h cs of None \<Rightarrow> None | Some p \<Rightarrow> if pp_id p = i then None else Some p)"
    by (simp add: distinct_tokens_def)
  have other: "pp_id p \<noteq> ts_id c \<and> hex_decode (ts_hash c) \<noteq> Some h" if "client_principal h cs = Some p" for p
  proof -
    from client_principal_in [OF that] obtain d where
      "d \<in> set cs" "p = principal_of d" "hex_decode (ts_hash d) = Some h" by blast
    moreover have "ts_id c \<notin> ts_id ` set cs" "hex_decode (ts_hash c) \<notin> (\<lambda>c. hex_decode (ts_hash c)) ` set cs"
      using Cons.prems by (simp_all add: distinct_tokens_def)
    ultimately show ?thesis by (auto simp: principal_of_def image_iff)
  qed
  show ?case
  proof (cases "ts_id c = i")
    case True
    with other show ?thesis
      by (cases "client_principal h cs") (auto simp: client_principal_Cons hash_matches_def principal_of_def)
  next
    case False
    with IH show ?thesis by (simp add: client_principal_Cons principal_of_def)
  qed
qed (simp add: client_principal_def)

lemma client_principal_rename:
  "map_option (\<lambda>p. (pp_id p, pp_kind p))
       (client_principal h (map_first (\<lambda>c. ts_id c = i) (\<lambda>c. [c\<lparr>ts_name := n\<rparr>]) cs)) =
     map_option (\<lambda>p. (pp_id p, pp_kind p)) (client_principal h cs)"
  by (induction cs) (auto simp: client_principal_Cons principal_of_def client_principal_def [of h "[]"])

lemma map_first_remove:
  "distinct (map f cs) \<Longrightarrow> i \<notin> f ` set (map_first (\<lambda>c. f c = i) (\<lambda>_. []) cs)"
  by (induction cs) auto

text \<open>
  C33. Revoking a client token, when the tokens have ids and hashes of their own: the client is not
  accepted any more, and everyone else exactly as before.
\<close>

theorem revoke_withdraws:
  assumes "run_state (revoke_client_token i) s = (Inr (), t)" "vt_state s = Some old" "distinct_tokens (ds_tokens old)"
  shows "authenticate_proxy x t =
      (case authenticate_proxy x s of
         None \<Rightarrow> None
       | Some p \<Rightarrow> if pp_kind p = ''client'' \<and> pp_id p = i then None else Some p) \<and>
    i \<notin> ct_id ` set (list_client_tokens t)"
proof -
  from assms(1,2) obtain new where st: "vt_state t = Some new" "revoked i () old new"
    by (auto elim: revoke_success)
  then obtain t0 where new: "new = old\<lparr>ds_tokens := map_first (\<lambda>c. ts_id c = i) (\<lambda>_. []) (ds_tokens old), ds_updated := t0\<rparr>"
    by (auto simp: revoked_def)
  have kind: "pp_kind p = ''client''" if "client_principal h cs = Some p" for h cs p
    using client_principal_in [OF that] by (auto simp: principal_of_def)
  have "authenticate new x =
      (case authenticate old x of
         None \<Rightarrow> None
       | Some p \<Rightarrow> if pp_kind p = ''client'' \<and> pp_id p = i then None else Some p)"
    using authenticate_tokens [of new old x] authenticate_tokens [of old old x] kind
    by (auto simp: new client_principal_remove [OF assms(3)] master_principal_def split: option.splits)
  moreover have "i \<notin> ts_id ` set (ds_tokens new)"
    using map_first_remove [of ts_id "ds_tokens old" i] assms(3) by (simp add: new distinct_tokens_def)
  then have "i \<notin> ct_id ` set (list_client_tokens t)"
    using st by (auto simp: list_client_tokens_def client_of_def)
  ultimately show ?thesis using st assms(2) by (simp add: authenticate_proxy_def)
qed

theorem revoke_withdraws_witness:
  "\<exists>i t. i \<in> ct_id ` set (list_client_tokens client_vault) \<and>
     run_state (revoke_client_token i) client_vault = (Inr (), t) \<and> i \<notin> ct_id ` set (list_client_tokens t)"
proof -
  obtain st where st: "healthy client_vault" "vt_state client_vault = Some st" "times_ok st" "ds_tokens st \<noteq> []"
    "distinct_tokens (ds_tokens st)" by (rule client_run)
  then obtain c where c: "c \<in> set (ds_tokens st)" by (cases "ds_tokens st") auto
  with succeeds_revoke [OF st(1-3), of "ts_id c"] obtain t where
    run: "run_state (revoke_client_token (ts_id c)) client_vault = (Inr (), t)"
    by (auto simp: succeeds_def)
  have "ts_id c \<in> ct_id ` set (list_client_tokens client_vault)"
    using c st(2) by (force simp: list_client_tokens_def client_of_def)
  with run revoke_withdraws [OF run st(2,5)] show ?thesis by blast
qed

text \<open>
  Renaming a client: every token is accepted or rejected as before, as the same client; the
  client has the trimmed name, of 1 to 80 characters.
\<close>

lemma rename_keeps_access:
  assumes "run_state (rename_client_token i n) s = (Inr c, t)"
  shows "map_option (\<lambda>p. (pp_id p, pp_kind p)) (authenticate_proxy x t) =
      map_option (\<lambda>p. (pp_id p, pp_kind p)) (authenticate_proxy x s) \<and>
    ct_id c = i \<and> ct_name c = trim_space n \<and> ct_name c \<noteq> [] \<and> rune_count (ct_name c) \<le> 80 \<and>
    c \<in> set (list_client_tokens t)"
proof -
  from assms obtain old new where st: "vt_state s = Some old" "vt_state t = Some new" "renamed i n c old new"
    by (rule rename_success)
  then obtain d t0 where c: "find (\<lambda>c. ts_id c = i) (ds_tokens old) = Some d" "c = client_of (d\<lparr>ts_name := trim_space n\<rparr>)"
    "trim_space n \<noteq> []" "rune_count (trim_space n) \<le> 80"
    "new = old\<lparr>ds_tokens := map_first (\<lambda>c. ts_id c = i) (\<lambda>c. [c\<lparr>ts_name := trim_space n\<rparr>]) (ds_tokens old), ds_updated := t0\<rparr>"
    by (auto simp: renamed_def)
  have "map_option (\<lambda>p. (pp_id p, pp_kind p)) (authenticate new x) = map_option (\<lambda>p. (pp_id p, pp_kind p)) (authenticate old x)"
    using authenticate_tokens [of new old x] authenticate_tokens [of old old x]
    by (simp add: c(5) client_principal_rename)
  moreover have "find P cs = Some d \<Longrightarrow> P d \<and> f d \<in> set (map_first P (\<lambda>c. [f c]) cs)" for P f and cs :: "token_state list"
    by (induction cs) (auto split: if_splits)
  from this [OF c(1), of "\<lambda>c. c\<lparr>ts_name := trim_space n\<rparr>"]
  have d: "ts_id d = i" "d\<lparr>ts_name := trim_space n\<rparr> \<in> set (ds_tokens new)" by (simp_all add: c(5))
  from d(2) have "c \<in> set (list_client_tokens t)"
    unfolding c(2) list_client_tokens_def st(2) option.case set_map by (rule imageI)
  moreover have "ct_id c = i" "ct_name c = trim_space n" using d(1) by (simp_all add: c(2) client_of_def)
  ultimately show ?thesis
    using st(1,2) c(3,4) by (simp add: authenticate_proxy_def)
qed

section \<open>Progress\<close>

text \<open>
  C35. Progress: on a disk that works and a clock that can be written down, setting up, rotating to a
  fresh key, issuing (below the limit) and revoking (an existing token) succeed.
\<close>

theorem manager_progress:
  assumes "healthy s"
  shows "case vt_state s of
      None \<Rightarrow> succeeds s (initialize kdf)
    | Some st \<Rightarrow> times_ok st \<longrightarrow>
        succeeds s (rotate_access_key kdf []) \<and>
        (length (ds_tokens st) < 100 \<longrightarrow> succeeds s (issue_client_token n)) \<and>
        (i \<in> ts_id ` set (ds_tokens st) \<longrightarrow> succeeds s (revoke_client_token i))"
proof (cases "vt_state s")
  case None
  with assms succeeds_initialize [of s kdf] show ?thesis by simp
next
  case (Some st)
  with assms show ?thesis by (simp add: succeeds_rotate succeeds_issue succeeds_revoke max_tokens_def)
qed

theorem manager_progress_witness:
  "succeeds blank_vault (initialize sample_kdf)"
  using manager_progress [OF blank_healthy, of sample_kdf] by (simp add: blank_vault_def)

end
