(* ===== verification/Interleaving.thy ===== *)
theory Interleaving
  imports SiteSteps
begin

text \<open>
  Concurrent requests. What a request does is cut into the pieces that other requests and scheduler
  passes can come between: a statement or transaction of the database, an operation of the identity
  under its lock, an encryption, an operation on sessions or tickets. Requests are sequences of such
  pieces (a request that is cut off is a shorter one), and the invariants hold between any two of
  them, whoever they belong to.
\<close>

section \<open>Changes of the tables\<close>

text \<open>
  The statements of the store, \<open>h\<close> being the cipher texts, with the fingerprints of their
  secrets, that a request has encrypted and may insert.
\<close>

type_synonym held = "(string \<times> string) list"

inductive table_change :: "held \<Rightarrow> db \<Rightarrow> db \<Rightarrow> bool" for h where
  row_change: "tame f \<Longrightarrow> table_change h d (update_keys Q f d)"
| activation: "length (filter (promotable i) (db_keys d)) = 1 \<Longrightarrow> table_change h d (promote i t2 (demote t1 d))"
| row_removal: "table_change h d (remove_key i d)"
| insertion: "(k_encrypted k, k_fingerprint k) \<in> set h \<Longrightarrow> insert_key t k d = Inr (i, d') \<Longrightarrow> table_change h d d'"
| event_row: "insert_event q d = Inr ((), d') \<Longrightarrow> table_change h d d'"
| request_row: "pr_final_key r = None \<Longrightarrow> insert_request r d = Inr ((), d') \<Longrightarrow> table_change h d d'"
| attempt_row: "insert_attempt a d = Inr ((), d') \<Longrightarrow> table_change h d d'"
| request_change: "\<forall>r. pr_id (f r) = pr_id r \<and> pr_final_key (f r) = pr_final_key r \<Longrightarrow>
     update_request j final f d = Inr ((), d') \<Longrightarrow> table_change h d d'"
| renaming: "table_change h d (d\<lparr>db_requests :=
     map (\<lambda>r. if pr_client r = c then r\<lparr>pr_client_name := n\<rparr> else r) (db_requests d)\<rparr>)"
| purge: "table_change h d (remove_requests x d)"
| caching: "put_cache m d = Inr ((), d') \<Longrightarrow> table_change h d d'"
| settings_change: "table_change h d (d\<lparr>db_settings := v\<rparr>)"

lemma change_then: "(table_change h)\<^sup>*\<^sup>* d0 d \<Longrightarrow> table_change h d d' \<Longrightarrow> (table_change h)\<^sup>*\<^sup>* d0 d'"
  by (rule rtranclp.rtrancl_into_rtrancl)

interpretation changed: row_invariant "(table_change h)\<^sup>*\<^sup>* d0" for h d0
  by unfold_locales (erule change_then, (rule table_change.intros; assumption))+

lemma changed_create:
  assumes "(k_encrypted k, k_fingerprint k) \<in> set h"
  shows "keeps (on_db ((table_change h)\<^sup>*\<^sup>* d0)) (create_key k)"
  unfolding create_key_def
  by (intro keep_intros changed.keeps_key_by_id keeps_exec) (auto intro: change_then insertion assms)

section \<open>Pieces\<close>

text \<open>What no piece touches that is for the tables, the writer, the upstream or a reading of the clock.\<close>

definition beside :: "site \<Rightarrow> site \<Rightarrow> bool" where
  "beside s t \<longleftrightarrow> same_vault s t \<and> si_sessions t = si_sessions s \<and> si_tickets t = si_tickets s \<and>
     h_clock t = h_clock s \<and> h_ticks s \<le> h_ticks t"

inductive piece :: "site \<times> held \<Rightarrow> site \<times> held \<Rightarrow> bool" where
  tables: "table_change h (h_db s) d \<Longrightarrow> piece (s, h) (s\<lparr>h_db := d\<rparr>, h)"
| others: "beside s t \<Longrightarrow> h_db t = h_db s \<Longrightarrow> piece (s, h) (t, h)"
| encryption: "run_state (vault_encrypt p) s = (Inr e, t) \<Longrightarrow> piece (s, h) (t, (e, fingerprint p) # h)"
| identity: "run_state (run_call kdf c) s = (r, t) \<Longrightarrow> names_ok c \<Longrightarrow> piece (s, h) (t, h)"
| session_begun: "run_state session_create s = (c, t) \<Longrightarrow> piece (s, h) (t, h)"
| session_ended: "run_state (session_delete c) s = ((), t) \<Longrightarrow> piece (s, h) (t, h)"
| sessions_ended: "run_state session_reset s = ((), t) \<Longrightarrow> piece (s, h) (t, h)"
| ticket_begun: "run_state (ticket_create n) s = (c, t) \<Longrightarrow> utf8_ok n \<Longrightarrow> piece (s, h) (t, h)"
| ticket_taken: "run_state (ticket_consume c) s = (r, t) \<Longrightarrow> piece (s, h) (t, h)"
| restart: "failed_start\<^sup>*\<^sup>* s u \<Longrightarrow> run_state (start_process kdf en) u = (Inr c, t) \<Longrightarrow> piece (s, h) (t, [])"

inductive interleaved :: "site \<Rightarrow> held \<Rightarrow> bool" where
  start: "h_db s = migrated \<Longrightarrow> vt_state s = None \<Longrightarrow> vt_cipher s = None \<Longrightarrow> dk_file (vt_disk s) = None \<Longrightarrow>
     si_sessions s = [] \<Longrightarrow> si_tickets s = [] \<Longrightarrow> interleaved s []"
| step: "interleaved s h \<Longrightarrow> piece (s, h) (t, h') \<Longrightarrow> interleaved t h'"

inductive_cases pieceE: "piece (s, h) (t, h')"

section \<open>What every piece keeps\<close>

context row_invariant
begin

lemma keeps_change:
  assumes "table_change h d d'" "P d"
    and new: "\<And>t k i. (k_encrypted k, k_fingerprint k) \<in> set h \<Longrightarrow> insert_key t k d = Inr (i, d') \<Longrightarrow> P d'"
  shows "P d'"
  using assms(1)
proof cases
  case insertion
  then show ?thesis by (rule new)
next
  case event_row
  with assms(2) show ?thesis by (rule event_inserted)
next
  case request_row
  with assms(2) show ?thesis by (rule request_inserted)
next
  case attempt_row
  with assms(2) show ?thesis by (rule attempt_inserted)
next
  case request_change
  with assms(2) show ?thesis by (rule request_updated)
next
  case caching
  with assms(2) show ?thesis by (rule cache_put)
qed (use assms(2) in \<open>simp_all add: update activate key_removed client_renamed requests_removed settings_put\<close>)

end

definition all_held :: "string option \<Rightarrow> held \<Rightarrow> bool" where
  "all_held c h \<longleftrightarrow> list_all (\<lambda>p. opens c (fst p) (snd p)) h"

lemma open_change:
  assumes "table_change h d d'" "all_open c d" "all_held c h"
  shows "all_open c d'"
  using assms(1,2)
proof (rule key_rows.keeps_change)
  fix t k i assume k: "(k_encrypted k, k_fingerprint k) \<in> set h" "insert_key t k d = Inr (i, d')"
  from k(1) assms(3) have "opens c (k_encrypted k) (k_fingerprint k)" by (auto simp: all_held_def list_all_iff)
  with k(2) assms(2) show "all_open c d'" by (rule insert_key_open)
qed

context vault_invariant
begin

lemma at_call: "keeps I (run_call kdf c)"
  by (cases c) (auto simp: drop_result_def intro: keep_intros at_manager)

end

definition sound :: "site \<Rightarrow> held \<Rightarrow> bool" where
  "sound s h \<longleftrightarrow> on_db db_ok s \<and> safe s \<and> dated s \<and> all_held (vt_cipher s) h"

lemma sound_run:
  assumes "run_state m s = (r, t)" "sound s h" "keeps (on_db db_ok) m" "keeps safe m" "keeps dated m"
    and "all_held (vt_cipher s) h \<Longrightarrow> all_held (vt_cipher t) h"
  shows "sound t h"
  using assms(2,6) keeps_step [OF assms(3,1)] keeps_step [OF assms(4,1)] keeps_step [OF assms(5,1)]
  by (simp add: sound_def)

lemma held_call:
  assumes "run_state (run_call kdf c) s = (r, t)" "vault_ok s" "all_held (vt_cipher s) h"
  shows "all_held (vt_cipher t) h"
proof (cases "vt_cipher s")
  case None
  with assms(3) have "h = []" by (cases h) (simp_all add: all_held_def opens_def)
  then show ?thesis by (simp add: all_held_def)
next
  case (Some k)
  with assms(2) vault_cipher_state [of s] call_summary [OF assms(1)] assms(3) show ?thesis by (simp add: summary_def)
qed

lemma sound_call:
  assumes "run_state (run_call kdf c) s = (r, t)" "names_ok c" "sound s h"
  shows "sound t h"
  using assms(1,3)
proof (rule sound_run)
  show "keeps safe (run_call kdf c)"
    by (rule safe_call [where c = c and kdf = kdf]) (auto intro: assms(2) frame.at_call)
  show "keeps dated (run_call kdf c)" by (intro steady_dated steady_vault.at_call)
  show "keeps (on_db db_ok) (run_call kdf c)" by (rule table_vault.at_call)
  show "all_held (vt_cipher s) h \<Longrightarrow> all_held (vt_cipher t) h"
    using assms(1,3) by (auto simp: sound_def safe_def intro: held_call)
qed

lemma sound_session:
  assumes "run_state m s = (r, t)" "sound s h" "keeps (on_db db_ok) m" "\<And>c. keeps (rested c) m" "keeps safe m" "keeps dated m"
  shows "sound t h"
  using assms(1,2,3,5,6)
proof (rule sound_run)
  have "rested (vt_cipher s) s" using assms(2) by (simp add: sound_def safe_def rested_def)
  from keeps_step [OF assms(4,1) this] show "all_held (vt_cipher s) h \<Longrightarrow> all_held (vt_cipher t) h"
    by (simp add: rested_def)
qed

lemma sound_taken:
  assumes "run_state (ticket_consume c) s = (r, t)" "sound s h"
  shows "sound t h"
  using assms
proof (rule sound_run)
  show "keeps safe (ticket_consume c)" by (rule keepsI) (metis prod.collapse safe_ticket_consume)
  have "vt_cipher t = vt_cipher s" using assms(1) by (auto simp: run_ticket_consume split: option.splits if_splits)
  then show "all_held (vt_cipher s) h \<Longrightarrow> all_held (vt_cipher t) h" by simp
qed (rule on_db_tickets dated_ticket_consume)+

lemma safe_beside: "beside s t \<Longrightarrow> h_db t = h_db s \<Longrightarrow> safe s \<Longrightarrow> safe t"
  using vault_ok_same [of s t] by (simp add: beside_def safe_def same_vault_def)

lemma sound_beside: "beside s t \<Longrightarrow> h_db t = h_db s \<Longrightarrow> sound s h \<Longrightarrow> sound t h"
  using safe_beside [of s t] by (auto simp: sound_def beside_def on_db_def same_vault_def intro: dated_later)

lemma sound_tables: "table_change h (h_db s) d \<Longrightarrow> sound s h \<Longrightarrow> sound (s\<lparr>h_db := d\<rparr>) h"
  using open_change [of h "h_db s" d "vt_cipher s"] tables.keeps_change [of h "h_db s" d]
  by (auto simp: sound_def safe_def on_db_def dated_def intro: tables.key_inserted)

lemma sound_encrypted:
  assumes "run_state (vault_encrypt p) s = (Inr e, t)" "sound s h"
  shows "sound t ((e, fingerprint p) # h)"
proof -
  from assms(1) obtain k where k: "vt_cipher s = Some k" "run_state (encrypt k p) s = (e, t)"
    by (auto simp: run_vault_encrypt split: option.splits prod.splits)
  obtain n where t: "t = s\<lparr>ch_drawn := n\<rparr>" using encrypt_frame [OF k(2)] by blast
  have "decrypt k e = Inr p"
    using assms(2) k by (intro decrypt_encrypt [OF vault_key_length]) (auto simp: sound_def safe_def)
  with assms(2) k(1) show ?thesis
    by (auto simp: t sound_def safe_def all_held_def opens_def dated_def)
qed

lemma sound_restart:
  assumes "failed_start\<^sup>*\<^sup>* s u" "run_state (start_process kdf en) u = (Inr c, t)" "sound s h"
  shows "sound t []"
proof -
  have "safe t" using assms by (auto simp: sound_def intro: parked_restart failed_starts_parked safe_parked)
  with assms restart_db [OF assms(2)] failed_starts_db [OF assms(1)] restart_stores [OF assms(2)] show ?thesis
    by (simp add: sound_def on_db_def dated_def all_held_def)
qed

lemma sound_piece: "piece (s, h) (t, h') \<Longrightarrow> sound s h \<Longrightarrow> sound t h'"
proof (erule pieceE)
  fix c assume "run_state session_create s = (c, t)" "h' = h" "sound s h"
  then show "sound t h'" by simp (erule (1) sound_session; intro on_db_sessions rested_sessions safe_pages.at_sessions dated_pages.at_sessions)
next
  fix c assume "run_state (session_delete c) s = ((), t)" "h' = h" "sound s h"
  then show "sound t h'" by simp (erule (1) sound_session; intro on_db_sessions rested_sessions safe_pages.at_sessions dated_pages.at_sessions)
next
  assume "run_state session_reset s = ((), t)" "h' = h" "sound s h"
  then show "sound t h'" by simp (erule (1) sound_session; intro on_db_sessions rested_sessions safe_pages.at_sessions dated_pages.at_sessions)
next
  fix n c assume "run_state (ticket_create n) s = (c, t)" "utf8_ok n" "h' = h" "sound s h"
  then show "sound t h'" by simp (erule (1) sound_session; intro on_db_tickets rested_ticket_create safe_ticket_create dated_ticket_create)
qed (auto intro: sound_tables sound_beside sound_encrypted sound_call sound_taken sound_restart)

lemma interleaved_sound: "interleaved s h \<Longrightarrow> sound s h"
proof (induction rule: interleaved.induct)
  case (start s)
  then have "site_reachable s" by (rule site_reachable.start)
  from reachable_invariant [OF this] show ?case by (simp add: sound_def all_held_def)
qed (rule sound_piece)

section \<open>Requests as sequences of pieces\<close>

interpretation beside_host: host_invariant "beside s" for s
  by unfold_locales (simp_all add: beside_def same_vault_def)

lemma beside_refl [simp]: "beside s s"
  by (simp add: beside_def same_vault_def)

lemma tables_pieces: "(table_change h)\<^sup>*\<^sup>* (h_db s) d \<Longrightarrow> piece\<^sup>*\<^sup>* (s, h) (s\<lparr>h_db := d\<rparr>, h)"
proof (induction rule: rtranclp_induct)
  case (step d d')
  from piece.tables [of h "s\<lparr>h_db := d\<rparr>" d'] step have "piece (s\<lparr>h_db := d\<rparr>, h) (s\<lparr>h_db := d'\<rparr>, h)" by simp
  with step.IH show ?case by (rule rtranclp.rtrancl_into_rtrancl)
qed simp

lemma store_pieces:
  assumes "run_state m s = (r, t)" "keeps (on_db ((table_change h)\<^sup>*\<^sup>* (h_db s))) m" "keeps (beside s) m"
  shows "piece\<^sup>*\<^sup>* (s, h) (t, h)"
proof -
  have "(table_change h)\<^sup>*\<^sup>* (h_db s) (h_db t)" using keeps_step [OF assms(2,1)] by (simp add: on_db_def)
  then have "piece\<^sup>*\<^sup>* (s, h) (s\<lparr>h_db := h_db t\<rparr>, h)" by (rule tables_pieces)
  moreover have "beside s t" using keeps_step [OF assms(3,1)] by simp
  then have "piece (s\<lparr>h_db := h_db t\<rparr>, h) (t, h)" by (intro piece.others) (simp_all add: beside_def same_vault_def)
  ultimately show ?thesis by (rule rtranclp.rtrancl_into_rtrancl)
qed

text \<open>The names in the tickets stay valid, so that the pieces have the names that they need.\<close>

definition named :: "site \<Rightarrow> bool" where
  "named s \<longleftrightarrow> names_ok_of (si_tickets s)"

interpretation named_vault: vault_invariant named
  by unfold_locales (simp_all add: named_def)

lemma named_sessions: "keeps named session_create" "keeps named (session_delete c)" "keeps named session_reset"
  unfolding session_create_def session_delete_def session_reset_def set_sessions_def Let_def
  by (intro keep_intros named_vault.at_now named_vault.at_draw | simp add: named_def)+

lemma named_ticket_create: "utf8_ok n \<Longrightarrow> keeps named (ticket_create n)"
  unfolding ticket_create_def drop_expired_def set_tickets_def Let_def
  by (intro keep_intros named_vault.at_now named_vault.at_draw | simp add: named_def)+

lemma named_ticket_consume: "run_state (ticket_consume c) s = (r, t) \<Longrightarrow> named s \<Longrightarrow>
    named t \<and> (\<forall>e. r = Some e \<longrightarrow> utf8_ok (er_name e))"
  by (auto simp: run_ticket_consume named_def names_find split: option.splits if_splits)

lemma named_piece: "piece (s, h) (t, h') \<Longrightarrow> named s \<Longrightarrow> named t"
  by (erule pieceE)
    (auto simp: beside_def restart_stores dest: keeps_step [OF named_vault.at_call] keeps_step [OF named_vault.at_manager(6)]
      keeps_step [OF named_sessions(1)] keeps_step [OF named_sessions(2)] keeps_step [OF named_sessions(3)]
      keeps_step [OF named_ticket_create] named_ticket_consume, auto simp: named_def names_ok_of_def dest: restart_stores)

lemma named_pieces: "piece\<^sup>*\<^sup>* p q \<Longrightarrow> named (fst p) \<Longrightarrow> named (fst q)"
  by (induction rule: rtranclp_induct) (auto dest: named_piece)

definition performed :: "site \<times> held \<Rightarrow> site \<Rightarrow> bool" where
  "performed p s \<longleftrightarrow> named (fst p) \<and> (\<exists>h. piece\<^sup>*\<^sup>* p (s, h))"

lemma performed_named: "performed p s \<Longrightarrow> named s"
  by (auto simp: performed_def dest: named_pieces)

lemma performed_step:
  assumes "performed p s" "\<And>h. named s \<Longrightarrow> \<exists>h'. piece\<^sup>*\<^sup>* (s, h) (t, h')"
  shows "performed p t"
proof -
  from assms(1) obtain h where h: "named (fst p)" "piece\<^sup>*\<^sup>* p (s, h)" by (auto simp: performed_def)
  from assms(2) [OF performed_named [OF assms(1)]] obtain h' where "piece\<^sup>*\<^sup>* (s, h) (t, h')" by blast
  with h show ?thesis by (auto simp: performed_def intro: rtranclp_trans)
qed

lemma performed_one:
  assumes "\<And>s r t h. run_state m s = (r, t) \<Longrightarrow> named s \<Longrightarrow> \<exists>h'. piece (s, h) (t, h')"
  shows "keeps (performed p) m"
proof (rule keepsI, erule performed_step)
  fix s h assume "named s"
  with assms [of s "fst (run_state m s)" "snd (run_state m s)" h] show "\<exists>h'. piece\<^sup>*\<^sup>* (s, h) (snd (run_state m s), h')"
    by auto
qed

lemma performed_store:
  assumes "\<And>h d. keeps (on_db ((table_change h)\<^sup>*\<^sup>* d)) m" "\<And>s. keeps (beside s) m"
  shows "keeps (performed p) m"
  by (rule keepsI, erule performed_step) (blast intro: store_pieces [OF surjective_pairing] assms)

lemma performed_host:
  "keeps (performed p) (key_by_id i)" "keeps (performed p) list_keys" "keeps (performed p) (update_key i n pr e ov)"
  "keeps (performed p) (delete_key i)" "keeps (performed p) (set_active i)" "keeps (performed p) get_settings"
  "keeps (performed p) (update_settings v)" "keeps (performed p) (rename_request_client j m)"
  "keeps (performed p) now" "keeps (performed p) (recent_requests lim off mo)" "keeps (performed p) (client_aggregates x)"
  "keeps (performed p) (read_dashboard x)"
  by (rule performed_store; intro changed.keeps_store changed.keeps_reports beside_host.at_store beside_host.at_reports
    table_vault.at_now beside_host.at_now)+

lemma performed_call:
  assumes "\<And>s r t. run_state m s = (r, t) \<Longrightarrow> \<exists>q. run_state (run_call kdf c) s = (q, t)" "names_ok c"
  shows "keeps (performed p) m"
  using assms by (intro performed_one) (blast intro: piece.identity)

lemma performed_manager:
  "keeps (performed p) (initialize kdf)" "keeps (performed p) (rotate_access_key kdf q)"
  "keeps (performed p) (revoke_client_token i)"
proof -
  show "keeps (performed p) (initialize kdf)"
    by (rule performed_call [where c = CInitialize and kdf = kdf]) (auto intro: run_dropped)
  show "keeps (performed p) (rotate_access_key kdf q)"
    by (rule performed_call [where c = "CRotate q" and kdf = kdf]) (auto intro: run_dropped)
  show "keeps (performed p) (revoke_client_token i)"
    by (rule performed_call [where c = "CRevoke i"]) auto
qed

lemma performed_sessions:
  "keeps (performed p) session_create" "keeps (performed p) (session_delete c)" "keeps (performed p) session_reset"
  using performed_one [of session_create p] performed_one [of "session_delete c" p] performed_one [of session_reset p]
  by (metis (full_types) piece.session_begun, metis (full_types) old.unit.exhaust piece.session_ended,
      metis (full_types) old.unit.exhaust piece.sessions_ended)

interpretation performed_names: name_invariant "performed p" for p
proof
  show "keeps (performed p) (issue_client_token n)" if "utf8_ok (client_name n)" for n
    by (rule performed_call [where c = "CIssue n"]) (use that in \<open>auto intro: run_dropped\<close>)
  show "keeps (performed p) (rename_client_token i n)" if "utf8_ok (trim_space n)" for i n
    by (rule performed_call [where c = "CRename i n"]) (use that in \<open>auto intro: run_dropped\<close>)
  show "keeps (performed p) (ticket_create n)" if "utf8_ok n" for n
    using that by (intro performed_one) (blast intro: piece.ticket_begun)
  show "performed p t \<and> (\<forall>e. r = Some e \<longrightarrow> utf8_ok (er_name e))" if "run_state (ticket_consume c) s = (r, t)" "performed p s" for c s r t
    using that named_ticket_consume [OF that(1) performed_named [OF that(2)]]
    by (auto intro: performed_step piece.ticket_taken)
  show "performed p (s\<lparr>sv_writer := w\<rparr>)" if "performed p s" for s w
    by (rule performed_step [OF that])
      (intro exI r_into_rtranclp, rule piece.others, simp_all add: beside_def same_vault_def)
qed (rule performed_host)+

text \<open>A handler of the proxy works beside identity, sessions and tickets.\<close>

lemma performed_lift:
  assumes "\<And>h d. keeps (on_db ((table_change h)\<^sup>*\<^sup>* d)) m" "\<And>c n. keeps (aged c n) m"
  shows "keeps (performed p) (lift_server m)"
proof (rule performed_store)
  fix s show "keeps (beside s) (lift_server m)"
  proof (rule keepsI)
    fix t assume t: "beside s t"
    have "same_vault t (snd (run_state (lift_server m) t))"
      by (simp add: lift_server_def split_beta same_vault_def)
    with t lift_steady [where s = t, OF assms(2)] show "beside s (snd (run_state (lift_server m) t))"
      by (auto simp: beside_def steady_def same_vault_def)
  qed
qed (intro lift_on_db assms(1))

text \<open>A key is saved in two pieces, and others can come between them.\<close>

lemma performed_persist_key: "keeps (performed p) (persist_key se n raw pr)"
proof (rule keepsI, erule performed_step)
  fix s h assume "named s"
  show "\<exists>h'. piece\<^sup>*\<^sup>* (s, h) (snd (run_state (persist_key se n raw pr) s), h')"
  proof (cases "vt_cipher s")
    case None
    then show ?thesis by (auto simp: persist_key_def Let_def run_state_bind run_vault_encrypt)
  next
    case (Some k)
    obtain e t where t: "run_state (encrypt k (trim_space raw)) s = (e, t)"
      by (cases "run_state (encrypt k (trim_space raw)) s")
    let ?h = "(e, fingerprint (trim_space raw)) # h"
    have "piece (s, h) (t, ?h)"
      by (rule piece.encryption) (simp add: run_vault_encrypt Some t)
    moreover have "piece\<^sup>*\<^sup>* (t, ?h) (snd (run_state (create_key (new_key nm e (fingerprint (trim_space raw)) pr)) t), ?h)" for nm
      by (rule store_pieces [OF surjective_pairing]) (simp_all add: changed_create beside_host.at_store new_key_def)
    ultimately show ?thesis
      by (simp add: persist_key_def Let_def run_state_bind run_vault_encrypt Some t split_beta)
        (blast intro: converse_rtranclp_into_rtranclp)
  qed
qed

interpretation performed_pages: page_invariant "performed p" se for p se
  by unfold_locales (intro performed_host performed_manager performed_sessions performed_persist_key
    performed_names.keeps_enrollment performed_names.keeps_create_token performed_names.keeps_rename_page
    performed_names.keeps_enroll performed_lift changed.handlers.keeps_test_key changed.handlers.keeps_handle_models
    changed.handlers.keeps_handle_inference aged_handlers.keeps_test_key aged_handlers.keeps_handle_models
    aged_handlers.keeps_handle_inference)+

lemma performed_site_step:
  assumes "site_step s t" "performed p s"
  shows "performed p t"
  using assms
proof (rule site_step_invariant)
  show "keeps (performed p) (serve_request se b q rid n)" for se b q rid n
    by (rule performed_pages.keeps_serve_request)
  show "keeps (performed p) (proxied se scheduler_run)" for se
    by (intro proxied_keeps performed_lift changed.keeps_scheduler_run aged_scheduler)
  show "performed p t" if "failed_start\<^sup>*\<^sup>* s u" "run_state (start_process kdf en) u = (Inr c, t)" "performed p s"
    for kdf en s u c t
    using that(3) by (rule performed_step) (blast intro: piece.restart that(1,2))
  show "performed p (s\<lparr>h_faults := fs\<rparr>)" if "performed p s" for s fs
    using that by (rule performed_step)
      (intro exI r_into_rtranclp, rule piece.others, simp_all add: beside_def same_vault_def)
qed

lemma site_step_pieces: "site_step s t \<Longrightarrow> names_ok_of (si_tickets s) \<Longrightarrow> \<exists>h'. piece\<^sup>*\<^sup>* (s, h) (t, h')"
  using performed_site_step [of s t "(s, h)"] by (auto simp: performed_def named_def)

lemma interleaved_pieces: "piece\<^sup>*\<^sup>* (s, h) (t, h') \<Longrightarrow> interleaved s h \<Longrightarrow> interleaved t h'"
  by (induction "(t, h')" arbitrary: t h' rule: rtranclp_induct) (auto intro: interleaved.step)

lemma reachable_interleaved: "site_reachable s \<Longrightarrow> \<exists>h. interleaved s h"
proof (induction rule: site_reachable.induct)
  case (start s)
  then have "interleaved s []" by (rule interleaved.start)
  then show ?case by blast
next
  case (step s t)
  then obtain h where h: "interleaved s h" by blast
  then have "names_ok_of (si_tickets s)" by (auto simp: sound_def safe_def dest: interleaved_sound)
  with step(2) obtain h' where "piece\<^sup>*\<^sup>* (s, h) (t, h')" using site_step_pieces by blast
  with h show ?case by (blast intro: interleaved_pieces)
qed

section \<open>The claims\<close>

text \<open>
  C14. Every request, every pass of the scheduler and every restart is a sequence of pieces: what it
  does to the whole state is what single statements, transactions, operations of the identity under
  its lock, encryptions and operations on sessions and tickets do one after the other, with keys
  inserted only as they were encrypted and names that are valid UTF-8.
\<close>

theorem requests_are_pieces:
  assumes "site_step s t" "names_ok_of (si_tickets s)"
  shows "\<exists>h'. piece\<^sup>*\<^sup>* (s, h) (t, h')"
  using assms by (rule site_step_pieces)

theorem requests_are_pieces_witness:
  "\<exists>h'. piece\<^sup>*\<^sup>* (sample_site, [])
     (snd (run_state (serve_request sample_site_env None (sample_request ''POST'' ''/api/setup/initialize'' []) [] 0) sample_site), h')"
  by (rule requests_are_pieces, rule site_step.request, rule prod_eqI) (simp_all add: names_ok_of_def)

text \<open>
  C2. Requests that run at the same time. Whatever pieces of whatever requests, scheduler passes and
  restarts come after one another, also of requests that never end: every stored upstream key, and
  every cipher text that a request still holds to store it, decrypts with the cipher in memory to a
  secret with its fingerprint; the identity in memory and the identity file have that cipher's key;
  and at most one key is active.
\<close>

theorem interleaved_site:
  assumes "interleaved s h"
  shows "list_all (\<lambda>r. \<exists>k p. vt_cipher s = Some k \<and> decrypt k (kr_encrypted r) = Inr p \<and> fingerprint p = kr_fingerprint r)
      (db_keys (h_db s)) \<and>
    list_all (\<lambda>(e, f). \<exists>k p. vt_cipher s = Some k \<and> decrypt k e = Inr p \<and> fingerprint p = f) h \<and>
    (case vt_cipher s of
       None \<Rightarrow> vt_state s = None
     | Some k \<Rightarrow> \<exists>st st'. vt_state s = Some st \<and> load_cipher st = Inr k \<and>
         holds_state (dk_file (vt_disk s)) st' \<and> load_cipher st' = Inr k) \<and>
    length (active_rows (db_keys (h_db s))) \<le> 1"
  using interleaved_sound [OF assms] safe_view [of s]
  by (simp add: sound_def on_db_def all_held_def opens_iff case_prod_unfold)

text \<open>Two requests that hold a cipher text each, on a site that has just been set up.\<close>

lemma sample_identity: "\<exists>s. interleaved s [] \<and> vt_cipher s \<noteq> None"
proof -
  have start: "interleaved sample_site []" by (rule interleaved.start) simp_all
  obtain v t where t: "run_state (initialize sample_kdf) sample_site = (Inr v, t)"
    using succeeds_initialize [of sample_site sample_kdf]
    by (auto simp: succeeds_def healthy_def text_year_0 sample_site_def blank_vault_def vault.defs)
  then obtain q where "run_state (run_call sample_kdf CInitialize) sample_site = (q, t)"
    using run_dropped by fastforce
  then have "piece (sample_site, []) (t, [])" by (rule piece.identity) simp
  with start have s: "interleaved t []" by (rule interleaved.step)
  have "vt_state t \<noteq> None" using initialize_effect [OF t] by auto
  with interleaved_sound [OF s] have "vt_cipher t \<noteq> None"
    by (auto simp: sound_def safe_def vault_ok_def split: option.splits)
  with s show ?thesis by blast
qed

lemma sample_encryption:
  assumes "interleaved s h" "vt_cipher s = Some k"
  obtains e t where "interleaved t ((e, fingerprint p) # h)" "vt_cipher t = Some k"
proof -
  obtain e t where e: "run_state (encrypt k p) s = (e, t)" by (cases "run_state (encrypt k p) s")
  have "interleaved t ((e, fingerprint p) # h)"
    by (rule interleaved.step [OF assms(1)], rule piece.encryption) (simp add: run_vault_encrypt assms(2) e)
  moreover have "vt_cipher t = Some k" using encrypt_frame [OF e] assms(2) by auto
  ultimately show thesis by (rule that)
qed

theorem interleaved_site_witness:
  "\<exists>s d e k p q. interleaved s [(d, fingerprint ''first''), (e, fingerprint ''second'')] \<and> vt_cipher s = Some k \<and>
     decrypt k d = Inr p \<and> fingerprint p = fingerprint ''first'' \<and> decrypt k e = Inr q \<and> fingerprint q = fingerprint ''second''"
proof -
  obtain s k where s: "interleaved s []" "vt_cipher s = Some k" using sample_identity by auto
  obtain e t where t: "interleaved t [(e, fingerprint ''second'')]" "vt_cipher t = Some k" by (rule sample_encryption [OF s])
  obtain d u where u: "interleaved u [(d, fingerprint ''first''), (e, fingerprint ''second'')]" "vt_cipher u = Some k"
    by (rule sample_encryption [OF t])
  from interleaved_site [OF u(1)] u(2) obtain p q where
    "decrypt k d = Inr p" "fingerprint p = fingerprint ''first''" "decrypt k e = Inr q" "fingerprint q = fingerprint ''second''"
    by auto
  with u show ?thesis by blast
qed

end
