(* ===== verification/SiteProps.thy ===== *)
theory SiteProps
  imports Gates ManagerTokens Interleaving
begin

text \<open>
  Properties of the whole program: its invariants over requests, scheduler and restarts, the two
  gates, pairing and the rotation of the access key.
\<close>

section \<open>A set-up site\<close>

text \<open>The site after POST /api/setup/initialize.\<close>

definition set_up_site :: site where
  "set_up_site =
     snd (run_state (serve_request sample_site_env None (sample_request ''POST'' ''/api/setup/initialize'' []) [] 0) sample_site)"

lemma set_up_site_reachable: "site_reachable set_up_site"
  unfolding set_up_site_def
  by (rule site_reachable.step [OF sample_site_reachable], rule site_step.request) (rule prod_eqI, simp_all)

lemma run_session_create:
  "run_state session_create s =
     (hex_encode (map (ch_random s) [ch_drawn s..<ch_drawn s + 32]),
      s\<lparr>ch_drawn := ch_drawn s + 32, h_ticks := Suc (h_ticks s),
        si_sessions := map_put (hex_encode (map (ch_random s) [ch_drawn s..<ch_drawn s + 32]))
          (h_clock s (h_ticks s) + session_life) (si_sessions s)\<rparr>)"
  by (simp add: session_create_def set_sessions_def Let_def run_state_bind run_draw run_now)

lemma setup_route: "find_route (sample_request ''POST'' ''/api/setup/initialize'' []) = SetupInitialize"
  by (simp add: sample_request_def find_route_def route_path_def fixed_routes_def)

lemma healthy_writer [simp]: "healthy (s\<lparr>sv_writer := w\<rparr>) = healthy s"
  by (simp add: healthy_def)

lemma sample_site_healthy: "healthy sample_site"
  by (simp add: healthy_def text_year_0)

lemma same_origin_sample: "same_origin (sample_request v p b)"
  by (simp add: same_origin_def sample_request_def header_get_def header_values_def Let_def)

lemma setup_run:
  assumes "healthy s" "vt_state s = None" "same_origin q"
  obtains v u w w' where "run_state (initialize (se_kdf se)) (s\<lparr>sv_writer := w\<rparr>) = (Inr v, u)" "healthy u"
    "run_state (setup_initialize se q) s = ((), (snd (run_state session_create u))\<lparr>sv_writer := w'\<rparr>)"
proof -
  define w where "w = set_header ''Cache-Control'' ''no-store'' (sv_writer s)"
  from succeeds_initialize [of "s\<lparr>sv_writer := w\<rparr>" "se_kdf se"] assms(1,2) obtain v u where
    u: "run_state (initialize (se_kdf se)) (s\<lparr>sv_writer := w\<rparr>) = (Inr v, u)" "healthy u"
    by (auto simp: succeeds_def)
  obtain w1 where w1: "run_state (start_session q) u = ((), (snd (run_state session_create u))\<lparr>sv_writer := w1\<rparr>)"
    using run_start_session by blast
  let ?reply = "reply_json 201 (map_obj [(''initialized'', JBool True), (''secrets'', secrets_json v)])"
  obtain w2 where "run_state ?reply ((snd (run_state session_create u))\<lparr>sv_writer := w1\<rparr>) =
      ((), (snd (run_state session_create u))\<lparr>sv_writer := w1, sv_writer := w2\<rparr>)"
    using run_reply_json by blast
  then have "run_state (setup_initialize se q) s = ((), (snd (run_state session_create u))\<lparr>sv_writer := w2\<rparr>)"
    using assms u(1) w1
    by (simp add: setup_initialize_def no_store_def run_state_bind w_def [symmetric] initialized_def)
  with u that show thesis by blast
qed

lemma set_up_site_state:
  obtains st k e where "vt_state set_up_site = Some st" "times_ok st" "ds_tokens st = []" "healthy set_up_site"
    "map_of (si_sessions set_up_site) k = Some e" "h_clock set_up_site (h_ticks set_up_site) \<le> e"
proof -
  let ?q = "sample_request ''POST'' ''/api/setup/initialize'' []"
  obtain w where w: "run_state (serve_request sample_site_env None ?q [] 0) sample_site =
      run_state (setup_initialize sample_site_env ?q) (sample_site\<lparr>sv_writer := w\<rparr>)"
    using run_serve [of sample_site_env None ?q "[]" 0 sample_site] by (auto simp: endpoint_page_def setup_route)
  have pre: "healthy (sample_site\<lparr>sv_writer := w\<rparr>)" "vt_state (sample_site\<lparr>sv_writer := w\<rparr>) = None" "same_origin ?q"
    by (simp_all add: sample_site_healthy same_origin_sample)
  obtain v u w1 w2 where u: "run_state (initialize (se_kdf sample_site_env)) (sample_site\<lparr>sv_writer := w, sv_writer := w1\<rparr>) = (Inr v, u)"
    "healthy u" "run_state (setup_initialize sample_site_env ?q) (sample_site\<lparr>sv_writer := w\<rparr>) =
       ((), (snd (run_state session_create u))\<lparr>sv_writer := w2\<rparr>)"
    by (rule setup_run [OF pre])
  then have t: "set_up_site = (snd (run_state session_create u))\<lparr>sv_writer := w2\<rparr>" by (simp add: set_up_site_def w)
  from initialize_effect [OF u(1)] obtain master access st where
    st: "set_up (se_kdf sample_site_env) master access st" "vt_state u = Some st" "written st (dk_file (vt_disk u))" by auto
  then have fine: "times_ok st" "ds_tokens st = []"
    by (auto simp: written_def document_def set_up_def fresh_state_def split: if_splits)
  have "steady (\<lambda>n. 0) 0 [] [] u"
    by (rule keeps_step [OF steady_vault.at_manager(1) u(1)]) (simp add: steady_def)
  then have c: "h_clock u = (\<lambda>n. 0)" by (simp add: steady_def)
  show thesis
  proof (rule that [of st "hex_encode (map (ch_random u) [ch_drawn u..<ch_drawn u + 32])" session_life])
    show "healthy set_up_site" using u(2) by (simp add: t run_session_create healthy_def)
  qed (use st fine in \<open>simp_all add: t run_session_create c session_life_def hour_def minute_def second_def\<close>)
qed

section \<open>Invariants\<close>

text \<open>
  C1. In every state that requests, passes of the scheduler, restarts after any failed starts,
  and failing statements or writes lead to: every stored upstream key decrypts, with the cipher in memory, to a secret with
  the fingerprint of its row; the identity in memory and the identity file have that cipher's key;
  and at most one key is active.
\<close>

theorem reachable_site:
  assumes "site_reachable s"
  shows "list_all (\<lambda>r. \<exists>k p. vt_cipher s = Some k \<and> decrypt k (kr_encrypted r) = Inr p \<and> fingerprint p = kr_fingerprint r)
      (db_keys (h_db s)) \<and>
    (case vt_cipher s of
       None \<Rightarrow> vt_state s = None
     | Some k \<Rightarrow> \<exists>st st'. vt_state s = Some st \<and> load_cipher st = Inr k \<and>
         holds_state (dk_file (vt_disk s)) st' \<and> load_cipher st' = Inr k) \<and>
    length (active_rows (db_keys (h_db s))) \<le> 1"
  using reachable_invariant [OF assms] by (intro safe_view) (simp_all add: on_db_def)

theorem reachable_site_witness:
  "\<exists>k st. vt_cipher set_up_site = Some k \<and> holds_state (dk_file (vt_disk set_up_site)) st \<and> load_cipher st = Inr k"
proof -
  obtain st where st: "vt_state set_up_site = Some st" by (rule set_up_site_state)
  show ?thesis
  proof (cases "vt_cipher set_up_site")
    case None
    with reachable_site [OF set_up_site_reachable] st show ?thesis by simp
  next
    case (Some k)
    with reachable_site [OF set_up_site_reachable] show ?thesis by auto
  qed
qed




section \<open>The gates\<close>





lemma run_unit: "run_state (m :: unit page) s = ((), snd (run_state m s))"
  by (rule prod_eqI) simp_all




section \<open>The login\<close>

lemma login_writer [simp]: "verify_admin kdf p (s\<lparr>sv_writer := w\<rparr>) = verify_admin kdf p s"
  by (simp add: verify_admin_def)

lemma sent_after_session:
  "run_state (start_session q) s = ((), t) \<Longrightarrow> wr_sent (sv_writer t) = wr_sent (sv_writer s)"
  by (auto simp: start_session_def set_cookie_def run_state_bind run_session_create)

lemma run_login:
  assumes "run_state (login se q) s = ((), t)" "wr_sent (sv_writer s) = None"
    "text_input ''password'' None (hq_body q) = (password, good)"
  shows "if initialized s \<and> good \<and> verify_admin (se_kdf se) password s
    then status_of t = Some 200 \<and> (\<exists>w. t = (snd (run_state session_create s))\<lparr>sv_writer := w\<rparr>)
    else status_of t = Some (if initialized s then 401 else 503) \<and> (\<exists>w. t = s\<lparr>sv_writer := w\<rparr>)"
proof (cases "initialized s \<and> good \<and> verify_admin (se_kdf se) password s")
  case True
  obtain w1 where w1: "run_state (start_session q) s = ((), (snd (run_state session_create s))\<lparr>sv_writer := w1\<rparr>)"
    using run_start_session by blast
  from sent_after_session [OF this] assms(2) have sent: "wr_sent w1 = None" by simp
  have run: "run_state (reply_json 200 (JObj [(''ok'', JBool True)])) ((snd (run_state session_create s))\<lparr>sv_writer := w1\<rparr>) = ((), t)"
    using assms(1,3) True w1 by (simp add: login_def run_state_bind)
  from answersD [OF answers_json _ run] sent True show ?thesis by auto
next
  case False
  then have "run_state (if initialized s then error_reply 401 ''invalid password'' else setup_needed) s = ((), t)"
    using assms(1,3) by (auto simp: login_def run_state_bind split: if_splits)
  then show ?thesis
    using False answersD [OF answers_replies(1) assms(2)] answersD [OF answers_replies(3) assms(2)]
    by (auto split: if_splits)
qed

text \<open>
  C10. The login. It is answered with 200 exactly when the instance is set up, the body is a document
  and its password is that of the administrator; then one session of twelve hours is there in
  addition, under a token of 64 digits. Otherwise the answer is 503 before the setup and 401 after
  it, and no session has changed. Nothing else of the instance changes.
\<close>

theorem login_exact:
  assumes "run_state (serve_request se budget q rid n) s = ((), t)" "find_route q = Login"
    and "text_input ''password'' None (hq_body q) = (password, good)"
  shows "(let ok = initialized s \<and> good \<and> verify_admin (se_kdf se) password s in
      status_of t = Some (if ok then 200 else if initialized s then 401 else 503) \<and>
      (\<exists>fresh. length fresh = 64 \<and> (\<forall>k. session_expiry t k =
         (if ok \<and> k = fresh then Some (h_clock s (h_ticks s) + 12 * hour) else session_expiry s k)))) \<and>
    h_db t = h_db s \<and> vt_state t = vt_state s \<and> vt_disk t = vt_disk s \<and> sv_calls t = sv_calls s \<and> si_tickets t = si_tickets s"
proof -
  obtain w where w: "wr_sent w = None"
    "run_state (serve_request se budget q rid n) s = run_state (endpoint_page se q rid n (find_route q)) (s\<lparr>sv_writer := w\<rparr>)"
    by (rule run_serve)
  then have run: "run_state (login se q) (s\<lparr>sv_writer := w\<rparr>) = ((), t)"
    using assms(1,2) by (simp add: endpoint_page_def)
  let ?ok = "initialized s \<and> good \<and> verify_admin (se_kdf se) password s"
  let ?fresh = "hex_encode (map (ch_random s) [ch_drawn s..<ch_drawn s + 32])"
  have r: "if ?ok then status_of t = Some 200 \<and> (\<exists>v. t = (snd (run_state session_create (s\<lparr>sv_writer := w\<rparr>)))\<lparr>sv_writer := v\<rparr>)
      else status_of t = Some (if initialized s then 401 else 503) \<and> (\<exists>v. t = s\<lparr>sv_writer := v\<rparr>)"
    using run_login [OF run _ assms(3)] w(1) by (auto split: if_splits)
  then have "status_of t = Some (if ?ok then 200 else if initialized s then 401 else 503)" by (auto split: if_splits)
  moreover have "session_expiry t k = (if ?ok \<and> k = ?fresh then Some (h_clock s (h_ticks s) + 12 * hour) else session_expiry s k)" for k
    using r by (auto simp: session_expiry_def run_session_create session_life_def split: if_splits)
  moreover have "length ?fresh = 64" by simp
  moreover have "h_db t = h_db s \<and> vt_state t = vt_state s \<and> vt_disk t = vt_disk s \<and> sv_calls t = sv_calls s \<and> si_tickets t = si_tickets s"
    using r by (auto simp: run_session_create split: if_splits)
  ultimately show ?thesis unfolding Let_def by blast
qed

theorem login_exact_witness:
  "status_of (snd (run_state (serve_request sample_site_env None (sample_request ''POST'' ''/api/admin/login'' []) [] 0)
     set_up_site)) = Some 401"
proof -
  let ?q = "sample_request ''POST'' ''/api/admin/login'' []"
  have r: "find_route ?q = Login"
    by (simp add: sample_request_def find_route_def route_path_def fixed_routes_def)
  have i: "text_input ''password'' None (hq_body ?q) = ([], False)"
    by (simp add: text_input_def decode_body_def sample_request_def first_value_def Let_def) code_simp
  obtain st where "vt_state set_up_site = Some st" by (rule set_up_site_state)
  then have "initialized set_up_site"
    using reachable_invariant [OF set_up_site_reachable] by (auto simp: initialized_def safe_def vault_ok_def)
  with login_exact [OF run_unit r i] show ?thesis by simp
qed

section \<open>Pairing\<close>

text \<open>The ticket a request brings.\<close>

definition ticket_of :: "request \<Rightarrow> string" where
  "ticket_of q = trim_space (ei_ticket
     (fst (decode_body (Some small_body) enroll_fields (hq_body q) \<lparr>ei_ticket = [], ei_base_url = []\<rparr>)))"

lemma list_tokens_frame [simp]:
  "list_client_tokens (s\<lparr>sv_writer := w\<rparr>) = list_client_tokens s"
  "list_client_tokens (s\<lparr>h_ticks := n\<rparr>) = list_client_tokens s"
  by (simp_all add: list_client_tokens_def)

lemma list_tokens_frame_site [simp]: "list_client_tokens (s\<lparr>si_tickets := m\<rparr>) = list_client_tokens s"
  by (simp add: list_client_tokens_def)

lemma issue_failure:
  assumes "run_state (issue_client_token n) s = (Inl e, t)" shows "list_client_tokens t = list_client_tokens s"
proof (cases "vt_state s")
  case None
  with issue_effect [OF assms] show ?thesis by simp
next
  case (Some old)
  with issue_effect [OF assms] show ?thesis by (simp add: changes_def list_client_tokens_def)
qed

lemma issue_lists:
  assumes "run_state (issue_client_token n) s = (Inr (c, token), t)"
  shows "list_client_tokens t = list_client_tokens s @ [c]" "ct_name c = client_name n"
  using assms by (auto elim!: issue_success simp: issued_def list_client_tokens_def client_of_def new_token_def)

text \<open>What a program may end in: a property of status and final state.\<close>

definition pairs_once :: "string \<Rightarrow> site \<Rightarrow> site \<Rightarrow> bool" where
  "pairs_once k s t \<longleftrightarrow>
     (if status_of t = Some 201 then
        ticket_expiry t k = None \<and>
        (\<exists>e c. map_of (si_tickets s) (sha256 k) = Some e \<and> h_clock s (h_ticks s) \<le> er_expires e \<and>
           list_client_tokens t = list_client_tokens s @ [c] \<and> ct_name c = client_name (er_name e))
      else list_client_tokens t = list_client_tokens s)"

lemma pairs_once_error:
  assumes "run_state m u = ((), t)" "answers c m" "c \<noteq> 201" "wr_sent (sv_writer u) = None"
    "list_client_tokens u = list_client_tokens s"
  shows "pairs_once k s t"
  using answersD [OF assms(2,4,1)] assms(3,5) by (auto simp: pairs_once_def)

lemma answers_issued: "answers 201 (issued_reply base c token)"
  unfolding issued_reply_def by (rule answers_json)

interpretation writing: vault_invariant "\<lambda>s. sv_writer s = w" for w
  by unfold_locales simp_all

lemma run_enroll:
  assumes "run_state (client_enroll q) s = ((), t)" "wr_sent (sv_writer s) = None"
  shows "pairs_once (ticket_of q) s t"
proof -
  obtain v good where v: "decode_body (Some small_body) enroll_fields (hq_body q) \<lparr>ei_ticket = [], ei_base_url = []\<rparr> = (v, good)"
    by (cases "decode_body (Some small_body) enroll_fields (hq_body q) \<lparr>ei_ticket = [], ei_base_url = []\<rparr>")
  then have k: "trim_space (ei_ticket v) = ticket_of q" by (simp add: ticket_of_def)
  define w where "w = set_header ''Cache-Control'' ''no-store'' (sv_writer s)"
  let ?s = "s\<lparr>sv_writer := w\<rparr>"
  have u: "wr_sent (sv_writer ?s) = None" "list_client_tokens ?s = list_client_tokens s" using assms(2) by (simp_all add: w_def)
  note err = pairs_once_error [OF _ answers_replies(1)]
  show ?thesis
  proof (cases "initialized s \<and> good \<and> normalize_base_url (ei_base_url v) \<noteq> None")
    case False
    then show ?thesis
      using assms(1) v u
      by (auto simp: client_enroll_def no_store_def run_state_bind w_def [symmetric] split: if_splits option.splits intro: err)
  next
    case True
    then obtain base where base: "normalize_base_url (ei_base_url v) = Some base" by blast
    obtain item u where item: "run_state (ticket_consume (ticket_of q)) ?s = (item, u)"
      by (cases "run_state (ticket_consume (ticket_of q)) ?s")
    then have u': "wr_sent (sv_writer u) = None" "list_client_tokens u = list_client_tokens s"
      using assms(2) by (auto simp: run_ticket_consume w_def split: option.splits)
    have rest: "run_state (case item of
        None \<Rightarrow> error_reply 401 ''pairing ticket is invalid, expired, or already used''
      | Some e \<Rightarrow> State_Monad.bind (issue_client_token (er_name e)) (\<lambda>r. case r of
          Inl _ \<Rightarrow> server_error | Inr (c, token) \<Rightarrow> issued_reply base c token)) u = ((), t)"
      using assms(1) True v k base item by (simp add: client_enroll_def no_store_def run_state_bind w_def [symmetric])
    show ?thesis
    proof (cases item)
      case None
      with rest show ?thesis by (auto intro: err u')
    next
      case (Some e)
      with item have e: "map_of (si_tickets s) (sha256 (ticket_of q)) = Some e" "h_clock s (h_ticks s) \<le> er_expires e"
        "si_tickets u = map_del (sha256 (ticket_of q)) (si_tickets s)"
        by (auto simp: run_ticket_consume split: option.splits if_splits)
      obtain r x where r: "run_state (issue_client_token (er_name e)) u = (r, x)"
        by (cases "run_state (issue_client_token (er_name e)) u")
      have "si_tickets x = si_tickets u"
        using keeps_step [OF frame.at_manager(3) [of "h_db u" "si_tickets u"] r] by simp
      have sent: "wr_sent (sv_writer x) = None"
        using keeps_step [OF writing.at_manager(3) [of "sv_writer u"] r] u' by simp
      show ?thesis
      proof (cases r)
        case (Inl err)
        with rest Some r have "run_state server_error x = ((), t)" by (simp add: run_state_bind)
        then show ?thesis
          by (rule pairs_once_error [OF _ answers_replies(2)]) (use sent issue_failure [of _ u err x] r Inl u' in auto)
      next
        case (Inr v)
        then obtain c token where v: "r = Inr (c, token)" by (cases v) auto
        with rest Some r have "run_state (issued_reply base c token) x = ((), t)" by (simp add: run_state_bind)
        from answersD [OF answers_issued sent this]
        obtain w' where t: "status_of t = Some 201" "t = x\<lparr>sv_writer := w'\<rparr>" by auto
        with e \<open>si_tickets x = si_tickets u\<close> issue_lists [of "er_name e" u c token x] r v u'
        show ?thesis by (auto simp: pairs_once_def ticket_expiry_def)
      qed
    qed
  qed
qed

text \<open>
  C11. A pairing ticket is good for one client. When a request to /api/client/enroll is answered with
  201, its ticket was held and had not expired, one client with the ticket's name was added, and the
  ticket is gone, so that it is refused from then on; with any other answer no client was added.
\<close>

theorem ticket_single_use:
  assumes "run_state (serve_request se budget q rid n) s = ((), t)" "find_route q = Enroll"
  shows "if status_of t = Some 201 then
      (\<exists>e c. map_of (si_tickets s) (sha256 (ticket_of q)) = Some e \<and> h_clock s (h_ticks s) \<le> er_expires e \<and>
         list_client_tokens t = list_client_tokens s @ [c] \<and> ct_name c = client_name (er_name e)) \<and>
      fst (run_state (ticket_consume (ticket_of q)) t) = None
    else list_client_tokens t = list_client_tokens s"
proof -
  obtain w where w: "wr_sent w = None"
    "run_state (serve_request se budget q rid n) s = run_state (endpoint_page se q rid n (find_route q)) (s\<lparr>sv_writer := w\<rparr>)"
    by (rule run_serve)
  with assms have "run_state (client_enroll q) (s\<lparr>sv_writer := w\<rparr>) = ((), t)" by (simp add: endpoint_page_def)
  from run_enroll [OF this] w(1) show ?thesis
    by (auto simp: pairs_once_def run_ticket_consume ticket_expiry_def split: if_splits)
qed

text \<open>A set-up site with a ticket, and a request that brings it.\<close>

definition pairing_site :: site where
  "pairing_site = set_up_site\<lparr>si_tickets := [(sha256 ''T'', \<lparr>er_name = ''laptop'', er_expires = h_clock set_up_site (h_ticks set_up_site)\<rparr>)]\<rparr>"

definition pairing_document :: json where
  "pairing_document = JObj [(''ticket'', JStr ''T''), (''base_url'', JStr ''http://h'')]"

definition pairing_request :: request where
  "pairing_request = sample_request ''POST'' ''/api/client/enroll'' (pretty 0 pairing_document)"

lemma first_value_document:
  assumes "clean max_depth v" "length (pretty 0 v) \<le> lim"
  shows "first_value (Some lim) \<lparr>bd_data = pretty 0 v, bd_fails = False\<rparr> = Some v"
  using parse_pretty [OF assms(1), of 0] assms(2)
  by (auto simp: parse_json_def first_value_def Let_def simp del: parse_value.simps split: option.splits prod.splits if_splits)

lemma pairing_clean: "clean max_depth pairing_document"
  by (simp add: pairing_document_def max_depth_def utf8_ok_ascii less_char_def)

lemma pairing_length: "length (pretty 0 pairing_document) \<le> small_body"
  by code_simp

lemma pairing_input:
  "decode_body (Some small_body) enroll_fields (hq_body pairing_request) \<lparr>ei_ticket = [], ei_base_url = []\<rparr> =
     (\<lparr>ei_ticket = ''T'', ei_base_url = ''http://h''\<rparr>, True)"
  using first_value_document [OF pairing_clean pairing_length]
  by (simp add: decode_body_def pairing_request_def sample_request_def)
    (simp add: decode_struct_def pairing_document_def enroll_fields_def find_field_def fd_str_def)

lemma pairing_base: "normalize_base_url ''http://h'' = Some ''http://h''"
  by code_simp

lemma pairing_route: "find_route pairing_request = Enroll" "ticket_of pairing_request = ''T''"
proof -
  show "find_route pairing_request = Enroll"
    by (simp add: pairing_request_def sample_request_def find_route_def route_path_def fixed_routes_def)
  have "trim_space ''T'' = ''T''" by (simp add: trim_space_def trim_left_def trim_end_def space1_def less_eq_char_def)
  then show "ticket_of pairing_request = ''T''" by (simp add: ticket_of_def pairing_input)
qed

lemma pairing_answer: "status_of (snd (run_state (serve_request sample_site_env None pairing_request [] 0) pairing_site)) = Some 201"
proof -
  obtain w where w: "wr_sent w = None" "run_state (serve_request sample_site_env None pairing_request [] 0) pairing_site =
      run_state (client_enroll pairing_request) (pairing_site\<lparr>sv_writer := w\<rparr>)"
    using run_serve [of sample_site_env None pairing_request "[]" 0 pairing_site] by (auto simp: endpoint_page_def pairing_route)
  define w' where "w' = set_header ''Cache-Control'' ''no-store'' w"
  obtain st where st: "vt_state set_up_site = Some st" "times_ok st" "ds_tokens st = []" "healthy set_up_site"
    by (rule set_up_site_state)
  let ?e = "\<lparr>er_name = ''laptop'', er_expires = h_clock set_up_site (h_ticks set_up_site)\<rparr>"
  let ?u = "pairing_site\<lparr>sv_writer := w', h_ticks := Suc (h_ticks pairing_site), si_tickets := []\<rparr>"
  have ready: "initialized pairing_site"
    using st(1) reachable_invariant [OF set_up_site_reachable]
    by (auto simp: initialized_def pairing_site_def safe_def vault_ok_def)
  have item: "run_state (ticket_consume ''T'') (pairing_site\<lparr>sv_writer := w'\<rparr>) = (Some ?e, ?u)"
    by (simp add: run_ticket_consume pairing_site_def map_del_def)
  have "succeeds ?u (issue_client_token ''laptop'')"
    by (rule succeeds_issue [of _ st]) (use st in \<open>simp_all add: healthy_def pairing_site_def max_tokens_def\<close>)
  then obtain c token x where x: "run_state (issue_client_token ''laptop'') ?u = (Inr (c, token), x)"
    by (auto simp: succeeds_def)
  have sent: "wr_sent (sv_writer x) = None"
    using keeps_step [OF writing.at_manager(3) [of w'] x] w(1) by (simp add: w'_def)
  have "run_state (client_enroll pairing_request) (pairing_site\<lparr>sv_writer := w\<rparr>) =
      run_state (issued_reply ''http://h'' c token) x"
    using ready item x pairing_route(2)
    by (simp add: client_enroll_def no_store_def run_state_bind w'_def [symmetric] pairing_input pairing_base ticket_of_def)
  with answersD(1) [OF answers_issued sent run_unit] show ?thesis by (simp add: w(2))
qed

theorem ticket_single_use_witness:
  "\<exists>c. list_client_tokens (snd (run_state (serve_request sample_site_env None pairing_request [] 0) pairing_site)) =
     list_client_tokens pairing_site @ [c] \<and> ct_name c = client_name ''laptop''"
proof -
  have "map_of (si_tickets pairing_site) (sha256 ''T'') =
      Some \<lparr>er_name = ''laptop'', er_expires = h_clock set_up_site (h_ticks set_up_site)\<rparr>"
    by (simp add: pairing_site_def)
  with ticket_single_use [OF run_unit pairing_route(1), of sample_site_env None "[]" 0 pairing_site]
  show ?thesis by (auto simp: pairing_answer pairing_route(2))
qed

section \<open>Rotating the access key\<close>









end
