(* ===== verification/SiteCalls.thy ===== *)
theory SiteCalls
  imports SiteInv ConfigProps
begin

text \<open>
  The calls of the whole program: whatever request is served and whatever pass of the scheduler
  runs, the calls that are added go to the upstream of the configuration.
\<close>

section \<open>Calls below a base URL\<close>

definition below :: "string \<Rightarrow> upstream_call \<Rightarrow> bool" where
  "below base c \<longleftrightarrow> prefix (trim_right base (CHR ''/'') @ ''/'') (uc_url c)"

definition sent :: "upstream_call list \<Rightarrow> string \<Rightarrow> 'z server_scheme \<Rightarrow> bool" where
  "sent cs base s \<longleftrightarrow> (\<exists>new. sv_calls s = cs @ new \<and> list_all (below base) new)"

lemma below_calls: "below (en_base_url ev) (inference_call ev inc p b k)" "below (en_base_url ev) (models_call ev k)"
  by (simp_all add: below_def inference_call_def models_call_def Let_def)

lemma sent_same: "sent cs base s \<Longrightarrow> sv_calls t = sv_calls s \<Longrightarrow> sent cs base t"
  by (simp add: sent_def)

lemma sent_send:
  assumes "below base c" shows "keeps (sent cs base) (send c)"
proof (rule keepsI)
  fix s :: server assume "sent cs base s"
  then obtain new where "sv_calls s = cs @ new" "list_all (below base) new" by (auto simp: sent_def)
  with assms show "sent cs base (snd (run_state (send c) s))"
    by (auto simp: send_def sent_def intro!: exI [of _ "new @ [c]"])
qed

text \<open>In a handler, on the whole state, and under the programs of store and identity.\<close>

interpretation sent_host: host_invariant "sent cs base" for cs base
  by unfold_locales (simp_all add: sent_def)

interpretation sent_vault: vault_invariant "sent cs base" for cs base
  by unfold_locales (simp_all add: sent_def)

interpretation sent_handlers: call_invariant "sent cs (en_base_url ev)" ev for cs ev
proof
  show "keeps (sent cs (en_base_url ev)) (send (inference_call ev inc p b k))" for inc p b k
    by (intro sent_send below_calls)
  show "keeps (sent cs (en_base_url ev)) (send (models_call ev k))" for k
    by (intro sent_send below_calls)
qed (intro sent_host.at_now sent_host.at_store | simp add: sent_def)+

lemma lift_sent: "keeps (sent cs base) m \<Longrightarrow> keeps (sent cs base) (lift_server m)"
  using keepsD [of "sent cs base" m] by (intro keepsI) (simp add: lift_server_def sent_def split_beta server.defs)

section \<open>Pages and passes\<close>

lemma sent_stores:
  "keeps (sent cs base) session_create" "keeps (sent cs base) (session_delete t)" "keeps (sent cs base) session_reset"
  "keeps (sent cs base) (ticket_create n)" "keeps (sent cs base) (ticket_consume t)"
  unfolding session_create_def session_delete_def session_reset_def set_sessions_def ticket_create_def
    ticket_consume_def drop_expired_def set_tickets_def Let_def
  by (intro keep_intros sent_vault.at_draw sent_host.at_now | simp add: sent_def)+

interpretation sent_plain: plain_invariant "sent cs base" for cs base
  by unfold_locales (intro sent_host.at_now sent_host.at_store sent_vault.at_manager sent_stores | simp add: sent_def)+

interpretation sent_pages: page_invariant "sent cs (en_base_url (se_env se))" se for cs se
proof
  fix d :: "string \<Rightarrow> string + string"
  let ?ev = "(se_env se)\<lparr>en_decrypt := d\<rparr>"
  have base: "en_base_url ?ev = en_base_url (se_env se)" by simp
  show "keeps (sent cs (en_base_url (se_env se))) (lift_server (test_key ?ev k b))"
    "keeps (sent cs (en_base_url (se_env se))) (lift_server (handle_models ?ev))"
    "keeps (sent cs (en_base_url (se_env se))) (lift_server (handle_inference ?ev p i inc))" for k b p i inc
    using sent_handlers.keeps_test_key [of cs ?ev] sent_handlers.keeps_handle_models [of cs ?ev]
      sent_handlers.keeps_handle_inference [of cs ?ev]
    by (simp_all only: base lift_sent)
qed (intro sent_host.at_store sent_host.at_reports sent_vault.at_manager sent_stores sent_plain.keeps_persist_key
  sent_plain.keeps_names)+

lemma sent_scheduler: "keeps (sent cs (en_base_url ev)) (scheduler_run ev)"
  unfolding scheduler_run_def by (intro keep_intros sent_host.at_now sent_host.at_store sent_handlers.keeps_test_key)

end
