(* ===== verification/Process.thy ===== *)
theory Process
  imports SiteCalls SiteSteps
begin

text \<open>
  The process (main of cmd/opencodeproxy): the start, the service of requests and scheduler passes
  until a signal arrives or the listener fails, and the graceful shutdown. A process may serve for
  ever, so that its result is an option.
\<close>

section \<open>Events\<close>






section \<open>The life of a process\<close>








section \<open>When a process ends\<close>


section \<open>Where the keys go\<close>





text \<open>The credentials of a configuration are complete, so that no start fails for want of one.\<close>

lemma start_credentials:
  assumes "run_state (start_process kdf en) s = (Inl e, t)"
  shows "e \<noteq> NoIdentity LegacyIncomplete"
proof
  assume "e = NoIdentity LegacyIncomplete"
  with assms obtain c :: config and u where "load_config en = Inr c"
    "run_state (open_manager kdf (cf_master c) (cf_admin c) (cf_bootstrap c)) u = (Inl LegacyIncomplete, t)"
    by (auto simp: run_start_process split: sum.splits prod.splits if_splits)
  with config_credentials [of en c kdf u] show False by simp
qed






end
